theory Spec2Isabelle
  imports Main "HOL-Library.Word"
begin

unbundle bit_operations_syntax

section \<open>SessionPrivateNamespace: the namespace name\<close>

text \<open>
  \<^verbatim>\<open>session_private_namespace.cpp\<close> asserts statically that
  \<^verbatim>\<open>kPrivateNamespaceMaxLen + 1 == sizeof("WindhawkSession1234567890")\<close>; \<^verbatim>\<open>sizeof\<close> of a
  string literal counts its terminating NUL, so the constant is the literal's length.
\<close>

definition kPrivateNamespaceMaxLen :: nat where
  "kPrivateNamespaceMaxLen = 25"

text \<open>The decimal digits that the conversion \<^verbatim>\<open>%u\<close> prints: no sign, no padding.\<close>

definition digit_char :: "nat \<Rightarrow> char" where
  "digit_char d = char_of (48 + d)"

function dec_digits :: "nat \<Rightarrow> string" where
  "dec_digits n = (if n < 10 then [digit_char n] else dec_digits (n div 10) @ [digit_char (n mod 10)])"
  by pat_completeness auto
termination
  by (relation "measure id") auto

declare dec_digits.simps [simp del]

text \<open>The value that a string of decimal digits denotes, most significant digit first.\<close>

definition dec_value :: "string \<Rightarrow> nat" where
  "dec_value ds = foldl (\<lambda>acc c. 10 * acc + (of_char c - 48)) 0 ds"

text \<open>
  \<^verbatim>\<open>swprintf_s(buffer, sizeOfBuffer, format, ...)\<close>: the formatted text together with its
  terminating NUL has to fit into \<^verbatim>\<open>sizeOfBuffer\<close> characters; then the text is stored and
  its length returned. Otherwise the invalid-parameter handler runs.
\<close>

datatype crt_error = InvalidParameter

definition swprintf_s :: "nat \<Rightarrow> string \<Rightarrow> crt_error + (string \<times> int)" where
  "swprintf_s sizeOfBuffer formatted =
     (if length formatted < sizeOfBuffer then Inr (formatted, int (length formatted))
      else Inl InvalidParameter)"

type_synonym DWORD = "32 word"

definition MakeName :: "DWORD \<Rightarrow> crt_error + (string \<times> int)" where
  "MakeName dwSessionManagerProcessId =
     swprintf_s (kPrivateNamespaceMaxLen + 1)
       (''WindhawkSession'' @ dec_digits (unat dwSessionManagerProcessId))"

section \<open>UpdateChecker: one round of the update check\<close>

subsection \<open>Result codes of the platform\<close>

text \<open>
  An \<^verbatim>\<open>HRESULT\<close> is a 32-bit value read as signed: \<^verbatim>\<open>SUCCEEDED(hr)\<close> is \<^verbatim>\<open>hr >= 0\<close>.
  The constants carry the values of the platform headers (\<^verbatim>\<open>winerror.h\<close>, \<^verbatim>\<open>winhttp.h\<close>).
\<close>

type_synonym HRESULT = "32 word"
type_synonym USHORT = "16 word"

definition SUCCEEDED :: "HRESULT \<Rightarrow> bool" where
  "SUCCEEDED hr = (0 \<le> sint hr)"

definition FAILED :: "HRESULT \<Rightarrow> bool" where
  "FAILED hr = (sint hr < 0)"

definition S_OK :: HRESULT where
  "S_OK = 0"

definition E_FAIL :: HRESULT where
  "E_FAIL = 0x80004005"

definition FACILITY_WIN32 :: "32 word" where
  "FACILITY_WIN32 = 7"

definition HRESULT_FROM_WIN32 :: "32 word \<Rightarrow> HRESULT" where
  "HRESULT_FROM_WIN32 x =
     (if sint x \<le> 0 then x
      else (x AND 0x0000FFFF) OR push_bit 16 FACILITY_WIN32 OR 0x80000000)"

definition WINHTTP_ERROR_BASE :: "32 word" where
  "WINHTTP_ERROR_BASE = 12000"

definition ERROR_WINHTTP_INVALID_HEADER :: "32 word" where
  "ERROR_WINHTTP_INVALID_HEADER = WINHTTP_ERROR_BASE + 150"

text \<open>
  Exceptions derived from \<^verbatim>\<open>std::exception\<close>: the one that \<^verbatim>\<open>THROW_IF_FAILED\<close> raises
  for a failed \<^verbatim>\<open>HRESULT\<close>, and any other, told by its message. What a call throws is such
  an exception or a value of another type; a handler \<^verbatim>\<open>catch (const std::exception&)\<close>
  catches the first kind only.
\<close>

datatype std_exception = ResultException HRESULT | StdException string

datatype thrown = StdThrow std_exception | OtherThrow

definition THROW_IF_FAILED :: "HRESULT \<Rightarrow> std_exception + unit" where
  "THROW_IF_FAILED hr = (if FAILED hr then Inl (ResultException hr) else Inr ())"

subsection \<open>The HTTP exchange\<close>

text \<open>
  Modelled from the spec: \<^verbatim>\<open>CWinHTTPSimpleOptions\<close> and \<^verbatim>\<open>CWinHTTPSimple\<close> belong to the
  HTTP wrapper, whose source is not part of this development. The options name the URL,
  the user agent, the verb and the optional request data (a pointer, \<open>None\<close> when null, and a 32-bit size); options that set no verb
  and no data ask for a GET without a body. An exchange keeps its options, its mode, the
  headers added, the completion callback registered by \<^verbatim>\<open>SendRequest\<close>, whether
  \<^verbatim>\<open>Abort\<close> was called, and what the transport reported: the request result, the last
  HTTP status code and the response.
\<close>

record CWinHTTPSimpleOptions =
  sURL :: string
  sUserAgent :: string
  sVerb :: string
  lpOptional :: "string option"
  dwOptionalSize :: DWORD

definition CWinHTTPSimpleOptions_default :: CWinHTTPSimpleOptions where
  "CWinHTTPSimpleOptions_default =
     \<lparr>sURL = [], sUserAgent = [], sVerb = [], lpOptional = None, dwOptionalSize = 0\<rparr>"

definition request_verb :: "CWinHTTPSimpleOptions \<Rightarrow> string" where
  "request_verb opts = (if sVerb opts = [] then ''GET'' else sVerb opts)"

definition request_body :: "CWinHTTPSimpleOptions \<Rightarrow> string" where
  "request_body opts =
     (case lpOptional opts of None \<Rightarrow> [] | Some d \<Rightarrow> take (unat (dwOptionalSize opts)) d)"

datatype completion = CallOnRequestDone | CallOnUpdateCheckDone

record CWinHTTPSimple =
  options :: CWinHTTPSimpleOptions
  asyncMode :: bool
  headers :: "string list"
  onDone :: "completion option"
  abortCalled :: bool
  requestResult :: HRESULT
  lastStatusCode :: DWORD
  response :: string

definition CWinHTTPSimple_new :: "CWinHTTPSimpleOptions \<Rightarrow> bool \<Rightarrow> CWinHTTPSimple" where
  "CWinHTTPSimple_new opts async =
     \<lparr>options = opts, asyncMode = async, headers = [], onDone = None, abortCalled = False,
      requestResult = S_OK, lastStatusCode = 0, response = []\<rparr>"

definition CWinHTTPSimple_Abort :: "CWinHTTPSimple \<Rightarrow> CWinHTTPSimple" where
  "CWinHTTPSimple_Abort x = x\<lparr>abortCalled := True\<rparr>"

text \<open>What the transport reports when an exchange completes.\<close>

record reply =
  hrResult :: HRESULT
  statusCode :: DWORD
  content :: string

definition store_reply :: "reply \<Rightarrow> CWinHTTPSimple \<Rightarrow> CWinHTTPSimple" where
  "store_reply r x =
     x\<lparr>requestResult := hrResult r, lastStatusCode := statusCode r, response := content r\<rparr>"

text \<open>
  The outcomes of the calls into the exchange, which the caller does not choose: a
  synchronous \<^verbatim>\<open>SendRequest\<close> throws or completes with a reply, an asynchronous one throws
  or returns an \<^verbatim>\<open>HRESULT\<close>, and constructing the second exchange may throw.
\<close>

datatype sync_send = SyncThrew thrown | SyncDone reply
datatype async_send = AsyncThrew thrown | AsyncReturned HRESULT

record transport =
  addHeaders_hr :: HRESULT
  primary_sync :: sync_send
  primary_async :: async_send
  fallback_new :: "thrown option"
  fallback_sync :: sync_send
  fallback_async :: async_send

subsection \<open>Request options\<close>

text \<open>
  \<^verbatim>\<open>VER_FILE_VERSION_WSTR\<close> (\<^verbatim>\<open>version.h\<close>) and \<^verbatim>\<open>kFlagPortable\<close> (\<^verbatim>\<open>update_checker.h\<close>) are
  constants of the build, and \<^verbatim>\<open>GetNativeMachine()\<close> asks the operating system: the three
  are parameters here.
\<close>

record platform =
  VER_FILE_VERSION_WSTR :: string
  kFlagPortable :: DWORD
  nativeMachine :: USHORT

definition kUpdateCheckerUrl :: string where
  "kUpdateCheckerUrl = ''https://update.windhawk.net/versions.json''"

definition to_wstring :: "nat \<Rightarrow> string" where
  "to_wstring n = dec_digits n"

definition GetUpdateCheckerOptions ::
  "platform \<Rightarrow> DWORD \<Rightarrow> string option \<Rightarrow> nat \<Rightarrow> CWinHTTPSimpleOptions" where
  "GetUpdateCheckerOptions p flags postData postDataSize =
     (let opts = CWinHTTPSimpleOptions_default\<lparr>sURL := kUpdateCheckerUrl\<rparr>;
          opts = opts\<lparr>sUserAgent := ''Windhawk/'' @ VER_FILE_VERSION_WSTR p @ '' (''\<rparr>;
          opts = opts\<lparr>sUserAgent := sUserAgent opts @ to_wstring (unat (nativeMachine p))\<rparr>;
          opts = (if flags AND kFlagPortable p \<noteq> 0
                  then opts\<lparr>sUserAgent := sUserAgent opts @ ''; portable''\<rparr> else opts);
          opts = opts\<lparr>sUserAgent := sUserAgent opts @ '')''\<rparr>
      in if postData \<noteq> None \<and> postDataSize > 0
         then opts\<lparr>sVerb := ''POST'', lpOptional := postData,
                    dwOptionalSize := word_of_nat postDataSize\<rparr>
         else opts)"

subsection \<open>The checker\<close>

datatype which = Primary | Fallback

text \<open>
  What the checker does to the world, in order. A call of \<^verbatim>\<open>SendRequest\<close> is recorded with
  the exchange as it is at the moment of the call.
\<close>

datatype event =
    SendRequestCalled which CWinHTTPSimple
  | OnUpdateCheckDoneInvoked
  | LogGetRequestFailed std_exception
  | UpdateContentWithOnlineDataCalled string
  | LogHandlingFailed std_exception

text \<open>
  The members of the class; \<open>m_onUpdateCheckDone\<close> tells whether the callback is non-null.
  \<open>effects\<close> is not a member: it lists what the checker did so far.
\<close>

record UpdateChecker =
  m_flags :: DWORD
  m_postedData :: string
  m_httpSimple :: CWinHTTPSimple
  m_onUpdateCheckDone :: bool
  m_aborted :: bool
  m_httpSimpleGetRequest :: "CWinHTTPSimple option"
  effects :: "event list"

definition emit :: "event \<Rightarrow> UpdateChecker \<Rightarrow> UpdateChecker" where
  "emit e uc = uc\<lparr>effects := effects uc @ [e]\<rparr>"

text \<open>The exchanges on which \<^verbatim>\<open>SendRequest\<close> was called, as they were at the call.\<close>

fun sent :: "which \<Rightarrow> event list \<Rightarrow> CWinHTTPSimple list" where
  "sent w [] = []"
| "sent w (SendRequestCalled w' x # es) = (if w' = w then x # sent w es else sent w es)"
| "sent w (e # es) = sent w es"

text \<open>The exceptions that the handler of \<^verbatim>\<open>OnRequestDone\<close> logged.\<close>

fun get_request_failures :: "event list \<Rightarrow> std_exception list" where
  "get_request_failures [] = []"
| "get_request_failures (LogGetRequestFailed e # es) = e # get_request_failures es"
| "get_request_failures (e # es) = get_request_failures es"

definition fallback_issued :: "UpdateChecker \<Rightarrow> bool" where
  "fallback_issued uc = (sent Fallback (effects uc) \<noteq> [])"

definition callback_count :: "UpdateChecker \<Rightarrow> nat" where
  "callback_count uc = count_list (effects uc) OnUpdateCheckDoneInvoked"

definition ShouldRetryWithAGetRequest :: "UpdateChecker \<Rightarrow> bool" where
  "ShouldRetryWithAGetRequest uc =
     (requestResult (m_httpSimple uc) = HRESULT_FROM_WIN32 ERROR_WINHTTP_INVALID_HEADER
      \<and> lastStatusCode (m_httpSimple uc) = 405)"

text \<open>The member initialisers of the constructor.\<close>

definition UpdateChecker_init :: "platform \<Rightarrow> DWORD \<Rightarrow> bool \<Rightarrow> string \<Rightarrow> UpdateChecker" where
  "UpdateChecker_init p flags onUpdateCheckDone postedData =
     \<lparr>m_flags = flags,
      m_postedData = postedData,
      m_httpSimple =
        CWinHTTPSimple_new
          (GetUpdateCheckerOptions p flags (Some postedData) (length postedData))
          onUpdateCheckDone,
      m_onUpdateCheckDone = onUpdateCheckDone,
      m_aborted = False,
      m_httpSimpleGetRequest = None,
      effects = []\<rparr>"

text \<open>
  A constructor that throws leaves no object; what it threw is returned together with what
  it had done to the world by then.
\<close>

type_synonym construction = "(thrown \<times> event list) + UpdateChecker"

definition ctor_effects :: "construction \<Rightarrow> event list" where
  "ctor_effects r = (case r of Inl (x, evs) \<Rightarrow> evs | Inr uc \<Rightarrow> effects uc)"

text \<open>\<^verbatim>\<open>THROW_IF_FAILED(m_httpSimple.AddHeaders(L"Content-Type: application/json", ...))\<close>\<close>

definition add_content_type :: "transport \<Rightarrow> UpdateChecker \<Rightarrow> construction" where
  "add_content_type t uc =
     (case THROW_IF_FAILED (addHeaders_hr t) of
        Inl e \<Rightarrow> Inl (StdThrow e, effects uc)
      | Inr _ \<Rightarrow>
          Inr (uc\<lparr>m_httpSimple := (m_httpSimple uc)
                 \<lparr>headers := headers (m_httpSimple uc) @ [''Content-Type: application/json'']\<rparr>\<rparr>))"

text \<open>The synchronous branch of the constructor body.\<close>

definition send_sync :: "platform \<Rightarrow> transport \<Rightarrow> UpdateChecker \<Rightarrow> construction" where
  "send_sync p t uc =
     (let uc = emit (SendRequestCalled Primary (m_httpSimple uc)) uc in
      case primary_sync t of
        SyncThrew x \<Rightarrow> Inl (x, effects uc)
      | SyncDone r \<Rightarrow>
          (let uc = uc\<lparr>m_httpSimple := store_reply r (m_httpSimple uc)\<rparr> in
           if ShouldRetryWithAGetRequest uc then
             (case fallback_new t of
                Some x \<Rightarrow> Inl (x, effects uc)
              | None \<Rightarrow>
                  (let g = CWinHTTPSimple_new (GetUpdateCheckerOptions p (m_flags uc) None 0) False;
                       uc = uc\<lparr>m_httpSimpleGetRequest := Some g\<rparr>;
                       uc = emit (SendRequestCalled Fallback g) uc
                   in case fallback_sync t of
                        SyncThrew x \<Rightarrow> Inl (x, effects uc)
                      | SyncDone r' \<Rightarrow>
                          Inr (uc\<lparr>m_httpSimpleGetRequest := Some (store_reply r' g)\<rparr>)))
           else Inr uc))"

text \<open>The asynchronous branch: \<^verbatim>\<open>THROW_IF_FAILED(m_httpSimple.SendRequest([this] { OnRequestDone(); }))\<close>\<close>

definition send_async :: "transport \<Rightarrow> UpdateChecker \<Rightarrow> construction" where
  "send_async t uc =
     (let uc = emit (SendRequestCalled Primary (m_httpSimple uc)) uc in
      case primary_async t of
        AsyncThrew x \<Rightarrow> Inl (x, effects uc)
      | AsyncReturned hr \<Rightarrow>
          (case THROW_IF_FAILED hr of
             Inl e \<Rightarrow> Inl (StdThrow e, effects uc)
           | Inr _ \<Rightarrow> Inr (uc\<lparr>m_httpSimple := (m_httpSimple uc)\<lparr>onDone := Some CallOnRequestDone\<rparr>\<rparr>)))"

text \<open>
  The constructor. \<open>postedData\<close> is what \<^verbatim>\<open>UserProfile::GetLocalUpdatedContentAsString()\<close>
  returned; \<open>onUpdateCheckDone\<close> tells whether a callback was given.
\<close>

definition UpdateChecker_ctor ::
  "platform \<Rightarrow> transport \<Rightarrow> DWORD \<Rightarrow> bool \<Rightarrow> string \<Rightarrow> construction" where
  "UpdateChecker_ctor p t flags onUpdateCheckDone postedData =
     (let uc = UpdateChecker_init p flags onUpdateCheckDone postedData in
      case (if m_postedData uc \<noteq> [] then add_content_type t uc else Inr uc) of
        Inl x \<Rightarrow> Inl x
      | Inr uc \<Rightarrow> if m_onUpdateCheckDone uc then send_async t uc else send_sync p t uc)"

text \<open>
  \<^verbatim>\<open>Abort\<close>, run without interference. What \<^verbatim>\<open>Abort\<close> does to an exchange is a parameter
  of \<open>Abort_with\<close>.
\<close>

definition Abort_with ::
  "(CWinHTTPSimple \<Rightarrow> CWinHTTPSimple) \<Rightarrow> UpdateChecker \<Rightarrow> UpdateChecker" where
  "Abort_with exchange_abort uc =
     (let uc = uc\<lparr>m_aborted := True\<rparr>;
          uc = uc\<lparr>m_httpSimple := exchange_abort (m_httpSimple uc)\<rparr>
      in case m_httpSimpleGetRequest uc of
           None \<Rightarrow> uc
         | Some g \<Rightarrow> uc\<lparr>m_httpSimpleGetRequest := Some (exchange_abort g)\<rparr>)"

definition Abort :: "UpdateChecker \<Rightarrow> UpdateChecker" where
  "Abort uc = Abort_with CWinHTTPSimple_Abort uc"

text \<open>
  \<^verbatim>\<open>Result\<close>; \<^verbatim>\<open>Result result = {}\<close> leaves \<open>updateStatus\<close> value-initialised, which is
  \<open>None\<close> here. \<^verbatim>\<open>UserProfile::UpdateContentWithOnlineData\<close> is a parameter: given the
  response it returns a status or throws. The handler of \<^verbatim>\<open>HandleResponse\<close> is
  \<^verbatim>\<open>catch (const std::exception& e)\<close>: a throw of another type leaves the function.
\<close>

record 'u Result =
  hrError :: HRESULT
  httpStatusCode :: DWORD
  updateStatus :: "'u option"

definition HandleResponse ::
  "(string \<Rightarrow> thrown + 'u) \<Rightarrow> UpdateChecker \<Rightarrow> thrown + ('u Result \<times> event list)" where
  "HandleResponse UpdateContentWithOnlineData uc =
     (let httpSimple = (case m_httpSimpleGetRequest uc of Some g \<Rightarrow> g | None \<Rightarrow> m_httpSimple uc);
          result = \<lparr>hrError = requestResult httpSimple,
                    httpStatusCode = lastStatusCode httpSimple,
                    updateStatus = None\<rparr>
      in if SUCCEEDED (hrError result) then
           (case UpdateContentWithOnlineData (response httpSimple) of
              Inr status \<Rightarrow>
                Inr (result\<lparr>updateStatus := Some status\<rparr>,
                     [UpdateContentWithOnlineDataCalled (response httpSimple)])
            | Inl (StdThrow e) \<Rightarrow>
                Inr (result\<lparr>hrError := E_FAIL\<rparr>,
                     [UpdateContentWithOnlineDataCalled (response httpSimple),
                      LogHandlingFailed e])
            | Inl OtherThrow \<Rightarrow> Inl OtherThrow)
         else Inr (result, []))"

text \<open>The \<^verbatim>\<open>catch\<close> block of \<^verbatim>\<open>OnRequestDone\<close>: reset, log, run the callback.\<close>

definition catch_get_request :: "std_exception \<Rightarrow> UpdateChecker \<Rightarrow> UpdateChecker" where
  "catch_get_request e uc =
     emit OnUpdateCheckDoneInvoked
       (emit (LogGetRequestFailed e) (uc\<lparr>m_httpSimpleGetRequest := None\<rparr>))"

text \<open>A platform, a transport on which every call succeeds, and replies, for examples.\<close>

definition example_platform :: platform where
  "example_platform =
     \<lparr>VER_FILE_VERSION_WSTR = ''1.5.1'', kFlagPortable = 1, nativeMachine = 0x8664\<rparr>"

definition reply_200 :: reply where
  "reply_200 = \<lparr>hrResult = S_OK, statusCode = 200, content = ''{}''\<rparr>"

definition reply_405 :: reply where
  "reply_405 =
     \<lparr>hrResult = HRESULT_FROM_WIN32 ERROR_WINHTTP_INVALID_HEADER, statusCode = 405, content = []\<rparr>"

definition reply_timeout :: reply where
  "reply_timeout = \<lparr>hrResult = 0x80072EE2, statusCode = 0, content = []\<rparr>"

definition reply_garbled :: reply where
  "reply_garbled = \<lparr>hrResult = S_OK, statusCode = 200, content = ''<html>''\<rparr>"

definition example_transport :: "reply \<Rightarrow> transport" where
  "example_transport r =
     \<lparr>addHeaders_hr = S_OK, primary_sync = SyncDone r, primary_async = AsyncReturned S_OK,
      fallback_new = None, fallback_sync = SyncDone reply_200,
      fallback_async = AsyncReturned S_OK\<rparr>"

text \<open>
  Stand-ins for \<^verbatim>\<open>UserProfile::UpdateContentWithOnlineData\<close>, for examples: one that
  throws a \<^verbatim>\<open>std::exception\<close> on anything but an empty object, and one that throws a value
  of another type.
\<close>

definition example_parse :: "string \<Rightarrow> thrown + nat" where
  "example_parse body =
     (if body = ''{}'' then Inr 1 else Inl (StdThrow (StdException ''parse error'')))"

definition foreign_parse :: "string \<Rightarrow> thrown + nat" where
  "foreign_parse body = Inl OtherThrow"

subsection \<open>Abort and the completion handler running at the same time\<close>

text \<open>
  \<^verbatim>\<open>Abort\<close> runs on the caller's thread and \<^verbatim>\<open>OnRequestDone\<close> on the transport's. The two
  are interleaved statement by statement: each thread has a program counter that names
  the statement it executes next, and \<^verbatim>\<open>m_httpSimpleGetRequestMutex\<close> is free or held by
  one of them. \<^verbatim>\<open>m_aborted\<close> is read and written in one step each.
\<close>

datatype thread = AbortThread | CompletionThread

datatype abort_pc =
    AbortIdle       \<comment> \<open>outside \<^verbatim>\<open>Abort\<close>; a call starts with \<^verbatim>\<open>m_aborted = true\<close>\<close>
  | AbortPrimary    \<comment> \<open>\<^verbatim>\<open>m_httpSimple.Abort()\<close>\<close>
  | AbortLock       \<comment> \<open>the \<^verbatim>\<open>lock_guard\<close> waits for the mutex\<close>
  | AbortFallback   \<comment> \<open>\<^verbatim>\<open>if (m_httpSimpleGetRequest) m_httpSimpleGetRequest->Abort()\<close>\<close>
  | AbortUnlock     \<comment> \<open>the guard releases the mutex and the call returns\<close>

datatype done_pc =
    DoneWaiting     \<comment> \<open>the handler has not been called\<close>
  | DoneCheck       \<comment> \<open>\<^verbatim>\<open>if (ShouldRetryWithAGetRequest() && !m_aborted)\<close>\<close>
  | DoneLock        \<comment> \<open>the \<^verbatim>\<open>lock_guard\<close> waits for the mutex\<close>
  | DoneRecheck     \<comment> \<open>\<^verbatim>\<open>if (!m_aborted)\<close>\<close>
  | DoneNew         \<comment> \<open>\<^verbatim>\<open>m_httpSimpleGetRequest = std::make_unique<CWinHTTPSimple>(...)\<close>\<close>
  | DoneSend        \<comment> \<open>\<^verbatim>\<open>THROW_IF_FAILED(m_httpSimpleGetRequest->SendRequest(...))\<close>\<close>
  | DoneCatch std_exception  \<comment> \<open>the \<^verbatim>\<open>catch (const std::exception& e)\<close> block\<close>
  | DonePropagate            \<comment> \<open>a throw that the block does not catch unwinds: the guard releases the mutex\<close>
  | DoneUnlockReturn         \<comment> \<open>\<^verbatim>\<open>return\<close>: the guard releases the mutex\<close>
  | DoneUnlockCallback       \<comment> \<open>the guard releases the mutex at the end of the outer block\<close>
  | DoneCallback    \<comment> \<open>the last statement, \<^verbatim>\<open>m_onUpdateCheckDone()\<close>\<close>
  | DoneFinished    \<comment> \<open>the handler has returned\<close>
  | DoneThrown      \<comment> \<open>the handler was left by the throw\<close>

text \<open>
  Besides the checker, the mutex and the two program counters, the state keeps a record of
  what happened, none of it a member: \<open>created\<close> counts the second exchanges constructed so
  far, \<open>abort_returns\<close> the calls of \<^verbatim>\<open>Abort\<close> that have returned, \<open>flag_at_check\<close> and
  \<open>flag_at_recheck\<close> hold the value of \<^verbatim>\<open>m_aborted\<close> that the handler read at its first
  check and at its re-check under the mutex (\<open>None\<close> while it has not read it there), and
  \<open>fallback_done\<close> tells whether the second exchange has completed.
\<close>

record sys =
  checker :: UpdateChecker
  mutex :: "thread option"
  apc :: abort_pc
  dpc :: done_pc
  created :: nat
  abort_returns :: nat
  flag_at_check :: "bool option"
  flag_at_recheck :: "bool option"
  fallback_done :: bool

definition init_sys :: "UpdateChecker \<Rightarrow> sys" where
  "init_sys uc =
     \<lparr>checker = uc, mutex = None, apc = AbortIdle, dpc = DoneWaiting,
      created = (case m_httpSimpleGetRequest uc of None \<Rightarrow> 0 | Some g \<Rightarrow> 1),
      abort_returns = 0, flag_at_check = None, flag_at_recheck = None,
      fallback_done = False\<rparr>"

datatype action = AbortStep | PrimaryCompletes reply | DoneStep | FallbackCompletes reply

text \<open>One statement of \<^verbatim>\<open>Abort\<close>; \<open>None\<close> when the thread has to wait.\<close>

definition step_abort :: "sys \<Rightarrow> sys option" where
  "step_abort s =
     (case apc s of
        AbortIdle \<Rightarrow> Some (s\<lparr>checker := (checker s)\<lparr>m_aborted := True\<rparr>, apc := AbortPrimary\<rparr>)
      | AbortPrimary \<Rightarrow>
          Some (s\<lparr>checker := (checker s)
                      \<lparr>m_httpSimple := CWinHTTPSimple_Abort (m_httpSimple (checker s))\<rparr>,
                  apc := AbortLock\<rparr>)
      | AbortLock \<Rightarrow>
          if mutex s = None then Some (s\<lparr>mutex := Some AbortThread, apc := AbortFallback\<rparr>)
          else None
      | AbortFallback \<Rightarrow>
          Some (s\<lparr>checker :=
                    (case m_httpSimpleGetRequest (checker s) of
                       None \<Rightarrow> checker s
                     | Some g \<Rightarrow>
                         (checker s)\<lparr>m_httpSimpleGetRequest := Some (CWinHTTPSimple_Abort g)\<rparr>),
                  apc := AbortUnlock\<rparr>)
      | AbortUnlock \<Rightarrow>
          Some (s\<lparr>mutex := None, apc := AbortIdle, abort_returns := abort_returns s + 1\<rparr>))"

text \<open>
  One statement of \<^verbatim>\<open>OnRequestDone\<close>; \<open>None\<close> when the thread has to wait or is not in the
  handler. The first condition reads \<^verbatim>\<open>m_aborted\<close> only when the retry is due (\<^verbatim>\<open>&&\<close>). A
  throw in the \<^verbatim>\<open>try\<close> block goes to the \<^verbatim>\<open>catch\<close> block when it is a \<^verbatim>\<open>std::exception\<close>
  and leaves the handler otherwise; \<^verbatim>\<open>make_unique\<close> assigns the member only when the
  constructor returns. The calls that may throw are the two into the transport, the
  construction of the second exchange with its options and \<^verbatim>\<open>SendRequest\<close>; taking the
  mutex, logging and the callback return.
\<close>

definition step_done :: "platform \<Rightarrow> transport \<Rightarrow> sys \<Rightarrow> sys option" where
  "step_done p t s =
     (case dpc s of
        DoneWaiting \<Rightarrow> None
      | DoneCheck \<Rightarrow>
          if ShouldRetryWithAGetRequest (checker s)
          then Some (s\<lparr>flag_at_check := Some (m_aborted (checker s)),
                       dpc := (if \<not> m_aborted (checker s) then DoneLock else DoneCallback)\<rparr>)
          else Some (s\<lparr>dpc := DoneCallback\<rparr>)
      | DoneLock \<Rightarrow>
          if mutex s = None then Some (s\<lparr>mutex := Some CompletionThread, dpc := DoneRecheck\<rparr>)
          else None
      | DoneRecheck \<Rightarrow>
          Some (s\<lparr>flag_at_recheck := Some (m_aborted (checker s)),
                  dpc := (if \<not> m_aborted (checker s) then DoneNew else DoneUnlockCallback)\<rparr>)
      | DoneNew \<Rightarrow>
          (case fallback_new t of
             Some (StdThrow e) \<Rightarrow> Some (s\<lparr>dpc := DoneCatch e\<rparr>)
           | Some OtherThrow \<Rightarrow> Some (s\<lparr>dpc := DonePropagate\<rparr>)
           | None \<Rightarrow>
               Some (s\<lparr>checker := (checker s)
                          \<lparr>m_httpSimpleGetRequest :=
                             Some (CWinHTTPSimple_new
                                     (GetUpdateCheckerOptions p (m_flags (checker s)) None 0)
                                     True)\<rparr>,
                       created := created s + 1,
                       dpc := DoneSend\<rparr>))
      | DoneSend \<Rightarrow>
          (case m_httpSimpleGetRequest (checker s) of
             None \<Rightarrow> None
           | Some g \<Rightarrow>
               (let c = emit (SendRequestCalled Fallback g) (checker s) in
                case fallback_async t of
                  AsyncThrew (StdThrow e) \<Rightarrow> Some (s\<lparr>checker := c, dpc := DoneCatch e\<rparr>)
                | AsyncThrew OtherThrow \<Rightarrow> Some (s\<lparr>checker := c, dpc := DonePropagate\<rparr>)
                | AsyncReturned hr \<Rightarrow>
                    (case THROW_IF_FAILED hr of
                       Inl e \<Rightarrow> Some (s\<lparr>checker := c, dpc := DoneCatch e\<rparr>)
                     | Inr _ \<Rightarrow>
                         Some (s\<lparr>checker := c
                                    \<lparr>m_httpSimpleGetRequest :=
                                       Some (g\<lparr>onDone := Some CallOnUpdateCheckDone\<rparr>)\<rparr>,
                                 dpc := DoneUnlockReturn\<rparr>))))
      | DoneCatch e \<Rightarrow>
          Some (s\<lparr>checker := catch_get_request e (checker s), dpc := DoneUnlockReturn\<rparr>)
      | DonePropagate \<Rightarrow> Some (s\<lparr>mutex := None, dpc := DoneThrown\<rparr>)
      | DoneUnlockReturn \<Rightarrow> Some (s\<lparr>mutex := None, dpc := DoneFinished\<rparr>)
      | DoneUnlockCallback \<Rightarrow> Some (s\<lparr>mutex := None, dpc := DoneCallback\<rparr>)
      | DoneCallback \<Rightarrow>
          Some (s\<lparr>checker := emit OnUpdateCheckDoneInvoked (checker s), dpc := DoneFinished\<rparr>)
      | DoneFinished \<Rightarrow> None
      | DoneThrown \<Rightarrow> None)"

text \<open>
  Modelled from the spec: when an exchange completes, the transport stores what it got and
  runs the completion callback that \<^verbatim>\<open>SendRequest\<close> registered, once, on a thread of its
  own. For the primary exchange of an asynchronous check that is \<^verbatim>\<open>OnRequestDone\<close>, for the
  second exchange \<^verbatim>\<open>m_onUpdateCheckDone\<close>; an exchange with no callback registered completed
  inside \<^verbatim>\<open>SendRequest\<close>.
\<close>

definition registered :: "UpdateChecker \<Rightarrow> bool" where
  "registered c =
     (case m_httpSimpleGetRequest c of
        None \<Rightarrow> False
      | Some g \<Rightarrow> onDone g = Some CallOnUpdateCheckDone)"

definition step :: "platform \<Rightarrow> transport \<Rightarrow> action \<Rightarrow> sys \<Rightarrow> sys option" where
  "step p t a s =
     (case a of
        AbortStep \<Rightarrow> step_abort s
      | DoneStep \<Rightarrow> step_done p t s
      | PrimaryCompletes r \<Rightarrow>
          if dpc s = DoneWaiting \<and> onDone (m_httpSimple (checker s)) = Some CallOnRequestDone
          then Some (s\<lparr>checker := (checker s)
                          \<lparr>m_httpSimple := store_reply r (m_httpSimple (checker s))\<rparr>,
                       dpc := DoneCheck\<rparr>)
          else None
      | FallbackCompletes r \<Rightarrow>
          if registered (checker s) \<and> \<not> fallback_done s
          then Some (s\<lparr>checker :=
                          emit OnUpdateCheckDoneInvoked
                            ((checker s)\<lparr>m_httpSimpleGetRequest :=
                               map_option (store_reply r) (m_httpSimpleGetRequest (checker s))\<rparr>),
                       fallback_done := True\<rparr>)
          else None)"

fun run :: "platform \<Rightarrow> transport \<Rightarrow> action list \<Rightarrow> sys \<Rightarrow> sys option" where
  "run p t [] s = Some s"
| "run p t (a # as) s = (case step p t a s of None \<Rightarrow> None | Some s' \<Rightarrow> run p t as s')"

text \<open>
  The states that the threads can reach from a checker as its constructor leaves it, in
  either mode.
\<close>

inductive reachable :: "platform \<Rightarrow> transport \<Rightarrow> sys \<Rightarrow> bool" for p t where
  reachable_init:
    "UpdateChecker_ctor p t flags onUpdateCheckDone postedData = Inr uc \<Longrightarrow>
     reachable p t (init_sys uc)"
| reachable_step:
    "reachable p t s \<Longrightarrow> step p t a s = Some s' \<Longrightarrow> reachable p t s'"

text \<open>The statements of the handler that run with the mutex held, and those after the re-check.\<close>

fun holds_mutex :: "done_pc \<Rightarrow> bool" where
  "holds_mutex DoneRecheck = True"
| "holds_mutex DoneNew = True"
| "holds_mutex DoneSend = True"
| "holds_mutex (DoneCatch e) = True"
| "holds_mutex DonePropagate = True"
| "holds_mutex DoneUnlockReturn = True"
| "holds_mutex DoneUnlockCallback = True"
| "holds_mutex _ = False"

fun past_recheck :: "done_pc \<Rightarrow> bool" where
  "past_recheck DoneNew = True"
| "past_recheck DoneSend = True"
| "past_recheck (DoneCatch e) = True"
| "past_recheck DonePropagate = True"
| "past_recheck DoneUnlockReturn = True"
| "past_recheck _ = False"

definition sys_inv :: "sys \<Rightarrow> bool" where
  "sys_inv s =
     ((holds_mutex (dpc s) = (mutex s = Some CompletionThread))
    \<and> ((apc s = AbortFallback \<or> apc s = AbortUnlock) = (mutex s = Some AbortThread))
    \<and> (apc s \<noteq> AbortIdle \<or> 0 < abort_returns s \<longrightarrow> m_aborted (checker s))
    \<and> (apc s = AbortLock \<or> apc s = AbortFallback \<or> apc s = AbortUnlock \<or> 0 < abort_returns s
          \<longrightarrow> abortCalled (m_httpSimple (checker s)))
    \<and> (apc s = AbortUnlock \<or> 0 < abort_returns s
          \<longrightarrow> (case m_httpSimpleGetRequest (checker s) of None \<Rightarrow> True | Some g \<Rightarrow> abortCalled g))
    \<and> (0 < abort_returns s \<longrightarrow> \<not> past_recheck (dpc s)))"

subsection \<open>What holds at each statement of the handler\<close>

text \<open>
  What the \<^verbatim>\<open>try\<close> block of the handler comes to, which the transport decides: the second
  request is sent, or a \<^verbatim>\<open>std::exception\<close> reaches the \<^verbatim>\<open>catch\<close> block, or a throw of
  another type leaves the handler.
\<close>

datatype attempt = Sent | Caught std_exception | Escaped

definition fallback_attempt :: "transport \<Rightarrow> attempt" where
  "fallback_attempt t =
     (case fallback_new t of
        Some (StdThrow e) \<Rightarrow> Caught e
      | Some OtherThrow \<Rightarrow> Escaped
      | None \<Rightarrow>
          (case fallback_async t of
             AsyncThrew (StdThrow e) \<Rightarrow> Caught e
           | AsyncThrew OtherThrow \<Rightarrow> Escaped
           | AsyncReturned hr \<Rightarrow> if FAILED hr then Caught (ResultException hr) else Sent))"

text \<open>
  An exchange with the options that \<^verbatim>\<open>GetUpdateCheckerOptions(flags, nullptr, 0)\<close> returns
  and no header added.
\<close>

definition get_exchange :: "platform \<Rightarrow> DWORD \<Rightarrow> CWinHTTPSimple \<Rightarrow> bool" where
  "get_exchange p flags x =
     (options x = GetUpdateCheckerOptions p flags None 0 \<and> headers x = [])"

definition reads :: "sys \<Rightarrow> bool option \<Rightarrow> bool option \<Rightarrow> bool" where
  "reads s a b = (flag_at_check s = a \<and> flag_at_recheck s = b)"

text \<open>Nothing of the retry has happened, and the callback has not run.\<close>

definition untouched :: "sys \<Rightarrow> bool" where
  "untouched s =
     (m_httpSimpleGetRequest (checker s) = None
    \<and> callback_count (checker s) = 0
    \<and> sent Fallback (effects (checker s)) = []
    \<and> get_request_failures (effects (checker s)) = []
    \<and> \<not> fallback_done s)"

text \<open>The handler is inside the \<^verbatim>\<open>try\<close> block or at its handler.\<close>

definition in_try :: "sys \<Rightarrow> bool" where
  "in_try s =
     (ShouldRetryWithAGetRequest (checker s)
    \<and> reads s (Some False) (Some False)
    \<and> callback_count (checker s) = 0
    \<and> get_request_failures (effects (checker s)) = []
    \<and> \<not> registered (checker s)
    \<and> \<not> fallback_done s)"

text \<open>The ways in which the handler comes to its last statement.\<close>

definition declined :: "sys \<Rightarrow> bool" where
  "declined s =
     ((\<not> ShouldRetryWithAGetRequest (checker s) \<and> reads s None None)
    \<or> (ShouldRetryWithAGetRequest (checker s) \<and> reads s (Some True) None)
    \<or> (ShouldRetryWithAGetRequest (checker s) \<and> reads s (Some False) (Some True)))"

text \<open>The handler has left the \<^verbatim>\<open>try\<close> block by its end or through the \<^verbatim>\<open>catch\<close> block.\<close>

definition attempted :: "transport \<Rightarrow> sys \<Rightarrow> bool" where
  "attempted t s =
     (ShouldRetryWithAGetRequest (checker s)
    \<and> reads s (Some False) (Some False)
    \<and> (case fallback_attempt t of
         Caught e \<Rightarrow>
           m_httpSimpleGetRequest (checker s) = None
         \<and> get_request_failures (effects (checker s)) = [e]
         \<and> callback_count (checker s) = 1
         \<and> \<not> fallback_done s
         \<and> (sent Fallback (effects (checker s)) = []) = (fallback_new t \<noteq> None)
       | Sent \<Rightarrow>
           registered (checker s)
         \<and> get_request_failures (effects (checker s)) = []
         \<and> callback_count (checker s) = (if fallback_done s then 1 else 0)
         \<and> sent Fallback (effects (checker s)) \<noteq> []
       | Escaped \<Rightarrow> False))"

fun pc_inv :: "platform \<Rightarrow> transport \<Rightarrow> sys \<Rightarrow> done_pc \<Rightarrow> bool" where
  "pc_inv p t s DoneWaiting = (untouched s \<and> reads s None None)"
| "pc_inv p t s DoneCheck = (untouched s \<and> reads s None None)"
| "pc_inv p t s DoneLock =
     (untouched s \<and> ShouldRetryWithAGetRequest (checker s) \<and> reads s (Some False) None)"
| "pc_inv p t s DoneRecheck =
     (untouched s \<and> ShouldRetryWithAGetRequest (checker s) \<and> reads s (Some False) None)"
| "pc_inv p t s DoneNew =
     (untouched s \<and> ShouldRetryWithAGetRequest (checker s)
      \<and> reads s (Some False) (Some False))"
| "pc_inv p t s DoneSend =
     (in_try s \<and> fallback_new t = None \<and> sent Fallback (effects (checker s)) = []
      \<and> (case m_httpSimpleGetRequest (checker s) of
           None \<Rightarrow> False
         | Some g \<Rightarrow> get_exchange p (m_flags (checker s)) g))"
| "pc_inv p t s (DoneCatch e) =
     (in_try s \<and> fallback_attempt t = Caught e
      \<and> (sent Fallback (effects (checker s)) = []) = (fallback_new t \<noteq> None))"
| "pc_inv p t s DonePropagate =
     (in_try s \<and> fallback_attempt t = Escaped
      \<and> (sent Fallback (effects (checker s)) = []) = (fallback_new t \<noteq> None)
      \<and> (m_httpSimpleGetRequest (checker s) = None) = (fallback_new t \<noteq> None))"
| "pc_inv p t s DoneThrown =
     (in_try s \<and> fallback_attempt t = Escaped
      \<and> (sent Fallback (effects (checker s)) = []) = (fallback_new t \<noteq> None)
      \<and> (m_httpSimpleGetRequest (checker s) = None) = (fallback_new t \<noteq> None))"
| "pc_inv p t s DoneUnlockReturn = attempted t s"
| "pc_inv p t s DoneUnlockCallback =
     (untouched s \<and> ShouldRetryWithAGetRequest (checker s)
      \<and> reads s (Some False) (Some True))"
| "pc_inv p t s DoneCallback = (untouched s \<and> declined s)"
| "pc_inv p t s DoneFinished =
     (if flag_at_recheck s = Some False then attempted t s
      else m_httpSimpleGetRequest (checker s) = None
         \<and> callback_count (checker s) = 1
         \<and> sent Fallback (effects (checker s)) = []
         \<and> get_request_failures (effects (checker s)) = []
         \<and> \<not> fallback_done s
         \<and> declined s)"

text \<open>
  In the asynchronous mode the handler is registered and the statement it is at tells what
  has happened; in the synchronous mode no handler is registered and it never runs. In
  both, at most one second request was sent, as a GET exchange.
\<close>

definition handler_inv :: "platform \<Rightarrow> transport \<Rightarrow> sys \<Rightarrow> bool" where
  "handler_inv p t s =
     (list_all (get_exchange p (m_flags (checker s))) (sent Fallback (effects (checker s)))
    \<and> length (sent Fallback (effects (checker s))) \<le> 1
    \<and> (if m_onUpdateCheckDone (checker s)
       then onDone (m_httpSimple (checker s)) = Some CallOnRequestDone
          \<and> pc_inv p t s (dpc s)
       else onDone (m_httpSimple (checker s)) = None
          \<and> dpc s = DoneWaiting
          \<and> \<not> registered (checker s)
          \<and> callback_count (checker s) = 0
          \<and> \<not> fallback_done s
          \<and> reads s None None))"

section \<open>SessionPrivateNamespace: creating and opening the namespace\<close>

subsection \<open>The operating system's objects\<close>

text \<open>
  A SID is an identifier authority and its sub-authorities. The authorities and RIDs carry
  the values of \<^verbatim>\<open>winnt.h\<close>: the world SID is S-1-1-0 and the medium mandatory label is
  S-1-16-8192.
\<close>

type_synonym SID_IDENTIFIER_AUTHORITY = "8 word list"

record SID =
  identifierAuthority :: SID_IDENTIFIER_AUTHORITY
  subAuthority :: "DWORD list"

definition SECURITY_WORLD_SID_AUTHORITY :: SID_IDENTIFIER_AUTHORITY where
  "SECURITY_WORLD_SID_AUTHORITY = [0, 0, 0, 0, 0, 1]"

definition SECURITY_WORLD_RID :: DWORD where
  "SECURITY_WORLD_RID = 0"

definition SECURITY_MANDATORY_LABEL_AUTHORITY :: SID_IDENTIFIER_AUTHORITY where
  "SECURITY_MANDATORY_LABEL_AUTHORITY = [0, 0, 0, 0, 0, 16]"

definition SECURITY_MANDATORY_MEDIUM_RID :: DWORD where
  "SECURITY_MANDATORY_MEDIUM_RID = 0x2000"

definition world_sid :: SID where
  "world_sid = \<lparr>identifierAuthority = [0, 0, 0, 0, 0, 1], subAuthority = [0]\<rparr>"

definition medium_label_sid :: SID where
  "medium_label_sid = \<lparr>identifierAuthority = [0, 0, 0, 0, 0, 16], subAuthority = [8192]\<rparr>"

record boundary_descriptor =
  bd_name :: string
  bd_flags :: DWORD
  bd_sids :: "SID list"
  bd_labels :: "SID list"

text \<open>
  Modelled from the spec: \<^verbatim>\<open>Functions::GetFullAccessSecurityDescriptor\<close> is defined in
  \<^verbatim>\<open>functions.cpp\<close>, which is not part of this development; it builds a security
  descriptor granting full access to all principals, or fails.
\<close>

datatype security_descriptor = FullAccessSecurityDescriptor

record SECURITY_ATTRIBUTES =
  lpSecurityDescriptor :: security_descriptor
  bInheritHandle :: bool

text \<open>
  The handle that \<^verbatim>\<open>Create\<close> and \<^verbatim>\<open>Open\<close> return: the namespace it refers to, named by its
  boundary, the alias given, and whether releasing the handle destroys the namespace
  (\<^verbatim>\<open>unique_private_namespace_destroy\<close>) or only closes it.
\<close>

record namespace_handle =
  h_boundary :: boundary_descriptor
  h_alias :: string
  h_destroy :: bool

datatype os_call =
    CallCreateBoundaryDescriptor string DWORD
  | CallAllocateAndInitializeSid SID_IDENTIFIER_AUTHORITY nat "DWORD list"
  | CallAddSIDToBoundaryDescriptor boundary_descriptor SID
  | CallAddIntegrityLabelToBoundaryDescriptor boundary_descriptor SID
  | CallGetFullAccessSecurityDescriptor
  | CallCreatePrivateNamespace SECURITY_ATTRIBUTES boundary_descriptor string
  | CallOpenPrivateNamespace boundary_descriptor string

text \<open>
  The state of the operating system as far as these functions touch it: the private
  namespaces that exist, each identified by its boundary; the number of boundary
  descriptors, SIDs and local allocations that are live; and the calls made so far.
\<close>

record os =
  namespaces :: "boundary_descriptor list"
  live :: nat
  calls :: "os_call list"

text \<open>
  What the caller does not choose: \<open>forced_failure\<close> tells which calls the system lets
  fail for reasons of its own (no memory, access denied), and \<open>last_error\<close> the code that
  \<^verbatim>\<open>GetLastError()\<close> gives after a failed call.
\<close>

record os_behaviour =
  forced_failure :: "os_call \<Rightarrow> bool"
  last_error :: "os_call \<Rightarrow> DWORD"

definition log_call :: "os_call \<Rightarrow> os \<Rightarrow> os" where
  "log_call c s = s\<lparr>calls := calls s @ [c]\<rparr>"

definition release :: "os \<Rightarrow> os" where
  "release s = s\<lparr>live := live s - 1\<rparr>"

text \<open>
  \<^verbatim>\<open>THROW_LAST_ERROR_IF_NULL\<close> and \<^verbatim>\<open>THROW_IF_WIN32_BOOL_FALSE\<close> throw the last error as a
  \<^verbatim>\<open>ResultException\<close>.
\<close>

definition last_error_exception :: "os_behaviour \<Rightarrow> os_call \<Rightarrow> std_exception" where
  "last_error_exception orc c = ResultException (HRESULT_FROM_WIN32 (last_error orc c))"

subsection \<open>The system calls\<close>

text \<open>
  Each call is logged. A call that succeeds and allocates makes one more object live.
  \<^verbatim>\<open>CreatePrivateNamespace\<close> fails when a namespace with that boundary exists and
  \<^verbatim>\<open>OpenPrivateNamespace\<close> fails when none does; a call that fails changes nothing else.
\<close>

definition CreateBoundaryDescriptor ::
  "os_behaviour \<Rightarrow> string \<Rightarrow> DWORD \<Rightarrow> os \<Rightarrow> boundary_descriptor option \<times> os" where
  "CreateBoundaryDescriptor orc name flags s =
     (let c = CallCreateBoundaryDescriptor name flags; s = log_call c s in
      if forced_failure orc c then (None, s)
      else (Some \<lparr>bd_name = name, bd_flags = flags, bd_sids = [], bd_labels = []\<rparr>,
            s\<lparr>live := live s + 1\<rparr>))"

definition AllocateAndInitializeSid ::
  "os_behaviour \<Rightarrow> SID_IDENTIFIER_AUTHORITY \<Rightarrow> nat \<Rightarrow> DWORD list \<Rightarrow> os \<Rightarrow> SID option \<times> os" where
  "AllocateAndInitializeSid orc authority nSubAuthorityCount subAuthorities s =
     (let c = CallAllocateAndInitializeSid authority nSubAuthorityCount subAuthorities;
          s = log_call c s in
      if forced_failure orc c then (None, s)
      else (Some \<lparr>identifierAuthority = authority,
                   subAuthority = take nSubAuthorityCount subAuthorities\<rparr>,
            s\<lparr>live := live s + 1\<rparr>))"

definition AddSIDToBoundaryDescriptor ::
  "os_behaviour \<Rightarrow> boundary_descriptor \<Rightarrow> SID \<Rightarrow> os \<Rightarrow> boundary_descriptor option \<times> os" where
  "AddSIDToBoundaryDescriptor orc b sid s =
     (let c = CallAddSIDToBoundaryDescriptor b sid; s = log_call c s in
      if forced_failure orc c then (None, s)
      else (Some (b\<lparr>bd_sids := bd_sids b @ [sid]\<rparr>), s))"

definition AddIntegrityLabelToBoundaryDescriptor ::
  "os_behaviour \<Rightarrow> boundary_descriptor \<Rightarrow> SID \<Rightarrow> os \<Rightarrow> boundary_descriptor option \<times> os" where
  "AddIntegrityLabelToBoundaryDescriptor orc b sid s =
     (let c = CallAddIntegrityLabelToBoundaryDescriptor b sid; s = log_call c s in
      if forced_failure orc c then (None, s)
      else (Some (b\<lparr>bd_labels := bd_labels b @ [sid]\<rparr>), s))"

definition GetFullAccessSecurityDescriptor ::
  "os_behaviour \<Rightarrow> os \<Rightarrow> security_descriptor option \<times> os" where
  "GetFullAccessSecurityDescriptor orc s =
     (let c = CallGetFullAccessSecurityDescriptor; s = log_call c s in
      if forced_failure orc c then (None, s)
      else (Some FullAccessSecurityDescriptor, s\<lparr>live := live s + 1\<rparr>))"

definition CreatePrivateNamespace ::
  "os_behaviour \<Rightarrow> SECURITY_ATTRIBUTES \<Rightarrow> boundary_descriptor \<Rightarrow> string \<Rightarrow> os
     \<Rightarrow> namespace_handle option \<times> os" where
  "CreatePrivateNamespace orc secAttr b aliasPrefix s =
     (let c = CallCreatePrivateNamespace secAttr b aliasPrefix; s = log_call c s in
      if forced_failure orc c \<or> b \<in> set (namespaces s) then (None, s)
      else (Some \<lparr>h_boundary = b, h_alias = aliasPrefix, h_destroy = True\<rparr>,
            s\<lparr>namespaces := b # namespaces s\<rparr>))"

definition OpenPrivateNamespace ::
  "os_behaviour \<Rightarrow> boundary_descriptor \<Rightarrow> string \<Rightarrow> os \<Rightarrow> namespace_handle option \<times> os" where
  "OpenPrivateNamespace orc b aliasPrefix s =
     (let c = CallOpenPrivateNamespace b aliasPrefix; s = log_call c s in
      if forced_failure orc c \<or> b \<notin> set (namespaces s) then (None, s)
      else (Some \<lparr>h_boundary = b, h_alias = aliasPrefix, h_destroy = False\<rparr>, s))"

text \<open>A handle is usable while the namespace it refers to exists.\<close>

definition usable :: "os \<Rightarrow> namespace_handle \<Rightarrow> bool" where
  "usable s h = (h_boundary h \<in> set (namespaces s))"

subsection \<open>The functions of the namespace\<close>

text \<open>
  The scoped owners (\<^verbatim>\<open>wil::unique_sid\<close>, \<^verbatim>\<open>wil::unique_boundary_descriptor\<close>,
  \<^verbatim>\<open>wil::unique_hlocal\<close>) release what they hold when their scope is left, by a throw as
  well; \<open>release\<close> stands where a destructor of a non-null owner runs.
\<close>

definition add_world_sid ::
  "os_behaviour \<Rightarrow> boundary_descriptor \<Rightarrow> os \<Rightarrow> (std_exception + boundary_descriptor) \<times> os" where
  "add_world_sid orc boundaryDesc s =
     (case AllocateAndInitializeSid orc SECURITY_WORLD_SID_AUTHORITY 1
             [SECURITY_WORLD_RID, 0, 0, 0, 0, 0, 0, 0] s of
        (None, s) \<Rightarrow>
          (Inl (last_error_exception orc
             (CallAllocateAndInitializeSid SECURITY_WORLD_SID_AUTHORITY 1
                [SECURITY_WORLD_RID, 0, 0, 0, 0, 0, 0, 0])), s)
      | (Some pSID, s) \<Rightarrow>
          (case AddSIDToBoundaryDescriptor orc boundaryDesc pSID s of
             (None, s) \<Rightarrow>
               (Inl (last_error_exception orc (CallAddSIDToBoundaryDescriptor boundaryDesc pSID)),
                release s)
           | (Some boundaryDesc, s) \<Rightarrow> (Inr boundaryDesc, release s)))"

definition add_medium_label ::
  "os_behaviour \<Rightarrow> boundary_descriptor \<Rightarrow> os \<Rightarrow> (std_exception + boundary_descriptor) \<times> os" where
  "add_medium_label orc boundaryDesc s =
     (case AllocateAndInitializeSid orc SECURITY_MANDATORY_LABEL_AUTHORITY 1
             [SECURITY_MANDATORY_MEDIUM_RID, 0, 0, 0, 0, 0, 0, 0] s of
        (None, s) \<Rightarrow>
          (Inl (last_error_exception orc
             (CallAllocateAndInitializeSid SECURITY_MANDATORY_LABEL_AUTHORITY 1
                [SECURITY_MANDATORY_MEDIUM_RID, 0, 0, 0, 0, 0, 0, 0])), s)
      | (Some pSID, s) \<Rightarrow>
          (case AddIntegrityLabelToBoundaryDescriptor orc boundaryDesc pSID s of
             (None, s) \<Rightarrow>
               (Inl (last_error_exception orc
                  (CallAddIntegrityLabelToBoundaryDescriptor boundaryDesc pSID)),
                release s)
           | (Some boundaryDesc, s) \<Rightarrow> (Inr boundaryDesc, release s)))"

definition BuildBoundaryDescriptor ::
  "os_behaviour \<Rightarrow> string \<Rightarrow> os \<Rightarrow> (std_exception + boundary_descriptor) \<times> os" where
  "BuildBoundaryDescriptor orc descriptorName s =
     (case CreateBoundaryDescriptor orc descriptorName 0 s of
        (None, s) \<Rightarrow>
          (Inl (last_error_exception orc (CallCreateBoundaryDescriptor descriptorName 0)), s)
      | (Some boundaryDesc, s) \<Rightarrow>
          (case add_world_sid orc boundaryDesc s of
             (Inl e, s) \<Rightarrow> (Inl e, release s)
           | (Inr boundaryDesc, s) \<Rightarrow>
               (case add_medium_label orc boundaryDesc s of
                  (Inl e, s) \<Rightarrow> (Inl e, release s)
                | (Inr boundaryDesc, s) \<Rightarrow> (Inr boundaryDesc, s))))"

text \<open>
  The buffer \<^verbatim>\<open>szPrivateNamespaceName\<close> after \<^verbatim>\<open>MakeName\<close>, whose return value the callers
  ignore; after a failed \<^verbatim>\<open>swprintf_s\<close> the buffer holds the empty string.
\<close>

definition szPrivateNamespaceName :: "DWORD \<Rightarrow> string" where
  "szPrivateNamespaceName dwSessionManagerProcessId =
     (case MakeName dwSessionManagerProcessId of Inr (name, n) \<Rightarrow> name | Inl e \<Rightarrow> [])"

definition Create :: "os_behaviour \<Rightarrow> DWORD \<Rightarrow> os \<Rightarrow> (std_exception + namespace_handle) \<times> os" where
  "Create orc dwSessionManagerProcessId s =
     (let name = szPrivateNamespaceName dwSessionManagerProcessId in
      case BuildBoundaryDescriptor orc name s of
        (Inl e, s) \<Rightarrow> (Inl e, s)
      | (Inr boundaryDesc, s) \<Rightarrow>
          (case GetFullAccessSecurityDescriptor orc s of
             (None, s) \<Rightarrow>
               (Inl (last_error_exception orc CallGetFullAccessSecurityDescriptor), release s)
           | (Some secDesc, s) \<Rightarrow>
               (let secAttr = \<lparr>lpSecurityDescriptor = secDesc, bInheritHandle = False\<rparr> in
                case CreatePrivateNamespace orc secAttr boundaryDesc name s of
                  (None, s) \<Rightarrow>
                    (Inl (last_error_exception orc
                       (CallCreatePrivateNamespace secAttr boundaryDesc name)),
                     release (release s))
                | (Some privateNamespace, s) \<Rightarrow>
                    (Inr privateNamespace, release (release s)))))"

definition Open :: "os_behaviour \<Rightarrow> DWORD \<Rightarrow> os \<Rightarrow> (std_exception + namespace_handle) \<times> os" where
  "Open orc dwSessionManagerProcessId s =
     (let name = szPrivateNamespaceName dwSessionManagerProcessId in
      case BuildBoundaryDescriptor orc name s of
        (Inl e, s) \<Rightarrow> (Inl e, s)
      | (Inr boundaryDesc, s) \<Rightarrow>
          (case OpenPrivateNamespace orc boundaryDesc name s of
             (None, s) \<Rightarrow>
               (Inl (last_error_exception orc (CallOpenPrivateNamespace boundaryDesc name)),
                release s)
           | (Some privateNamespace, s) \<Rightarrow> (Inr privateNamespace, release s)))"

text \<open>The boundary that both functions build for a process id, and the calls made since a state.\<close>

definition session_boundary :: "DWORD \<Rightarrow> boundary_descriptor" where
  "session_boundary pid =
     \<lparr>bd_name = szPrivateNamespaceName pid, bd_flags = 0,
      bd_sids = [world_sid], bd_labels = [medium_label_sid]\<rparr>"

definition new_calls :: "os \<Rightarrow> os \<Rightarrow> os_call list" where
  "new_calls s s' = drop (length (calls s)) (calls s')"

definition no_failure :: os_behaviour where
  "no_failure = \<lparr>forced_failure = (\<lambda>c. False), last_error = (\<lambda>c. 0)\<rparr>"

definition empty_os :: os where
  "empty_os = \<lparr>namespaces = [], live = 0, calls = []\<rparr>"

text \<open>
  The system calls of the three functions in the order of the source text, with their
  arguments, for a name; a run makes them one after the other up to the first that fails.
\<close>

definition boundary_calls :: "string \<Rightarrow> os_call list" where
  "boundary_calls name =
     [CallCreateBoundaryDescriptor name 0,
      CallAllocateAndInitializeSid SECURITY_WORLD_SID_AUTHORITY 1
        [SECURITY_WORLD_RID, 0, 0, 0, 0, 0, 0, 0],
      CallAddSIDToBoundaryDescriptor
        \<lparr>bd_name = name, bd_flags = 0, bd_sids = [], bd_labels = []\<rparr> world_sid,
      CallAllocateAndInitializeSid SECURITY_MANDATORY_LABEL_AUTHORITY 1
        [SECURITY_MANDATORY_MEDIUM_RID, 0, 0, 0, 0, 0, 0, 0],
      CallAddIntegrityLabelToBoundaryDescriptor
        \<lparr>bd_name = name, bd_flags = 0, bd_sids = [world_sid], bd_labels = []\<rparr> medium_label_sid]"

definition create_calls :: "DWORD \<Rightarrow> os_call list" where
  "create_calls pid =
     boundary_calls (szPrivateNamespaceName pid) @
     [CallGetFullAccessSecurityDescriptor,
      CallCreatePrivateNamespace
        \<lparr>lpSecurityDescriptor = FullAccessSecurityDescriptor, bInheritHandle = False\<rparr>
        (session_boundary pid) (szPrivateNamespaceName pid)]"

definition open_calls :: "DWORD \<Rightarrow> os_call list" where
  "open_calls pid =
     boundary_calls (szPrivateNamespaceName pid) @
     [CallOpenPrivateNamespace (session_boundary pid) (szPrivateNamespaceName pid)]"

fun until_failure :: "os_behaviour \<Rightarrow> os_call list \<Rightarrow> os_call list" where
  "until_failure orc [] = []"
| "until_failure orc (c # cs) = (if forced_failure orc c then [c] else c # until_failure orc cs)"

text \<open>Systems that let one call fail: the security descriptor, and the opening itself.\<close>

definition fail_security_descriptor :: os_behaviour where
  "fail_security_descriptor =
     \<lparr>forced_failure = (\<lambda>c. c = CallGetFullAccessSecurityDescriptor), last_error = (\<lambda>c. 8)\<rparr>"

definition fail_open :: os_behaviour where
  "fail_open =
     \<lparr>forced_failure = (\<lambda>c. case c of CallOpenPrivateNamespace b n \<Rightarrow> True | _ \<Rightarrow> False),
      last_error = (\<lambda>c. 5)\<rparr>"

section \<open>NewProcessInjector: the hook on process creation\<close>

text \<open>
  Modelled from the spec: \<^verbatim>\<open>new_process_injector.h\<close> declares the hook
  \<^verbatim>\<open>CreateProcessInternalW_Hook\<close>, the saved entry point, the policy functions and the
  counter \<^verbatim>\<open>std::atomic<int> m_hookProcCallCounter = 0\<close>; their bodies are in
  \<^verbatim>\<open>new_process_injector.cpp\<close>, which is not part of this development. The hook below follows the six steps that the specification gives for
  \<^verbatim>\<open>Intercept\<close>: count the call in; call the saved implementation and, when it fails,
  return its result; otherwise evaluate the policy on the image path, inject unless the
  process is skipped, logging a failed injection and nothing more; count the call out on
  every path and return the saved implementation's result. The counter is an \<open>int\<close>: the
  calls in flight are bounded by the threads of the process and never come near
  \<open>2 ^ 31\<close>.
\<close>

type_synonym BOOL = "32 word"

record PROCESS_INFORMATION =
  hProcess :: nat
  hThread :: nat
  dwProcessId :: DWORD
  dwThreadId :: DWORD

record create_call =
  lpApplicationName :: "string option"
  lpCommandLine :: "string option"
  dwCreationFlags :: DWORD

text \<open>What the saved implementation gives back: its result, the handles, the image path.\<close>

record created =
  bRet :: BOOL
  processInformation :: PROCESS_INFORMATION
  imagePath :: string

datatype hook_event =
    RealCreateCalled create_call
  | PolicyEvaluated string
  | InjectCalled PROCESS_INFORMATION bool
  | InjectionFailureLogged

record NewProcessInjector =
  m_hookProcCallCounter :: int
  hook_effects :: "hook_event list"

text \<open>
  The saved implementation, the two policy functions and the injection primitive, which
  tells whether it succeeded; its second argument says that thread attachment is skipped.
\<close>

record collaborators =
  m_originalCreateProcessInternalW :: "create_call \<Rightarrow> created"
  ShouldSkipNewProcess :: "string \<Rightarrow> bool"
  ShouldAttachExemptThread :: "string \<Rightarrow> bool"
  inject :: "PROCESS_INFORMATION \<Rightarrow> bool \<Rightarrow> bool"

definition hook_log :: "hook_event \<Rightarrow> NewProcessInjector \<Rightarrow> NewProcessInjector" where
  "hook_log e g = g\<lparr>hook_effects := hook_effects g @ [e]\<rparr>"

definition hook_enter :: "NewProcessInjector \<Rightarrow> NewProcessInjector" where
  "hook_enter g = g\<lparr>m_hookProcCallCounter := m_hookProcCallCounter g + 1\<rparr>"

definition hook_exit :: "NewProcessInjector \<Rightarrow> NewProcessInjector" where
  "hook_exit g = g\<lparr>m_hookProcCallCounter := m_hookProcCallCounter g - 1\<rparr>"

definition HandleCreatedProcess ::
  "collaborators \<Rightarrow> created \<Rightarrow> NewProcessInjector \<Rightarrow> NewProcessInjector" where
  "HandleCreatedProcess col out g =
     (let g = hook_log (PolicyEvaluated (imagePath out)) g;
          skip = ShouldSkipNewProcess col (imagePath out);
          exempt = ShouldAttachExemptThread col (imagePath out)
      in if skip then g
         else (let g = hook_log (InjectCalled (processInformation out) exempt) g in
               if inject col (processInformation out) exempt then g
               else hook_log InjectionFailureLogged g))"

definition hook_body ::
  "collaborators \<Rightarrow> create_call \<Rightarrow> NewProcessInjector \<Rightarrow> BOOL \<times> NewProcessInjector" where
  "hook_body col call g =
     (let out = m_originalCreateProcessInternalW col call;
          g = hook_log (RealCreateCalled call) g
      in if bRet out = 0 then (bRet out, g)
         else (bRet out, HandleCreatedProcess col out g))"

definition CreateProcessInternalW_Hook ::
  "collaborators \<Rightarrow> create_call \<Rightarrow> NewProcessInjector \<Rightarrow> BOOL \<times> NewProcessInjector" where
  "CreateProcessInternalW_Hook col call g =
     (let g = hook_enter g;
          (r, g) = hook_body col call g
      in (r, hook_exit g))"

definition policy_or_injection :: "hook_event \<Rightarrow> bool" where
  "policy_or_injection e =
     (case e of PolicyEvaluated p \<Rightarrow> True | InjectCalled pi x \<Rightarrow> True
      | InjectionFailureLogged \<Rightarrow> True | RealCreateCalled c \<Rightarrow> False)"

subsection \<open>Calls of the hook in flight at the same time\<close>

text \<open>
  Modelled from the spec: any number of threads are inside the hook at once. A call
  enters by counting itself in, may do its work, and leaves by counting itself out, from
  before or after its work (the specification's exit paths: success, failure, early
  return). \<open>entered\<close> and \<open>exited\<close> count the calls that came in and went out.
\<close>

datatype phase = BeforeBody | AfterBody

record gate_sys =
  gate :: NewProcessInjector
  inflight :: "phase list"
  entered :: nat
  exited :: nat

datatype gate_action = Enter | Body nat create_call | Exit nat

definition gate_step :: "collaborators \<Rightarrow> gate_action \<Rightarrow> gate_sys \<Rightarrow> gate_sys option" where
  "gate_step col a s =
     (case a of
        Enter \<Rightarrow>
          Some (s\<lparr>gate := hook_enter (gate s), inflight := inflight s @ [BeforeBody],
                  entered := entered s + 1\<rparr>)
      | Body i call \<Rightarrow>
          if i < length (inflight s) \<and> inflight s ! i = BeforeBody
          then Some (s\<lparr>gate := snd (hook_body col call (gate s)),
                       inflight := (inflight s)[i := AfterBody]\<rparr>)
          else None
      | Exit i \<Rightarrow>
          if i < length (inflight s)
          then Some (s\<lparr>gate := hook_exit (gate s),
                       inflight := take i (inflight s) @ drop (Suc i) (inflight s),
                       exited := exited s + 1\<rparr>)
          else None)"

definition gate_init :: gate_sys where
  "gate_init =
     \<lparr>gate = \<lparr>m_hookProcCallCounter = 0, hook_effects = []\<rparr>, inflight = [], entered = 0,
      exited = 0\<rparr>"

inductive gate_reachable :: "collaborators \<Rightarrow> gate_sys \<Rightarrow> bool" for col where
  gate_reachable_init: "gate_reachable col gate_init"
| gate_reachable_step:
    "gate_reachable col s \<Longrightarrow> gate_step col a s = Some s' \<Longrightarrow> gate_reachable col s'"

fun gate_run :: "collaborators \<Rightarrow> gate_action list \<Rightarrow> gate_sys \<Rightarrow> gate_sys option" where
  "gate_run col [] s = Some s"
| "gate_run col (a # as) s =
     (case gate_step col a s of None \<Rightarrow> None | Some s' \<Rightarrow> gate_run col as s')"

text \<open>Collaborators for examples: creation fails for an empty command line.\<close>

definition example_collaborators :: collaborators where
  "example_collaborators =
     \<lparr>m_originalCreateProcessInternalW =
        (\<lambda>call. \<lparr>bRet = (if lpCommandLine call = Some [] then 0 else 1),
                  processInformation =
                    \<lparr>hProcess = 4, hThread = 8, dwProcessId = 100, dwThreadId = 104\<rparr>,
                  imagePath = ''C:/Windows/notepad.exe''\<rparr>),
      ShouldSkipNewProcess = (\<lambda>p. False),
      ShouldAttachExemptThread = (\<lambda>p. False),
      inject = (\<lambda>pi x. False)\<rparr>"

definition example_call :: "string \<Rightarrow> create_call" where
  "example_call cmd = \<lparr>lpApplicationName = None, lpCommandLine = Some cmd, dwCreationFlags = 0\<rparr>"

text \<open>The counter counts the calls in flight, and the calls in flight are those that came in and did not go out.\<close>

definition gate_inv :: "gate_sys \<Rightarrow> bool" where
  "gate_inv s = (m_hookProcCallCounter (gate s) = int (length (inflight s))
     \<and> entered s = exited s + length (inflight s))"

section \<open>Properties of the embedded functions\<close>

subsection \<open>Facts about the decimal conversion\<close>

lemma static_assert_kPrivateNamespaceMaxLen:
  "kPrivateNamespaceMaxLen + 1 = length ''WindhawkSession1234567890'' + 1"
  by (simp add: kPrivateNamespaceMaxLen_def)

lemma char_of_digit:
  "char_of (48::nat) = CHR ''0''" "char_of (49::nat) = CHR ''1''" "char_of (50::nat) = CHR ''2''"
  "char_of (51::nat) = CHR ''3''" "char_of (52::nat) = CHR ''4''" "char_of (53::nat) = CHR ''5''"
  "char_of (54::nat) = CHR ''6''" "char_of (55::nat) = CHR ''7''" "char_of (56::nat) = CHR ''8''"
  "char_of (57::nat) = CHR ''9''"
  using char_of_char [of "CHR ''0''", where ?'a = nat] char_of_char [of "CHR ''1''", where ?'a = nat]
    char_of_char [of "CHR ''2''", where ?'a = nat] char_of_char [of "CHR ''3''", where ?'a = nat]
    char_of_char [of "CHR ''4''", where ?'a = nat] char_of_char [of "CHR ''5''", where ?'a = nat]
    char_of_char [of "CHR ''6''", where ?'a = nat] char_of_char [of "CHR ''7''", where ?'a = nat]
    char_of_char [of "CHR ''8''", where ?'a = nat] char_of_char [of "CHR ''9''", where ?'a = nat]
  by simp_all

lemmas dec_digits_eval = dec_digits.simps digit_char_def char_of_digit

lemma dec_digits_nonempty: "dec_digits n \<noteq> []"
  by (subst dec_digits.simps) simp

lemma dec_digits_length_le: "0 < k \<Longrightarrow> n < 10 ^ k \<Longrightarrow> length (dec_digits n) \<le> k"
proof (induction n arbitrary: k rule: dec_digits.induct)
  case (1 n)
  show ?case
  proof (cases "n < 10")
    case True
    with "1.prems" show ?thesis by (subst dec_digits.simps) simp
  next
    case False
    obtain j where k: "k = Suc j"
      using "1.prems" by (cases k) auto
    have j: "0 < j"
    proof (rule gr0I)
      assume "j = 0"
      with k "1.prems" False show False by simp
    qed
    from "1.prems" k have "n div 10 < 10 ^ j"
      by (simp add: less_mult_imp_div_less mult.commute)
    with "1.IH" [OF False j] have "length (dec_digits (n div 10)) \<le> j" .
    with False k show ?thesis by (subst dec_digits.simps) simp
  qed
qed

lemma dec_value_snoc: "dec_value (ds @ [c]) = 10 * dec_value ds + (of_char c - 48)"
  by (simp add: dec_value_def)

lemma of_char_digit_char: "d < 10 \<Longrightarrow> (of_char (digit_char d) :: nat) = 48 + d"
  by (simp add: digit_char_def)

lemma dec_value_dec_digits: "dec_value (dec_digits n) = n"
proof (induction n rule: dec_digits.induct)
  case (1 n)
  show ?case
  proof (cases "n < 10")
    case True
    then show ?thesis
      by (subst dec_digits.simps) (simp add: dec_value_def of_char_digit_char)
  next
    case False
    with "1.IH" show ?thesis
      by (subst dec_digits.simps) (simp add: dec_value_snoc of_char_digit_char)
  qed
qed

lemma dec_digits_hd: "hd (dec_digits n) = CHR ''0'' \<longleftrightarrow> n = 0"
proof (induction n rule: dec_digits.induct)
  case (1 n)
  show ?case
  proof (cases "n < 10")
    case True
    have "digit_char n = CHR ''0'' \<longleftrightarrow> n = 0"
    proof
      assume "digit_char n = CHR ''0''"
      then have "(of_char (digit_char n) :: nat) = of_char CHR ''0''" by simp
      with True show "n = 0" by (simp add: of_char_digit_char)
    next
      assume "n = 0"
      moreover have "char_of (of_char CHR ''0'' :: nat) = CHR ''0''" by (rule char_of_char)
      ultimately show "digit_char n = CHR ''0''" by (simp add: digit_char_def)
    qed
    then show ?thesis using True by (subst dec_digits.simps) simp
  next
    case False
    with "1.IH" have "hd (dec_digits (n div 10)) = CHR ''0'' \<longleftrightarrow> n div 10 = 0" by simp
    moreover from False have "n div 10 \<noteq> 0" by simp
    ultimately show ?thesis using False
      by (subst dec_digits.simps) (simp add: dec_digits_nonempty)
  qed
qed


lemma MakeName_eq:
  "MakeName pid =
     Inr (''WindhawkSession'' @ dec_digits (unat pid),
          int (length ''WindhawkSession'' + length (dec_digits (unat pid))))"
proof -
  have "unat pid < 2 ^ 32"
    using unsigned_less [of pid] by simp
  then have "unat pid < 10 ^ 10" by simp
  then have "length (dec_digits (unat pid)) \<le> 10"
    by (rule dec_digits_length_le [rotated]) simp
  then show ?thesis
    by (simp add: MakeName_def swprintf_s_def kPrivateNamespaceMaxLen_def)
qed

subsection \<open>Facts about the request options and the constructor\<close>

lemma GetUpdateCheckerOptions_user_agent:
  "sUserAgent (GetUpdateCheckerOptions p flags d n) =
     ''Windhawk/'' @ VER_FILE_VERSION_WSTR p @ '' ('' @ dec_digits (unat (nativeMachine p))
       @ (if flags AND kFlagPortable p \<noteq> 0 then ''; portable'' else []) @ '')''"
  by (simp add: GetUpdateCheckerOptions_def Let_def to_wstring_def)

lemma GetUpdateCheckerOptions_post:
  "0 < n \<Longrightarrow> GetUpdateCheckerOptions p flags (Some d) n =
     (GetUpdateCheckerOptions p flags None 0)
       \<lparr>sVerb := ''POST'', lpOptional := Some d, dwOptionalSize := word_of_nat n\<rparr>"
  by (simp add: GetUpdateCheckerOptions_def Let_def)

lemma GetUpdateCheckerOptions_get:
  "d = None \<or> n = 0 \<Longrightarrow>
   sVerb (GetUpdateCheckerOptions p flags d n) = [] \<and>
   lpOptional (GetUpdateCheckerOptions p flags d n) = None \<and>
   dwOptionalSize (GetUpdateCheckerOptions p flags d n) = 0 \<and>
   sURL (GetUpdateCheckerOptions p flags d n) = kUpdateCheckerUrl"
  by (auto simp add: GetUpdateCheckerOptions_def Let_def CWinHTTPSimpleOptions_default_def)

lemma get_options_no_body:
  "request_verb (GetUpdateCheckerOptions p flags None 0) = ''GET''"
  "lpOptional (GetUpdateCheckerOptions p flags None 0) = None"
  "dwOptionalSize (GetUpdateCheckerOptions p flags None 0) = 0"
  "request_body (GetUpdateCheckerOptions p flags None 0) = []"
  using GetUpdateCheckerOptions_get [of None 0 p flags]
  by (simp_all add: request_verb_def request_body_def)

lemma sent_append: "sent w (es @ es') = sent w es @ sent w es'"
  by (induction w es rule: sent.induct) simp_all

lemma get_request_failures_append:
  "get_request_failures (es @ es') = get_request_failures es @ get_request_failures es'"
  by (induction es rule: get_request_failures.induct) simp_all

text \<open>The exchange that the constructor hands to \<^verbatim>\<open>SendRequest\<close>.\<close>

lemma add_content_type_cases:
  "add_content_type t uc =
     (if FAILED (addHeaders_hr t) then Inl (StdThrow (ResultException (addHeaders_hr t)), effects uc)
      else Inr (uc\<lparr>m_httpSimple := (m_httpSimple uc)
                 \<lparr>headers := headers (m_httpSimple uc) @ [''Content-Type: application/json'']\<rparr>\<rparr>))"
  by (simp add: add_content_type_def THROW_IF_FAILED_def)

lemma send_sync_sent_primary:
  "sent Primary (ctor_effects (send_sync p t uc)) = sent Primary (effects uc) @ [m_httpSimple uc]"
  by (simp add: send_sync_def Let_def emit_def ctor_effects_def sent_append
      split: sync_send.splits option.splits)

lemma send_async_sent_primary:
  "sent Primary (ctor_effects (send_async t uc)) = sent Primary (effects uc) @ [m_httpSimple uc]"
  by (simp add: send_async_def Let_def emit_def ctor_effects_def sent_append
      split: async_send.splits sum.splits)

lemma ctor_sent_primary:
  "sent Primary (ctor_effects (UpdateChecker_ctor p t flags cb payload)) =
     (if payload \<noteq> [] \<and> FAILED (addHeaders_hr t) then []
      else [(CWinHTTPSimple_new
               (GetUpdateCheckerOptions p flags (Some payload) (length payload)) cb)
              \<lparr>headers := (if payload = [] then [] else [''Content-Type: application/json''])\<rparr>])"
proof -
  let ?u0 = "UpdateChecker_init p flags cb payload"
  let ?x = "CWinHTTPSimple_new (GetUpdateCheckerOptions p flags (Some payload) (length payload)) cb"
  have init: "m_postedData ?u0 = payload" "effects ?u0 = []" "m_onUpdateCheckDone ?u0 = cb"
    "m_httpSimple ?u0 = ?x" "headers ?x = []" "?x\<lparr>headers := []\<rparr> = ?x"
    by (simp_all add: UpdateChecker_init_def CWinHTTPSimple_new_def)
  have send: "\<And>u. m_onUpdateCheckDone u = cb \<Longrightarrow> effects u = [] \<Longrightarrow>
      sent Primary (ctor_effects (if m_onUpdateCheckDone u then send_async t u else send_sync p t u))
        = [m_httpSimple u]"
    by (simp add: send_sync_sent_primary send_async_sent_primary)
  consider "payload = []" | "payload \<noteq> []" "FAILED (addHeaders_hr t)"
    | "payload \<noteq> []" "\<not> FAILED (addHeaders_hr t)"
    by blast
  then show ?thesis
  proof cases
    case 1
    have "UpdateChecker_ctor p t flags cb payload =
        (if m_onUpdateCheckDone ?u0 then send_async t ?u0 else send_sync p t ?u0)"
      using 1 init(1) by (simp add: UpdateChecker_ctor_def Let_def)
    then show ?thesis
      using send [of ?u0] init 1 by simp
  next
    case 2
    then show ?thesis
      by (simp add: UpdateChecker_ctor_def Let_def init add_content_type_cases ctor_effects_def)
  next
    case 3
    let ?u1 = "?u0\<lparr>m_httpSimple := ?x\<lparr>headers := [''Content-Type: application/json'']\<rparr>\<rparr>"
    have "UpdateChecker_ctor p t flags cb payload =
        (if m_onUpdateCheckDone ?u1 then send_async t ?u1 else send_sync p t ?u1)"
      using 3 init by (simp add: UpdateChecker_ctor_def Let_def add_content_type_cases)
    then show ?thesis
      using send [of ?u1] init 3 by simp
  qed
qed

text \<open>The checker that the constructor leaves, in the two modes.\<close>

lemma ctor_async_state:
  assumes "UpdateChecker_ctor p t flags True payload = Inr uc"
  shows "onDone (m_httpSimple uc) = Some CallOnRequestDone" "\<not> m_aborted uc"
    "m_httpSimpleGetRequest uc = None" "m_onUpdateCheckDone uc"
    "sent Fallback (effects uc) = []" "callback_count uc = 0"
    "get_request_failures (effects uc) = []" "m_flags uc = flags"
  using assms
  by (auto simp add: UpdateChecker_ctor_def UpdateChecker_init_def Let_def add_content_type_def
      send_async_def emit_def callback_count_def split: sum.splits if_splits async_send.splits)

lemma send_sync_state:
  assumes "send_sync p t u1 = Inr uc" "effects u1 = []" "m_httpSimpleGetRequest u1 = None"
    "onDone (m_httpSimple u1) = None"
  shows "sent Fallback (effects uc) =
           (if ShouldRetryWithAGetRequest uc
            then [CWinHTTPSimple_new (GetUpdateCheckerOptions p (m_flags u1) None 0) False] else [])"
    and "(m_httpSimpleGetRequest uc \<noteq> None) = ShouldRetryWithAGetRequest uc"
    and "m_httpSimpleGetRequest uc = Some g \<Longrightarrow>
           options g = GetUpdateCheckerOptions p (m_flags u1) None 0 \<and> headers g = []
           \<and> onDone g = None"
    and "callback_count uc = 0" and "onDone (m_httpSimple uc) = None"
    and "m_flags uc = m_flags u1" and "m_onUpdateCheckDone uc = m_onUpdateCheckDone u1"
    and "m_aborted uc = m_aborted u1"
  using assms
  by (auto simp add: send_sync_def Let_def emit_def store_reply_def callback_count_def
      ShouldRetryWithAGetRequest_def CWinHTTPSimple_new_def
      split: sync_send.splits if_splits option.splits)

lemma ctor_sync_start:
  assumes "UpdateChecker_ctor p t flags False payload = Inr uc"
  shows "\<exists>u1. send_sync p t u1 = Inr uc \<and> effects u1 = [] \<and> m_httpSimpleGetRequest u1 = None
         \<and> onDone (m_httpSimple u1) = None \<and> m_flags u1 = flags \<and> \<not> m_onUpdateCheckDone u1
         \<and> \<not> m_aborted u1"
  using assms
  by (auto simp add: UpdateChecker_ctor_def UpdateChecker_init_def Let_def add_content_type_def
      CWinHTTPSimple_new_def split: sum.splits if_splits)

lemma ctor_sync_state:
  assumes "UpdateChecker_ctor p t flags False payload = Inr uc"
  shows "sent Fallback (effects uc) =
           (if ShouldRetryWithAGetRequest uc
            then [CWinHTTPSimple_new (GetUpdateCheckerOptions p flags None 0) False] else [])"
    and "(m_httpSimpleGetRequest uc \<noteq> None) = ShouldRetryWithAGetRequest uc"
    and "m_httpSimpleGetRequest uc = Some g \<Longrightarrow>
           options g = GetUpdateCheckerOptions p flags None 0 \<and> headers g = [] \<and> onDone g = None"
    and "callback_count uc = 0" and "onDone (m_httpSimple uc) = None"
    and "m_flags uc = flags" and "\<not> m_onUpdateCheckDone uc" and "\<not> m_aborted uc"
proof -
  obtain u1 where u1: "send_sync p t u1 = Inr uc" "effects u1 = []"
      "m_httpSimpleGetRequest u1 = None" "onDone (m_httpSimple u1) = None" "m_flags u1 = flags"
      "\<not> m_onUpdateCheckDone u1" "\<not> m_aborted u1"
    using ctor_sync_start [OF assms] by blast
  note s = send_sync_state [OF u1(1-4)]
  show "sent Fallback (effects uc) =
           (if ShouldRetryWithAGetRequest uc
            then [CWinHTTPSimple_new (GetUpdateCheckerOptions p flags None 0) False] else [])"
    using s(1) u1(5) by simp
  show "(m_httpSimpleGetRequest uc \<noteq> None) = ShouldRetryWithAGetRequest uc"
    using s(2) .
  show "m_httpSimpleGetRequest uc = Some g \<Longrightarrow>
           options g = GetUpdateCheckerOptions p flags None 0 \<and> headers g = [] \<and> onDone g = None"
    using s(3) u1(5) by simp
  show "callback_count uc = 0" "onDone (m_httpSimple uc) = None" "m_flags uc = flags"
    "\<not> m_onUpdateCheckDone uc" "\<not> m_aborted uc"
    using s(4-8) u1(5-7) by simp_all
qed


subsection \<open>Evaluating the constructor on examples\<close>

lemma invalid_header_value: "HRESULT_FROM_WIN32 ERROR_WINHTTP_INVALID_HEADER = 0x80072F76"
  by (simp add: HRESULT_FROM_WIN32_def ERROR_WINHTTP_INVALID_HEADER_def WINHTTP_ERROR_BASE_def FACILITY_WIN32_def)

lemmas ctor_eval = UpdateChecker_ctor_def UpdateChecker_init_def Let_def add_content_type_def
  THROW_IF_FAILED_def FAILED_def S_OK_def send_sync_def send_async_def emit_def store_reply_def
  ShouldRetryWithAGetRequest_def CWinHTTPSimple_new_def invalid_header_value
  example_transport_def reply_200_def reply_405_def

lemma example_ctor_sync2:
  "\<exists>uc. UpdateChecker_ctor example_platform (example_transport reply_200) 0 False [] = Inr uc"
  by (simp add: ctor_eval)

lemma succeeded_no_retry:
  "SUCCEEDED (requestResult (m_httpSimple uc)) \<Longrightarrow> \<not> ShouldRetryWithAGetRequest uc"
  by (auto simp add: SUCCEEDED_def ShouldRetryWithAGetRequest_def invalid_header_value)

lemma retry_not_succeeded:
  "ShouldRetryWithAGetRequest uc \<Longrightarrow>
     \<not> SUCCEEDED (requestResult (m_httpSimple uc))
     \<and> requestResult (m_httpSimple uc) = 0x80072F76 \<and> lastStatusCode (m_httpSimple uc) = 405"
  by (auto simp add: SUCCEEDED_def ShouldRetryWithAGetRequest_def invalid_header_value)

lemma example_ctor_sync_405:
  "\<exists>uc. UpdateChecker_ctor example_platform (example_transport reply_405) 0 False ''{}'' = Inr uc"
  by (simp add: ctor_eval)

lemma example_ctor_async:
  "primary_async t = AsyncReturned S_OK \<Longrightarrow> addHeaders_hr t = S_OK \<Longrightarrow>
   \<exists>uc. UpdateChecker_ctor p t flags True payload = Inr uc"
  by (simp add: UpdateChecker_ctor_def UpdateChecker_init_def Let_def add_content_type_def
      THROW_IF_FAILED_def FAILED_def S_OK_def send_async_def)


subsection \<open>Facts for the examples of HandleResponse\<close>

lemma E_FAIL_failed: "FAILED E_FAIL"
  by (simp add: FAILED_def E_FAIL_def)

lemma example_sync_405:
  "UpdateChecker_ctor example_platform (example_transport reply_405) 0 False ''{}'' = Inr uc \<Longrightarrow>
     (\<exists>g. m_httpSimpleGetRequest uc = Some g \<and> requestResult g = S_OK
     \<and> lastStatusCode g = 200 \<and> response g = ''{}'')"
  by (auto simp add: ctor_eval)

lemma example_sync_timeout:
  "UpdateChecker_ctor example_platform (example_transport reply_timeout) 0 False [] = Inr uc \<Longrightarrow>
     m_httpSimpleGetRequest uc = None \<and> requestResult (m_httpSimple uc) = 0x80072EE2
     \<and> lastStatusCode (m_httpSimple uc) = 0 \<and> response (m_httpSimple uc) = []"
  by (auto simp add: ctor_eval reply_timeout_def)

lemma example_sync_garbled:
  "UpdateChecker_ctor example_platform (example_transport reply_garbled) 0 False [] = Inr uc \<Longrightarrow>
     m_httpSimpleGetRequest uc = None \<and> requestResult (m_httpSimple uc) = S_OK
     \<and> lastStatusCode (m_httpSimple uc) = 200 \<and> response (m_httpSimple uc) = ''<html>''"
  by (auto simp add: ctor_eval reply_garbled_def)

lemma example_sync_total:
  "\<exists>uc. UpdateChecker_ctor example_platform (example_transport reply_timeout) 0 False [] = Inr uc"
  "\<exists>uc. UpdateChecker_ctor example_platform (example_transport reply_garbled) 0 False [] = Inr uc"
  by (simp_all add: ctor_eval reply_timeout_def reply_garbled_def)

lemma HandleResponse_cases:
  assumes "x = (case m_httpSimpleGetRequest uc of Some g \<Rightarrow> g | None \<Rightarrow> m_httpSimple uc)"
  shows "\<not> SUCCEEDED (requestResult x) \<Longrightarrow>
          HandleResponse f uc =
            Inr (\<lparr>hrError = requestResult x, httpStatusCode = lastStatusCode x,
                  updateStatus = None\<rparr>, [])"
    and "SUCCEEDED (requestResult x) \<Longrightarrow> f (response x) = Inr status \<Longrightarrow>
          HandleResponse f uc =
            Inr (\<lparr>hrError = requestResult x, httpStatusCode = lastStatusCode x,
                  updateStatus = Some status\<rparr>,
                 [UpdateContentWithOnlineDataCalled (response x)])"
    and "SUCCEEDED (requestResult x) \<Longrightarrow> f (response x) = Inl (StdThrow e) \<Longrightarrow>
          HandleResponse f uc =
            Inr (\<lparr>hrError = E_FAIL, httpStatusCode = lastStatusCode x, updateStatus = None\<rparr>,
                 [UpdateContentWithOnlineDataCalled (response x), LogHandlingFailed e])"
    and "SUCCEEDED (requestResult x) \<Longrightarrow> f (response x) = Inl OtherThrow \<Longrightarrow>
          HandleResponse f uc = Inl OtherThrow"
  using assms
  by (auto simp add: HandleResponse_def Let_def split: option.splits)

subsection \<open>The invariant of the two threads\<close>

lemma past_recheck_holds: "past_recheck d \<Longrightarrow> holds_mutex d"
  by (cases d) simp_all

lemma sys_invI:
  "holds_mutex (dpc s) = (mutex s = Some CompletionThread) \<Longrightarrow>
   (apc s = AbortFallback \<or> apc s = AbortUnlock) = (mutex s = Some AbortThread) \<Longrightarrow>
   (apc s \<noteq> AbortIdle \<or> 0 < abort_returns s \<Longrightarrow> m_aborted (checker s)) \<Longrightarrow>
   (apc s = AbortLock \<or> apc s = AbortFallback \<or> apc s = AbortUnlock \<or> 0 < abort_returns s
      \<Longrightarrow> abortCalled (m_httpSimple (checker s))) \<Longrightarrow>
   (\<And>g. apc s = AbortUnlock \<or> 0 < abort_returns s \<Longrightarrow> m_httpSimpleGetRequest (checker s) = Some g
      \<Longrightarrow> abortCalled g) \<Longrightarrow>
   (0 < abort_returns s \<Longrightarrow> \<not> past_recheck (dpc s)) \<Longrightarrow> sys_inv s"
  by (auto simp add: sys_inv_def split: option.splits)

lemma sys_invD:
  assumes "sys_inv s"
  shows "holds_mutex (dpc s) = (mutex s = Some CompletionThread)"
    and "(apc s = AbortFallback \<or> apc s = AbortUnlock) = (mutex s = Some AbortThread)"
    and "apc s \<noteq> AbortIdle \<or> 0 < abort_returns s \<Longrightarrow> m_aborted (checker s)"
    and "apc s = AbortLock \<or> apc s = AbortFallback \<or> apc s = AbortUnlock \<or> 0 < abort_returns s
      \<Longrightarrow> abortCalled (m_httpSimple (checker s))"
    and "apc s = AbortUnlock \<or> 0 < abort_returns s \<Longrightarrow> m_httpSimpleGetRequest (checker s) = Some g
      \<Longrightarrow> abortCalled g"
    and "0 < abort_returns s \<Longrightarrow> \<not> past_recheck (dpc s)"
  using assms by (auto simp add: sys_inv_def split: option.splits)

lemma sys_inv_step_abort:
  assumes "sys_inv s" "step_abort s = Some s'"
  shows "sys_inv s'"
proof (cases "apc s")
  case AbortIdle
  with assms(2) have s': "s' = s\<lparr>checker := (checker s)\<lparr>m_aborted := True\<rparr>, apc := AbortPrimary\<rparr>"
    by (simp add: step_abort_def)
  show ?thesis
    using sys_invD [OF assms(1)] AbortIdle
    by (intro sys_invI) (simp_all add: s')
next
  case AbortPrimary
  with assms(2) have s': "s' = s\<lparr>checker := (checker s)
        \<lparr>m_httpSimple := CWinHTTPSimple_Abort (m_httpSimple (checker s))\<rparr>, apc := AbortLock\<rparr>"
    by (simp add: step_abort_def)
  show ?thesis
    using sys_invD [OF assms(1)] AbortPrimary
    by (intro sys_invI) (simp_all add: s' CWinHTTPSimple_Abort_def)
next
  case AbortLock
  with assms(2) have free: "mutex s = None"
    and s': "s' = s\<lparr>mutex := Some AbortThread, apc := AbortFallback\<rparr>"
    by (simp_all add: step_abort_def split: if_splits)
  show ?thesis
    using sys_invD [OF assms(1)] AbortLock free
    by (intro sys_invI) (simp_all add: s')
next
  case AbortFallback
  with assms(2) have s': "s' = s\<lparr>checker :=
        (case m_httpSimpleGetRequest (checker s) of
           None \<Rightarrow> checker s
         | Some g \<Rightarrow> (checker s)\<lparr>m_httpSimpleGetRequest := Some (CWinHTTPSimple_Abort g)\<rparr>),
        apc := AbortUnlock\<rparr>"
    by (simp add: step_abort_def)
  show ?thesis
    using sys_invD [OF assms(1)] AbortFallback
    by (intro sys_invI)
      (auto simp add: s' CWinHTTPSimple_Abort_def split: option.splits)
next
  case AbortUnlock
  with assms(2) have s': "s' = s\<lparr>mutex := None, apc := AbortIdle,
        abort_returns := abort_returns s + 1\<rparr>"
    by (simp add: step_abort_def)
  have held: "mutex s = Some AbortThread"
    using sys_invD(2) [OF assms(1)] AbortUnlock by simp
  then have out: "\<not> holds_mutex (dpc s)"
    using sys_invD(1) [OF assms(1)] by simp
  then have "\<not> past_recheck (dpc s)"
    using past_recheck_holds by blast
  then show ?thesis
    using sys_invD [OF assms(1)] AbortUnlock held out
    by (intro sys_invI) (simp_all add: s')
qed

lemma sys_inv_step_done:
  assumes "sys_inv s" "step_done p t s = Some s'"
  shows "sys_inv s'"
proof (cases "dpc s")
  case DoneWaiting
  with assms(2) show ?thesis by (simp add: step_done_def)
next
  case DoneCheck
  show ?thesis
  proof (cases "ShouldRetryWithAGetRequest (checker s)")
    case True
    with assms(2) DoneCheck have s': "s' = s\<lparr>flag_at_check := Some (m_aborted (checker s)),
        dpc := (if \<not> m_aborted (checker s) then DoneLock else DoneCallback)\<rparr>"
      by (simp add: step_done_def)
    show ?thesis
      using sys_invD [OF assms(1)] DoneCheck
      by (intro sys_invI) (auto simp add: s')
  next
    case False
    with assms(2) DoneCheck have s': "s' = s\<lparr>dpc := DoneCallback\<rparr>"
      by (simp add: step_done_def)
    show ?thesis
      using sys_invD [OF assms(1)] DoneCheck
      by (intro sys_invI) (auto simp add: s')
  qed
next
  case DoneLock
  with assms(2) have free: "mutex s = None"
    and s': "s' = s\<lparr>mutex := Some CompletionThread, dpc := DoneRecheck\<rparr>"
    by (simp_all add: step_done_def split: if_splits)
  show ?thesis
    using sys_invD [OF assms(1)] DoneLock free
    by (intro sys_invI) (simp_all add: s')
next
  case DoneRecheck
  with assms(2) have s': "s' = s\<lparr>flag_at_recheck := Some (m_aborted (checker s)), dpc :=
      (if \<not> m_aborted (checker s) then DoneNew else DoneUnlockCallback)\<rparr>"
    by (simp add: step_done_def)
  show ?thesis
    using sys_invD [OF assms(1)] DoneRecheck
    by (intro sys_invI) (auto simp add: s')
next
  case DoneNew
  have none: "abort_returns s = 0" "apc s \<noteq> AbortUnlock"
    using sys_invD(1,2,6) [OF assms(1)] DoneNew by auto
  from assms(2) DoneNew consider e where "s' = s\<lparr>dpc := DoneCatch e\<rparr>"
    | "s' = s\<lparr>dpc := DonePropagate\<rparr>"
    | "s' = s\<lparr>checker := (checker s)
          \<lparr>m_httpSimpleGetRequest :=
             Some (CWinHTTPSimple_new (GetUpdateCheckerOptions p (m_flags (checker s)) None 0) True)\<rparr>,
           created := created s + 1, dpc := DoneSend\<rparr>"
    by (auto simp add: step_done_def split: option.splits thrown.splits)
  then show ?thesis
  proof cases
    case s': 1
    show ?thesis
      using sys_invD [OF assms(1)] DoneNew none
      by (intro sys_invI) (simp_all add: s')
  next
    case s': 2
    show ?thesis
      using sys_invD [OF assms(1)] DoneNew none
      by (intro sys_invI) (simp_all add: s')
  next
    case s': 3
    show ?thesis
      using sys_invD [OF assms(1)] DoneNew none
      by (intro sys_invI) (simp_all add: s')
  qed
next
  case DoneSend
  have none: "abort_returns s = 0" "apc s \<noteq> AbortUnlock"
    using sys_invD(1,2,6) [OF assms(1)] DoneSend by auto
  from assms(2) DoneSend obtain c d where s': "s' = s\<lparr>checker := c, dpc := d\<rparr>"
    and c: "m_aborted c = m_aborted (checker s)" "m_httpSimple c = m_httpSimple (checker s)"
    and d: "holds_mutex d"
    by (auto simp add: step_done_def Let_def emit_def THROW_IF_FAILED_def
        split: option.splits thrown.splits async_send.splits if_splits)
  show ?thesis
    using sys_invD [OF assms(1)] DoneSend none c d
    by (intro sys_invI) (simp_all add: s')
next
  case (DoneCatch e)
  have none: "abort_returns s = 0" "apc s \<noteq> AbortUnlock"
    using sys_invD(1,2,6) [OF assms(1)] DoneCatch by auto
  from assms(2) DoneCatch have s': "s' = s\<lparr>checker := catch_get_request e (checker s),
      dpc := DoneUnlockReturn\<rparr>"
    by (simp add: step_done_def)
  show ?thesis
    using sys_invD [OF assms(1)] DoneCatch none
    by (intro sys_invI) (simp_all add: s' catch_get_request_def emit_def)
next
  case DonePropagate
  with assms(2) have s': "s' = s\<lparr>mutex := None, dpc := DoneThrown\<rparr>"
    by (simp add: step_done_def)
  show ?thesis
    using sys_invD [OF assms(1)] DonePropagate
    by (intro sys_invI) (auto simp add: s')
next
  case DoneUnlockReturn
  with assms(2) have s': "s' = s\<lparr>mutex := None, dpc := DoneFinished\<rparr>"
    by (simp add: step_done_def)
  show ?thesis
    using sys_invD [OF assms(1)] DoneUnlockReturn
    by (intro sys_invI) (auto simp add: s')
next
  case DoneUnlockCallback
  with assms(2) have s': "s' = s\<lparr>mutex := None, dpc := DoneCallback\<rparr>"
    by (simp add: step_done_def)
  show ?thesis
    using sys_invD [OF assms(1)] DoneUnlockCallback
    by (intro sys_invI) (auto simp add: s')
next
  case DoneCallback
  with assms(2) have s': "s' = s\<lparr>checker := emit OnUpdateCheckDoneInvoked (checker s),
      dpc := DoneFinished\<rparr>"
    by (simp add: step_done_def)
  show ?thesis
    using sys_invD [OF assms(1)] DoneCallback
    by (intro sys_invI) (simp_all add: s' emit_def)
next
  case DoneFinished
  with assms(2) show ?thesis by (simp add: step_done_def)
next
  case DoneThrown
  with assms(2) show ?thesis by (simp add: step_done_def)
qed

lemma sys_inv_init: "sys_inv (init_sys uc)"
  by (simp add: sys_inv_def init_sys_def)

lemma sys_inv_step:
  assumes "sys_inv s" "step p t a s = Some s'"
  shows "sys_inv s'"
proof (cases a)
  case AbortStep
  with assms show ?thesis by (simp add: step_def sys_inv_step_abort)
next
  case DoneStep
  with assms show ?thesis by (simp add: step_def sys_inv_step_done)
next
  case (PrimaryCompletes r)
  with assms(2) have w: "dpc s = DoneWaiting"
    and s': "s' = s\<lparr>checker := (checker s)
        \<lparr>m_httpSimple := store_reply r (m_httpSimple (checker s))\<rparr>, dpc := DoneCheck\<rparr>"
    by (simp_all add: step_def split: if_splits)
  show ?thesis
    using sys_invD [OF assms(1)] w
    by (intro sys_invI) (simp_all add: s' store_reply_def)
next
  case (FallbackCompletes r)
  with assms(2) have s': "s' = s\<lparr>checker :=
        emit OnUpdateCheckDoneInvoked
          ((checker s)\<lparr>m_httpSimpleGetRequest :=
             map_option (store_reply r) (m_httpSimpleGetRequest (checker s))\<rparr>),
        fallback_done := True\<rparr>"
    by (simp_all add: step_def split: if_splits)
  show ?thesis
    using sys_invD [OF assms(1)]
    by (intro sys_invI) (auto simp add: s' store_reply_def emit_def)
qed

lemma reachable_inv: "reachable p t s \<Longrightarrow> sys_inv s"
  by (induction rule: reachable.induct) (auto intro: sys_inv_init sys_inv_step)


subsection \<open>The invariant of the handler\<close>

lemmas handler_defs = untouched_def reads_def in_try_def declined_def attempted_def
  registered_def get_exchange_def callback_count_def emit_def catch_get_request_def sent_append
  get_request_failures_append ShouldRetryWithAGetRequest_def

lemma handler_inv_init:
  assumes "UpdateChecker_ctor p t flags cb payload = Inr uc"
  shows "handler_inv p t (init_sys uc)"
proof (cases cb)
  case True
  with assms have "UpdateChecker_ctor p t flags True payload = Inr uc" by simp
  note a = ctor_async_state [OF this]
  show ?thesis
    using a by (simp add: handler_inv_def init_sys_def untouched_def reads_def)
next
  case False
  with assms have "UpdateChecker_ctor p t flags False payload = Inr uc" by simp
  note a = ctor_sync_state [OF this]
  have "\<not> registered uc"
    using a(3) by (auto simp add: registered_def split: option.splits)
  then show ?thesis
    using a(1,4-8)
    by (simp add: handler_inv_def init_sys_def reads_def get_exchange_def CWinHTTPSimple_new_def)
qed

lemma handler_invD:
  assumes "handler_inv p t s" "dpc s \<noteq> DoneWaiting"
  shows "m_onUpdateCheckDone (checker s)"
    and "onDone (m_httpSimple (checker s)) = Some CallOnRequestDone"
    and "pc_inv p t s (dpc s)"
    and "list_all (get_exchange p (m_flags (checker s))) (sent Fallback (effects (checker s)))"
    and "length (sent Fallback (effects (checker s))) \<le> 1"
  using assms by (auto simp add: handler_inv_def split: if_splits)

lemma handler_invI:
  "m_onUpdateCheckDone (checker s) \<Longrightarrow>
   onDone (m_httpSimple (checker s)) = Some CallOnRequestDone \<Longrightarrow>
   pc_inv p t s (dpc s) \<Longrightarrow>
   list_all (get_exchange p (m_flags (checker s))) (sent Fallback (effects (checker s))) \<Longrightarrow>
   length (sent Fallback (effects (checker s))) \<le> 1 \<Longrightarrow> handler_inv p t s"
  by (simp add: handler_inv_def)

lemma handler_inv_step_done:
  assumes "handler_inv p t s" "step_done p t s = Some s'"
  shows "handler_inv p t s'"
proof (cases "dpc s")
  case DoneWaiting
  with assms(2) show ?thesis by (simp add: step_done_def)
next
  case DoneCheck
  then have "dpc s \<noteq> DoneWaiting" by simp
  note a = handler_invD [OF assms(1) this]
  show ?thesis
  proof (cases "ShouldRetryWithAGetRequest (checker s)")
    case True
    with assms(2) DoneCheck have s': "s' = s\<lparr>flag_at_check := Some (m_aborted (checker s)),
        dpc := (if \<not> m_aborted (checker s) then DoneLock else DoneCallback)\<rparr>"
      by (simp add: step_done_def)
    show ?thesis
      using a DoneCheck True
      by (intro handler_invI) (simp_all add: s' untouched_def reads_def declined_def)
  next
    case False
    with assms(2) DoneCheck have s': "s' = s\<lparr>dpc := DoneCallback\<rparr>"
      by (simp add: step_done_def)
    show ?thesis
      using a DoneCheck False
      by (intro handler_invI) (simp_all add: s' untouched_def reads_def declined_def)
  qed
next
  case DoneLock
  then have "dpc s \<noteq> DoneWaiting" by simp
  note a = handler_invD [OF assms(1) this]
  from assms(2) DoneLock have s': "s' = s\<lparr>mutex := Some CompletionThread, dpc := DoneRecheck\<rparr>"
    by (simp_all add: step_done_def split: if_splits)
  show ?thesis
    using a DoneLock
    by (intro handler_invI) (simp_all add: s' untouched_def reads_def)
next
  case DoneRecheck
  then have "dpc s \<noteq> DoneWaiting" by simp
  note a = handler_invD [OF assms(1) this]
  from assms(2) DoneRecheck have s': "s' = s\<lparr>flag_at_recheck := Some (m_aborted (checker s)),
      dpc := (if \<not> m_aborted (checker s) then DoneNew else DoneUnlockCallback)\<rparr>"
    by (simp add: step_done_def)
  show ?thesis
    using a DoneRecheck
    by (intro handler_invI) (simp_all add: s' untouched_def reads_def)
next
  case DoneNew
  then have "dpc s \<noteq> DoneWaiting" by simp
  note a = handler_invD [OF assms(1) this]
  from assms(2) DoneNew consider e where "fallback_new t = Some (StdThrow e)"
      "s' = s\<lparr>dpc := DoneCatch e\<rparr>"
    | "fallback_new t = Some OtherThrow" "s' = s\<lparr>dpc := DonePropagate\<rparr>"
    | "fallback_new t = None" "s' = s\<lparr>checker := (checker s)
          \<lparr>m_httpSimpleGetRequest :=
             Some (CWinHTTPSimple_new (GetUpdateCheckerOptions p (m_flags (checker s)) None 0) True)\<rparr>,
           created := created s + 1, dpc := DoneSend\<rparr>"
    by (auto simp add: step_done_def split: option.splits thrown.splits)
  then show ?thesis
  proof cases
    case 1
    show ?thesis
      using a DoneNew 1(1)
      by (intro handler_invI) (simp_all add: 1(2) handler_defs fallback_attempt_def)
  next
    case 2
    show ?thesis
      using a DoneNew 2(1)
      by (intro handler_invI) (simp_all add: 2(2) handler_defs fallback_attempt_def)
  next
    case 3
    show ?thesis
      using a DoneNew 3(1)
      by (intro handler_invI) (simp_all add: 3(2) handler_defs CWinHTTPSimple_new_def)
  qed
next
  case DoneSend
  then have "dpc s \<noteq> DoneWaiting" by simp
  note a = handler_invD [OF assms(1) this]
  from a(3) DoneSend obtain g where g: "m_httpSimpleGetRequest (checker s) = Some g"
      "get_exchange p (m_flags (checker s)) g" and new: "fallback_new t = None"
      and none: "sent Fallback (effects (checker s)) = []" and tr: "in_try s"
    by (auto split: option.splits)
  let ?c = "emit (SendRequestCalled Fallback g) (checker s)"
  from assms(2) DoneSend g(1) consider e where "fallback_attempt t = Caught e"
      "s' = s\<lparr>checker := ?c, dpc := DoneCatch e\<rparr>"
    | "fallback_attempt t = Escaped" "s' = s\<lparr>checker := ?c, dpc := DonePropagate\<rparr>"
    | "fallback_attempt t = Sent" "s' = s\<lparr>checker := ?c
          \<lparr>m_httpSimpleGetRequest := Some (g\<lparr>onDone := Some CallOnUpdateCheckDone\<rparr>)\<rparr>,
        dpc := DoneUnlockReturn\<rparr>"
    using new
    by (auto simp add: step_done_def Let_def THROW_IF_FAILED_def fallback_attempt_def
        split: thrown.splits async_send.splits if_splits)
  then show ?thesis
  proof cases
    case 1
    show ?thesis
      using a(1,2) g new none tr 1(1)
      by (intro handler_invI) (simp_all add: 1(2) handler_defs)
  next
    case 2
    show ?thesis
      using a(1,2) g new none tr 2(1)
      by (intro handler_invI) (simp_all add: 2(2) handler_defs)
  next
    case 3
    show ?thesis
      using a(1,2) g new none tr 3(1)
      by (intro handler_invI) (simp_all add: 3(2) handler_defs)
  qed
next
  case (DoneCatch e)
  then have "dpc s \<noteq> DoneWaiting" by simp
  note a = handler_invD [OF assms(1) this]
  from assms(2) DoneCatch have s': "s' = s\<lparr>checker := catch_get_request e (checker s),
      dpc := DoneUnlockReturn\<rparr>"
    by (simp add: step_done_def)
  show ?thesis
    using a DoneCatch
    by (intro handler_invI) (simp_all add: s' handler_defs)
next
  case DonePropagate
  then have "dpc s \<noteq> DoneWaiting" by simp
  note a = handler_invD [OF assms(1) this]
  from assms(2) DonePropagate have s': "s' = s\<lparr>mutex := None, dpc := DoneThrown\<rparr>"
    by (simp add: step_done_def)
  show ?thesis
    using a DonePropagate
    by (intro handler_invI) (simp_all add: s' handler_defs)
next
  case DoneUnlockReturn
  then have "dpc s \<noteq> DoneWaiting" by simp
  note a = handler_invD [OF assms(1) this]
  from assms(2) DoneUnlockReturn have s': "s' = s\<lparr>mutex := None, dpc := DoneFinished\<rparr>"
    by (simp add: step_done_def)
  have "attempted t s'"
    using a(3) DoneUnlockReturn
    by (auto simp add: s' attempted_def reads_def split: attempt.splits)
  moreover have "flag_at_recheck s' = Some False"
    using a(3) DoneUnlockReturn by (simp add: s' attempted_def reads_def)
  ultimately show ?thesis
    using a(1,2,4,5)
    by (intro handler_invI) (simp_all add: s')
next
  case DoneUnlockCallback
  then have "dpc s \<noteq> DoneWaiting" by simp
  note a = handler_invD [OF assms(1) this]
  from assms(2) DoneUnlockCallback have s': "s' = s\<lparr>mutex := None, dpc := DoneCallback\<rparr>"
    by (simp add: step_done_def)
  show ?thesis
    using a DoneUnlockCallback
    by (intro handler_invI) (simp_all add: s' untouched_def reads_def declined_def)
next
  case DoneCallback
  then have "dpc s \<noteq> DoneWaiting" by simp
  note a = handler_invD [OF assms(1) this]
  from assms(2) DoneCallback have s': "s' = s\<lparr>checker := emit OnUpdateCheckDoneInvoked (checker s),
      dpc := DoneFinished\<rparr>"
    by (simp add: step_done_def)
  show ?thesis
    using a DoneCallback
    by (intro handler_invI) (auto simp add: s' handler_defs)
next
  case DoneFinished
  with assms(2) show ?thesis by (simp add: step_done_def)
next
  case DoneThrown
  with assms(2) show ?thesis by (simp add: step_done_def)
qed

text \<open>
  \<^verbatim>\<open>Abort\<close> changes the abort flag and the flags of the two exchanges, which the statements
  of the handler do not depend on.
\<close>

lemma pc_inv_cong:
  assumes "effects (checker s') = effects (checker s)"
    and "m_flags (checker s') = m_flags (checker s)"
    and "ShouldRetryWithAGetRequest (checker s') = ShouldRetryWithAGetRequest (checker s)"
    and "m_httpSimpleGetRequest (checker s') = map_option f (m_httpSimpleGetRequest (checker s))"
    and "\<And>g. options (f g) = options g \<and> headers (f g) = headers g \<and> onDone (f g) = onDone g"
    and "flag_at_check s' = flag_at_check s" "flag_at_recheck s' = flag_at_recheck s"
    and "fallback_done s' = fallback_done s"
  shows "pc_inv p t s' d = pc_inv p t s d"
proof -
  have u: "untouched s' = untouched s"
    using assms by (simp add: untouched_def callback_count_def)
  have r: "\<And>a b. reads s' a b = reads s a b"
    using assms by (simp add: reads_def)
  have g: "registered (checker s') = registered (checker s)"
    using assms(4,5) by (simp add: registered_def split: option.splits)
  have i: "in_try s' = in_try s"
    using assms g r by (simp add: in_try_def callback_count_def)
  have d: "declined s' = declined s"
    using assms r by (simp add: declined_def)
  have n: "(m_httpSimpleGetRequest (checker s') = None) = (m_httpSimpleGetRequest (checker s) = None)"
    using assms(4) by simp
  have a: "attempted t s' = attempted t s"
    using assms r g n by (simp add: attempted_def callback_count_def split: attempt.splits)
  have x: "(case m_httpSimpleGetRequest (checker s') of None \<Rightarrow> False
            | Some g \<Rightarrow> get_exchange p (m_flags (checker s')) g)
         = (case m_httpSimpleGetRequest (checker s) of None \<Rightarrow> False
            | Some g \<Rightarrow> get_exchange p (m_flags (checker s)) g)"
    using assms(2,4,5) by (simp add: get_exchange_def split: option.splits)
  show ?thesis
    using u r i d n a x assms(1,3,6,7,8)
    by (cases d) (simp_all add: callback_count_def)
qed

lemma handler_inv_cong:
  assumes "handler_inv p t s"
    and "effects (checker s') = effects (checker s)"
    and "m_flags (checker s') = m_flags (checker s)"
    and "m_onUpdateCheckDone (checker s') = m_onUpdateCheckDone (checker s)"
    and "onDone (m_httpSimple (checker s')) = onDone (m_httpSimple (checker s))"
    and "ShouldRetryWithAGetRequest (checker s') = ShouldRetryWithAGetRequest (checker s)"
    and "m_httpSimpleGetRequest (checker s') = map_option f (m_httpSimpleGetRequest (checker s))"
    and "\<And>g. options (f g) = options g \<and> headers (f g) = headers g \<and> onDone (f g) = onDone g"
    and "flag_at_check s' = flag_at_check s" "flag_at_recheck s' = flag_at_recheck s"
    and "fallback_done s' = fallback_done s" "dpc s' = dpc s"
  shows "handler_inv p t s'"
proof -
  have pc: "pc_inv p t s' (dpc s) = pc_inv p t s (dpc s)"
    using assms(2,3,6,7,8,9,10,11) by (rule pc_inv_cong)
  have g: "registered (checker s') = registered (checker s)"
    using assms(7,8) by (simp add: registered_def split: option.splits)
  show ?thesis
    using assms(1) pc g assms(2-5,9-12)
    by (auto simp add: handler_inv_def reads_def callback_count_def split: if_splits)
qed

lemma handler_inv_step_abort:
  assumes "handler_inv p t s" "step_abort s = Some s'"
  shows "handler_inv p t s'"
proof (cases "apc s")
  case AbortIdle
  with assms(2) have s': "s' = s\<lparr>checker := (checker s)\<lparr>m_aborted := True\<rparr>, apc := AbortPrimary\<rparr>"
    by (simp add: step_abort_def)
  show ?thesis
    by (rule handler_inv_cong [OF assms(1), where f = id])
      (simp_all add: s' ShouldRetryWithAGetRequest_def option.map_id)
next
  case AbortPrimary
  with assms(2) have s': "s' = s\<lparr>checker := (checker s)
        \<lparr>m_httpSimple := CWinHTTPSimple_Abort (m_httpSimple (checker s))\<rparr>, apc := AbortLock\<rparr>"
    by (simp add: step_abort_def)
  show ?thesis
    by (rule handler_inv_cong [OF assms(1), where f = id])
      (simp_all add: s' ShouldRetryWithAGetRequest_def CWinHTTPSimple_Abort_def option.map_id)
next
  case AbortLock
  with assms(2) have s': "s' = s\<lparr>mutex := Some AbortThread, apc := AbortFallback\<rparr>"
    by (simp_all add: step_abort_def split: if_splits)
  show ?thesis
    by (rule handler_inv_cong [OF assms(1), where f = id]) (simp_all add: s' option.map_id)
next
  case AbortFallback
  with assms(2) have s': "s' = s\<lparr>checker :=
        (case m_httpSimpleGetRequest (checker s) of
           None \<Rightarrow> checker s
         | Some g \<Rightarrow> (checker s)\<lparr>m_httpSimpleGetRequest := Some (CWinHTTPSimple_Abort g)\<rparr>),
        apc := AbortUnlock\<rparr>"
    by (simp add: step_abort_def)
  show ?thesis
    by (rule handler_inv_cong [OF assms(1), where f = CWinHTTPSimple_Abort])
      (simp_all add: s' ShouldRetryWithAGetRequest_def CWinHTTPSimple_Abort_def
        split: option.splits)
next
  case AbortUnlock
  with assms(2) have s': "s' = s\<lparr>mutex := None, apc := AbortIdle,
        abort_returns := abort_returns s + 1\<rparr>"
    by (simp add: step_abort_def)
  show ?thesis
    by (rule handler_inv_cong [OF assms(1), where f = id]) (simp_all add: s' option.map_id)
qed

lemma handler_inv_step:
  assumes "handler_inv p t s" "step p t a s = Some s'"
  shows "handler_inv p t s'"
proof (cases a)
  case AbortStep
  with assms show ?thesis by (simp add: step_def handler_inv_step_abort)
next
  case DoneStep
  with assms show ?thesis by (simp add: step_def handler_inv_step_done)
next
  case (PrimaryCompletes r)
  with assms(2) have w: "dpc s = DoneWaiting"
    "onDone (m_httpSimple (checker s)) = Some CallOnRequestDone"
    and s': "s' = s\<lparr>checker := (checker s)
        \<lparr>m_httpSimple := store_reply r (m_httpSimple (checker s))\<rparr>, dpc := DoneCheck\<rparr>"
    by (simp_all add: step_def split: if_splits)
  show ?thesis
    using assms(1) w
    by (auto simp add: handler_inv_def s' store_reply_def untouched_def reads_def
        callback_count_def split: if_splits)
next
  case (FallbackCompletes r)
  with assms(2) have en: "registered (checker s)" "\<not> fallback_done s"
    and s': "s' = s\<lparr>checker :=
        emit OnUpdateCheckDoneInvoked
          ((checker s)\<lparr>m_httpSimpleGetRequest :=
             map_option (store_reply r) (m_httpSimpleGetRequest (checker s))\<rparr>),
        fallback_done := True\<rparr>"
    by (simp_all add: step_def split: if_splits)
  from en(1) obtain g where g: "m_httpSimpleGetRequest (checker s) = Some g"
      "onDone g = Some CallOnUpdateCheckDone"
    by (auto simp add: registered_def split: option.splits)
  have async: "m_onUpdateCheckDone (checker s)"
    using assms(1) en(1) by (auto simp add: handler_inv_def split: if_splits)
  have pc: "dpc s = DoneUnlockReturn \<or> dpc s = DoneFinished"
    using assms(1) async en g
    by (cases "dpc s") (auto simp add: handler_inv_def untouched_def in_try_def)
  have at: "attempted t s" "flag_at_recheck s = Some False"
    using assms(1) async pc en g
    by (auto simp add: handler_inv_def declined_def reads_def attempted_def split: if_splits)
  then have sent: "fallback_attempt t = Sent" "callback_count (checker s) = 0"
    "get_request_failures (effects (checker s)) = []" "sent Fallback (effects (checker s)) \<noteq> []"
    "ShouldRetryWithAGetRequest (checker s)" "flag_at_check s = Some False"
    using en g by (auto simp add: attempted_def reads_def split: attempt.splits)
  have at': "attempted t s'"
    using sent at(2) g
    by (simp add: s' attempted_def reads_def registered_def emit_def callback_count_def
        store_reply_def sent_append get_request_failures_append ShouldRetryWithAGetRequest_def)
  have "pc_inv p t s' (dpc s')"
    using pc at' at(2) by (auto simp add: s')
  moreover have "m_onUpdateCheckDone (checker s')"
    "onDone (m_httpSimple (checker s')) = Some CallOnRequestDone"
    "list_all (get_exchange p (m_flags (checker s'))) (sent Fallback (effects (checker s')))"
    "length (sent Fallback (effects (checker s'))) \<le> 1"
    using assms(1) async by (simp_all add: handler_inv_def s' emit_def sent_append)
  ultimately show ?thesis
    by (intro handler_invI)
qed

lemma reachable_handler: "reachable p t s \<Longrightarrow> handler_inv p t s"
  by (induction rule: reachable.induct) (auto intro: handler_inv_init handler_inv_step)


subsection \<open>Single steps, and the steps of one call run without interference\<close>

lemma Abort_with_idem:
  assumes "\<And>x. exchange_abort (exchange_abort x) = exchange_abort x"
  shows "Abort_with exchange_abort (Abort_with exchange_abort uc) = Abort_with exchange_abort uc"
  using assms by (cases "m_httpSimpleGetRequest uc") (simp_all add: Abort_with_def Let_def)

lemma Abort_idem: "Abort (Abort uc) = Abort uc"
  unfolding Abort_def by (rule Abort_with_idem) (simp add: CWinHTTPSimple_Abort_def)

lemma Abort_eq:
  "Abort uc = uc\<lparr>m_aborted := True,
                m_httpSimple := (m_httpSimple uc)\<lparr>abortCalled := True\<rparr>,
                m_httpSimpleGetRequest :=
                  map_option (\<lambda>g. g\<lparr>abortCalled := True\<rparr>) (m_httpSimpleGetRequest uc)\<rparr>"
  by (cases "m_httpSimpleGetRequest uc")
    (simp_all add: Abort_def Abort_with_def Let_def CWinHTTPSimple_Abort_def)

lemma step_abort_created:
  "step_abort s = Some s' \<Longrightarrow>
     created s' = created s
   \<and> (m_httpSimpleGetRequest (checker s') = None) = (m_httpSimpleGetRequest (checker s) = None)"
  by (cases "apc s") (auto simp add: step_abort_def split: if_splits option.splits)

lemma step_abort_flag: "step_abort s = Some s' \<Longrightarrow> m_aborted (checker s) \<Longrightarrow> m_aborted (checker s')"
  by (cases "apc s") (auto simp add: step_abort_def split: if_splits option.splits)

lemma step_done_created:
  "step_done p t s = Some s' \<Longrightarrow>
   created s' \<noteq> created s
     \<or> (m_httpSimpleGetRequest (checker s) = None \<and> m_httpSimpleGetRequest (checker s') \<noteq> None) \<Longrightarrow>
   dpc s = DoneNew"
  by (cases "dpc s")
    (auto simp add: step_done_def Let_def emit_def catch_get_request_def
      split: if_splits option.splits thrown.splits async_send.splits sum.splits)

lemma step_done_flag:
  "step_done p t s = Some s' \<Longrightarrow> m_aborted (checker s') = m_aborted (checker s)"
  by (cases "dpc s")
    (auto simp add: step_done_def Let_def emit_def catch_get_request_def
      split: if_splits option.splits thrown.splits async_send.splits sum.splits)

lemma step_created:
  assumes "step p t a s = Some s'"
    "created s' \<noteq> created s
       \<or> (m_httpSimpleGetRequest (checker s) = None \<and> m_httpSimpleGetRequest (checker s') \<noteq> None)"
  shows "a = DoneStep \<and> dpc s = DoneNew"
  using assms step_abort_created [of s s'] step_done_created [of p t s s']
  by (cases a) (auto simp add: step_def emit_def split: if_splits)

lemma step_flag:
  assumes "step p t a s = Some s'" "m_aborted (checker s)"
  shows "m_aborted (checker s')"
  using assms step_abort_flag [of s s'] step_done_flag [of p t s s']
  by (cases a) (auto simp add: step_def emit_def split: if_splits)

lemma run_reachable: "reachable p t s \<Longrightarrow> run p t as s = Some s' \<Longrightarrow> reachable p t s'"
  by (induction as arbitrary: s) (auto split: option.splits intro: reachable_step)

text \<open>
  The statements agree with the function: the five steps of \<^verbatim>\<open>Abort\<close>, run without
  interference, do what \<open>Abort\<close> does.
\<close>

lemma abort_steps_Abort:
  assumes "apc s = AbortIdle" "mutex s = None"
  shows "run p t [AbortStep, AbortStep, AbortStep, AbortStep, AbortStep] s =
           Some (s\<lparr>checker := Abort (checker s), abort_returns := abort_returns s + 1\<rparr>)"
  using assms
  by (cases "m_httpSimpleGetRequest (checker s)")
    (simp_all add: step_def step_abort_def Abort_def Abort_with_def Let_def)


subsection \<open>What the invariants say about a reachable state\<close>

lemma reachable_async:
  assumes "reachable p t s" "m_onUpdateCheckDone (checker s)"
  shows "pc_inv p t s (dpc s)"
    and "onDone (m_httpSimple (checker s)) = Some CallOnRequestDone"
    and "list_all (get_exchange p (m_flags (checker s))) (sent Fallback (effects (checker s)))"
    and "length (sent Fallback (effects (checker s))) \<le> 1"
  using reachable_handler [OF assms(1)] assms(2) by (simp_all add: handler_inv_def)

lemma attempted_cases:
  assumes "attempted t s"
  shows "ShouldRetryWithAGetRequest (checker s)" "flag_at_check s = Some False"
    "flag_at_recheck s = Some False"
    "(sent Fallback (effects (checker s)) \<noteq> []) = (fallback_new t = None)"
    "callback_count (checker s) = (if registered (checker s) \<and> \<not> fallback_done s then 0 else 1)"
    "get_request_failures (effects (checker s)) \<noteq> [] \<Longrightarrow>
       m_httpSimpleGetRequest (checker s) = None \<and> callback_count (checker s) = 1"
  using assms
  by (auto simp add: attempted_def reads_def fallback_attempt_def registered_def
      split: attempt.splits option.splits thrown.splits async_send.splits if_splits)

lemma issued_reads:
  assumes "reachable p t s" "m_onUpdateCheckDone (checker s)" "fallback_issued (checker s)"
  shows "ShouldRetryWithAGetRequest (checker s) \<and> flag_at_check s = Some False
       \<and> flag_at_recheck s = Some False \<and> fallback_new t = None"
proof -
  note pc = reachable_async(1) [OF assms(1,2)]
  have sent: "sent Fallback (effects (checker s)) \<noteq> []"
    using assms(3) by (simp add: fallback_issued_def)
  show ?thesis
    using pc sent attempted_cases(1-4) [of t s]
    by (cases "dpc s") (auto simp add: untouched_def in_try_def reads_def split: if_splits)
qed

lemma finished_issued:
  assumes "reachable p t s" "m_onUpdateCheckDone (checker s)"
    "dpc s = DoneFinished \<or> dpc s = DoneThrown"
  shows "fallback_issued (checker s) =
           (ShouldRetryWithAGetRequest (checker s) \<and> flag_at_check s = Some False
            \<and> flag_at_recheck s = Some False \<and> fallback_new t = None)"
proof -
  note pc = reachable_async(1) [OF assms(1,2)]
  show ?thesis
    using assms(3) pc attempted_cases(1-4) [of t s]
    by (auto simp add: fallback_issued_def in_try_def reads_def declined_def split: if_splits)
qed

lemma callback_once:
  assumes "reachable p t s" "m_onUpdateCheckDone (checker s)"
  shows "callback_count (checker s) \<le> 1"
    and "dpc s = DoneFinished \<Longrightarrow>
           callback_count (checker s) = (if registered (checker s) \<and> \<not> fallback_done s then 0 else 1)"
    and "registered (checker s) \<and> \<not> fallback_done s \<Longrightarrow> callback_count (checker s) = 0"
proof -
  note pc = reachable_async(1) [OF assms(1,2)]
  show "callback_count (checker s) \<le> 1"
    using pc attempted_cases(5) [of t s]
    by (cases "dpc s") (auto simp add: untouched_def in_try_def split: if_splits)
  show "dpc s = DoneFinished \<Longrightarrow>
           callback_count (checker s) = (if registered (checker s) \<and> \<not> fallback_done s then 0 else 1)"
    using pc attempted_cases(5) [of t s]
    by (auto simp add: registered_def split: if_splits)
  show "registered (checker s) \<and> \<not> fallback_done s \<Longrightarrow> callback_count (checker s) = 0"
    using pc attempted_cases(5) [of t s]
    by (cases "dpc s") (auto simp add: untouched_def in_try_def registered_def split: if_splits)
qed

lemma logged_failure:
  assumes "reachable p t s" "m_onUpdateCheckDone (checker s)"
    "get_request_failures (effects (checker s)) \<noteq> []"
  shows "m_httpSimpleGetRequest (checker s) = None" "callback_count (checker s) = 1"
    "ShouldRetryWithAGetRequest (checker s)"
    "dpc s = DoneUnlockReturn \<or> dpc s = DoneFinished"
proof -
  note pc = reachable_async(1) [OF assms(1,2)]
  have "m_httpSimpleGetRequest (checker s) = None \<and> callback_count (checker s) = 1
      \<and> ShouldRetryWithAGetRequest (checker s)
      \<and> (dpc s = DoneUnlockReturn \<or> dpc s = DoneFinished)"
    using pc assms(3) attempted_cases(1,6) [of t s]
    by (cases "dpc s") (auto simp add: untouched_def in_try_def split: if_splits)
  then show "m_httpSimpleGetRequest (checker s) = None" "callback_count (checker s) = 1"
    "ShouldRetryWithAGetRequest (checker s)"
    "dpc s = DoneUnlockReturn \<or> dpc s = DoneFinished"
    by simp_all
qed

lemma caught_cause:
  "fallback_attempt t = Caught e \<Longrightarrow>
     fallback_new t = Some (StdThrow e)
   \<or> (fallback_new t = None \<and> fallback_async t = AsyncThrew (StdThrow e))
   \<or> (fallback_new t = None
        \<and> (\<exists>hr. fallback_async t = AsyncReturned hr \<and> FAILED hr \<and> e = ResultException hr))"
  by (auto simp add: fallback_attempt_def
      split: option.splits thrown.splits async_send.splits if_splits)

lemma escaped_cause:
  "fallback_attempt t = Escaped \<Longrightarrow>
     fallback_new t = Some OtherThrow
   \<or> (fallback_new t = None \<and> fallback_async t = AsyncThrew OtherThrow)"
  by (auto simp add: fallback_attempt_def
      split: option.splits thrown.splits async_send.splits if_splits)

lemma at_catch:
  assumes "reachable p t s" "dpc s = DoneCatch e"
  shows "fallback_attempt t = Caught e" "mutex s = Some CompletionThread"
    "callback_count (checker s) = 0" "get_request_failures (effects (checker s)) = []"
    "step p t DoneStep s =
       Some (s\<lparr>checker := catch_get_request e (checker s), dpc := DoneUnlockReturn\<rparr>)"
proof -
  have "dpc s \<noteq> DoneWaiting" using assms(2) by simp
  note a = handler_invD [OF reachable_handler [OF assms(1)] this]
  show "fallback_attempt t = Caught e" "callback_count (checker s) = 0"
    "get_request_failures (effects (checker s)) = []"
    using a(3) assms(2) by (simp_all add: in_try_def)
  show "mutex s = Some CompletionThread"
    using sys_invD(1) [OF reachable_inv [OF assms(1)]] assms(2) by simp
  show "step p t DoneStep s =
       Some (s\<lparr>checker := catch_get_request e (checker s), dpc := DoneUnlockReturn\<rparr>)"
    using assms(2) by (simp add: step_def step_done_def)
qed

lemma at_thrown:
  assumes "reachable p t s" "dpc s = DoneThrown \<or> dpc s = DonePropagate"
  shows "fallback_attempt t = Escaped" "callback_count (checker s) = 0"
    "\<not> registered (checker s)" "get_request_failures (effects (checker s)) = []"
    "(m_httpSimpleGetRequest (checker s) = None) = (fallback_new t \<noteq> None)"
    "\<not> fallback_done s"
proof -
  have "dpc s \<noteq> DoneWaiting" using assms(2) by auto
  note a = handler_invD [OF reachable_handler [OF assms(1)] this]
  have "fallback_attempt t = Escaped \<and> callback_count (checker s) = 0
      \<and> \<not> registered (checker s) \<and> get_request_failures (effects (checker s)) = []
      \<and> (m_httpSimpleGetRequest (checker s) = None) = (fallback_new t \<noteq> None)
      \<and> \<not> fallback_done s"
    using a(3) assms(2) by (auto simp add: in_try_def)
  then show "fallback_attempt t = Escaped" "callback_count (checker s) = 0"
    "\<not> registered (checker s)" "get_request_failures (effects (checker s)) = []"
    "(m_httpSimpleGetRequest (checker s) = None) = (fallback_new t \<noteq> None)"
    "\<not> fallback_done s"
    by simp_all
qed

lemma thrown_stays:
  assumes "reachable p t s" "dpc s = DoneThrown" "step p t a s = Some s'"
  shows "a = AbortStep \<and> dpc s' = DoneThrown"
proof -
  have nr: "\<not> registered (checker s)"
    using at_thrown(3) [OF assms(1)] assms(2) by simp
  have "step_abort s = Some s' \<Longrightarrow> dpc s' = dpc s"
    by (cases "apc s") (auto simp add: step_abort_def split: if_splits)
  then show ?thesis
    using assms(2,3) nr by (cases a) (auto simp add: step_def step_done_def split: if_splits)
qed

text \<open>The handler is never stuck: a statement of it can run, or \<^verbatim>\<open>Abort\<close> holds the mutex and can go on.\<close>

lemma handler_progress:
  assumes "reachable p t s" "dpc s \<noteq> DoneWaiting" "dpc s \<noteq> DoneFinished" "dpc s \<noteq> DoneThrown"
  shows "(\<exists>s'. step p t DoneStep s = Some s')
       \<or> (dpc s = DoneLock \<and> mutex s = Some AbortThread \<and> (\<exists>s'. step p t AbortStep s = Some s'))"
proof (cases "dpc s")
  case DoneLock
  note d = sys_invD [OF reachable_inv [OF assms(1)]]
  show ?thesis
  proof (cases "mutex s")
    case None
    then show ?thesis using DoneLock by (simp add: step_def step_done_def)
  next
    case (Some th)
    then have "mutex s = Some AbortThread"
      using d(1) DoneLock by (cases th) simp_all
    moreover from this have "apc s = AbortFallback \<or> apc s = AbortUnlock"
      using d(2) by simp
    then have "\<exists>s'. step p t AbortStep s = Some s'"
      by (auto simp add: step_def step_abort_def)
    ultimately show ?thesis using DoneLock by simp
  qed
next
  case DoneSend
  then have "dpc s \<noteq> DoneWaiting" by simp
  note a = handler_invD [OF reachable_handler [OF assms(1)] this]
  from a(3) DoneSend obtain g where "m_httpSimpleGetRequest (checker s) = Some g"
    by (auto split: option.splits)
  then have "\<exists>s'. step p t DoneStep s = Some s'"
    using DoneSend
    by (auto simp add: step_def step_done_def Let_def
        split: async_send.splits thrown.splits sum.splits)
  then show ?thesis by simp
next
  case DoneNew
  then have "\<exists>s'. step p t DoneStep s = Some s'"
    by (auto simp add: step_def step_done_def split: option.splits thrown.splits)
  then show ?thesis by simp
qed (insert assms, auto simp add: step_def step_done_def)


subsection \<open>Example interleavings\<close>

lemma retry_eval:
  "ShouldRetryWithAGetRequest c =
     (requestResult (m_httpSimple c) = 0x80072F76 \<and> lastStatusCode (m_httpSimple c) = 405)"
  by (simp add: ShouldRetryWithAGetRequest_def invalid_header_value)

lemmas run_eval = step_def step_done_def step_abort_def init_sys_def Let_def emit_def
  THROW_IF_FAILED_def FAILED_def S_OK_def example_transport_def retry_eval store_reply_def
  reply_405_def reply_200_def invalid_header_value
  CWinHTTPSimple_Abort_def registered_def catch_get_request_def
  callback_count_def fallback_issued_def sent_append get_request_failures_append
  CWinHTTPSimple_new_def

lemma example_trace_recheck_fails:
  assumes "onDone (m_httpSimple uc) = Some CallOnRequestDone" "\<not> m_aborted uc"
    "m_httpSimpleGetRequest uc = None" "sent Fallback (effects uc) = []" "callback_count uc = 0"
  shows "\<exists>s. run p t [PrimaryCompletes reply_405, DoneStep, AbortStep, DoneStep, DoneStep,
                       DoneStep, DoneStep] (init_sys uc) = Some s
          \<and> dpc s = DoneFinished \<and> ShouldRetryWithAGetRequest (checker s)
          \<and> flag_at_check s = Some False \<and> flag_at_recheck s = Some True
          \<and> m_httpSimpleGetRequest (checker s) = None \<and> \<not> registered (checker s)
          \<and> m_onUpdateCheckDone (checker s) = m_onUpdateCheckDone uc"
  using assms by (simp add: run_eval)

lemma example_trace_flag_set_late:
  assumes "onDone (m_httpSimple uc) = Some CallOnRequestDone" "\<not> m_aborted uc"
    "m_httpSimpleGetRequest uc = None" "sent Fallback (effects uc) = []" "callback_count uc = 0"
  shows "\<exists>s. run p (example_transport reply_405)
            [PrimaryCompletes reply_405, DoneStep, DoneStep, DoneStep, AbortStep, DoneStep,
             DoneStep, DoneStep] (init_sys uc) = Some s
          \<and> dpc s = DoneFinished \<and> ShouldRetryWithAGetRequest (checker s)
          \<and> m_aborted (checker s)
          \<and> flag_at_check s = Some False \<and> flag_at_recheck s = Some False
          \<and> m_onUpdateCheckDone (checker s) = m_onUpdateCheckDone uc"
  using assms by (simp add: run_eval)

lemma example_trace_aborted_first:
  assumes "onDone (m_httpSimple uc) = Some CallOnRequestDone" "\<not> m_aborted uc"
    "m_httpSimpleGetRequest uc = None" "sent Fallback (effects uc) = []" "callback_count uc = 0"
  shows "\<exists>s. run p t [AbortStep, AbortStep, AbortStep, AbortStep, AbortStep,
                       PrimaryCompletes reply_405, DoneStep, DoneStep] (init_sys uc) = Some s
          \<and> dpc s = DoneFinished \<and> abort_returns s = 1
          \<and> ShouldRetryWithAGetRequest (checker s)
          \<and> requestResult (m_httpSimple (checker s)) = HRESULT_FROM_WIN32 ERROR_WINHTTP_INVALID_HEADER
          \<and> lastStatusCode (m_httpSimple (checker s)) = 405
          \<and> \<not> fallback_issued (checker s) \<and> m_httpSimpleGetRequest (checker s) = None
          \<and> callback_count (checker s) = 1"
  using assms by (simp add: run_eval)

lemma example_trace_success:
  assumes "onDone (m_httpSimple uc) = Some CallOnRequestDone" "\<not> m_aborted uc"
    "m_httpSimpleGetRequest uc = None" "sent Fallback (effects uc) = []" "callback_count uc = 0"
  shows "\<exists>s. run p t [PrimaryCompletes reply_200, DoneStep, DoneStep] (init_sys uc) = Some s
          \<and> dpc s = DoneFinished \<and> SUCCEEDED (requestResult (m_httpSimple (checker s)))
          \<and> m_onUpdateCheckDone (checker s) = m_onUpdateCheckDone uc"
  using assms by (simp add: run_eval SUCCEEDED_def)

lemma example_trace_before_new:
  assumes "onDone (m_httpSimple uc) = Some CallOnRequestDone" "\<not> m_aborted uc"
    "m_httpSimpleGetRequest uc = None"
  shows "\<exists>s. run p (example_transport reply_405)
            [PrimaryCompletes reply_405, DoneStep, DoneStep, DoneStep] (init_sys uc) = Some s
          \<and> dpc s = DoneNew \<and> created s = 0 \<and> \<not> m_aborted (checker s)
          \<and> m_httpSimpleGetRequest (checker s) = None
          \<and> (\<exists>s'. step p (example_transport reply_405) DoneStep s = Some s' \<and> created s' = 1
                \<and> m_httpSimpleGetRequest (checker s') \<noteq> None)"
  using assms by (simp add: run_eval)

lemma example_trace_abort_last:
  assumes "onDone (m_httpSimple uc) = Some CallOnRequestDone" "\<not> m_aborted uc"
    "m_httpSimpleGetRequest uc = None"
  shows "\<exists>s. run p (example_transport reply_405)
            [PrimaryCompletes reply_405, DoneStep, DoneStep, DoneStep, DoneStep, DoneStep, DoneStep,
             AbortStep, AbortStep, AbortStep, AbortStep, AbortStep] (init_sys uc) = Some s
          \<and> abort_returns s = 1 \<and> m_httpSimpleGetRequest (checker s) \<noteq> None
          \<and> (\<exists>s'. step p (example_transport reply_405) AbortStep s = Some s')"
  using assms by (simp add: run_eval)

lemma example_trace_race:
  assumes "onDone (m_httpSimple uc) = Some CallOnRequestDone" "\<not> m_aborted uc"
    "m_httpSimpleGetRequest uc = None"
  shows "\<exists>s. run p (example_transport reply_405)
            [PrimaryCompletes reply_405, DoneStep, DoneStep, DoneStep, AbortStep] (init_sys uc) = Some s
          \<and> m_aborted (checker s) \<and> created s = 0 \<and> m_httpSimpleGetRequest (checker s) = None
          \<and> (\<exists>s'. step p (example_transport reply_405) DoneStep s = Some s' \<and> created s' = 1
                \<and> m_httpSimpleGetRequest (checker s') \<noteq> None)"
  using assms by (simp add: run_eval)

lemma example_trace_race_goes_on:
  assumes "onDone (m_httpSimple uc) = Some CallOnRequestDone" "\<not> m_aborted uc"
    "m_httpSimpleGetRequest uc = None"
  shows "\<exists>s. run p (example_transport reply_405)
            [PrimaryCompletes reply_405, DoneStep, DoneStep, DoneStep, AbortStep, DoneStep,
             DoneStep, DoneStep, AbortStep, AbortStep, AbortStep, AbortStep] (init_sys uc) = Some s
          \<and> abort_returns s = 1
          \<and> (case m_httpSimpleGetRequest (checker s) of None \<Rightarrow> False | Some g \<Rightarrow> abortCalled g)"
  using assms by (simp add: run_eval)

lemma example_trace_send_fails:
  assumes "onDone (m_httpSimple uc) = Some CallOnRequestDone" "\<not> m_aborted uc"
    "m_httpSimpleGetRequest uc = None" "callback_count uc = 0"
    "get_request_failures (effects uc) = []"
  shows "\<exists>s. run p ((example_transport reply_405)\<lparr>fallback_async := AsyncThrew (StdThrow e)\<rparr>)
            [PrimaryCompletes reply_405, DoneStep, DoneStep, DoneStep, DoneStep, DoneStep]
            (init_sys uc) = Some s
          \<and> dpc s = DoneCatch e \<and> m_httpSimpleGetRequest (checker s) \<noteq> None
          \<and> m_onUpdateCheckDone (checker s) = m_onUpdateCheckDone uc
          \<and> get_request_failures (effects (checker s)) = []
          \<and> m_httpSimple (checker s) = store_reply reply_405 (m_httpSimple uc)"
  using assms by (simp add: run_eval)

lemma example_trace_send_escapes:
  assumes "onDone (m_httpSimple uc) = Some CallOnRequestDone" "\<not> m_aborted uc"
    "m_httpSimpleGetRequest uc = None" "callback_count uc = 0"
    "get_request_failures (effects uc) = []"
  shows "\<exists>s. run p ((example_transport reply_405)\<lparr>fallback_async := AsyncThrew OtherThrow\<rparr>)
            [PrimaryCompletes reply_405, DoneStep, DoneStep, DoneStep, DoneStep, DoneStep,
             DoneStep] (init_sys uc) = Some s
          \<and> dpc s = DoneThrown \<and> mutex s = None
          \<and> m_httpSimpleGetRequest (checker s) \<noteq> None
          \<and> get_request_failures (effects (checker s)) = []
          \<and> callback_count (checker s) = 0
          \<and> step p ((example_transport reply_405)\<lparr>fallback_async := AsyncThrew OtherThrow\<rparr>)
               DoneStep s = None
          \<and> step p ((example_transport reply_405)\<lparr>fallback_async := AsyncThrew OtherThrow\<rparr>)
               (FallbackCompletes r) s = None"
  using assms by (simp add: run_eval)

subsection \<open>What the functions of the namespace do, call by call\<close>

lemma sids_eval:
  "\<lparr>identifierAuthority = SECURITY_WORLD_SID_AUTHORITY,
    subAuthority = [SECURITY_WORLD_RID]\<rparr> = world_sid"
  "\<lparr>identifierAuthority = SECURITY_MANDATORY_LABEL_AUTHORITY,
    subAuthority = [SECURITY_MANDATORY_MEDIUM_RID]\<rparr> = medium_label_sid"
  by (simp_all add: world_sid_def medium_label_sid_def SECURITY_WORLD_SID_AUTHORITY_def
      SECURITY_WORLD_RID_def SECURITY_MANDATORY_LABEL_AUTHORITY_def
      SECURITY_MANDATORY_MEDIUM_RID_def)

lemma add_world_sid_eq:
  "add_world_sid orc b s =
     (let c1 = CallAllocateAndInitializeSid SECURITY_WORLD_SID_AUTHORITY 1
                 [SECURITY_WORLD_RID, 0, 0, 0, 0, 0, 0, 0];
          c2 = CallAddSIDToBoundaryDescriptor b world_sid in
      if forced_failure orc c1 then (Inl (last_error_exception orc c1), s\<lparr>calls := calls s @ [c1]\<rparr>)
      else if forced_failure orc c2
        then (Inl (last_error_exception orc c2), s\<lparr>calls := calls s @ [c1, c2]\<rparr>)
        else (Inr (b\<lparr>bd_sids := bd_sids b @ [world_sid]\<rparr>), s\<lparr>calls := calls s @ [c1, c2]\<rparr>))"
  by (simp add: add_world_sid_def AllocateAndInitializeSid_def AddSIDToBoundaryDescriptor_def
      Let_def log_call_def release_def sids_eval)

lemma add_medium_label_eq:
  "add_medium_label orc b s =
     (let c1 = CallAllocateAndInitializeSid SECURITY_MANDATORY_LABEL_AUTHORITY 1
                 [SECURITY_MANDATORY_MEDIUM_RID, 0, 0, 0, 0, 0, 0, 0];
          c2 = CallAddIntegrityLabelToBoundaryDescriptor b medium_label_sid in
      if forced_failure orc c1 then (Inl (last_error_exception orc c1), s\<lparr>calls := calls s @ [c1]\<rparr>)
      else if forced_failure orc c2
        then (Inl (last_error_exception orc c2), s\<lparr>calls := calls s @ [c1, c2]\<rparr>)
        else (Inr (b\<lparr>bd_labels := bd_labels b @ [medium_label_sid]\<rparr>),
              s\<lparr>calls := calls s @ [c1, c2]\<rparr>))"
  by (simp add: add_medium_label_def AllocateAndInitializeSid_def
      AddIntegrityLabelToBoundaryDescriptor_def Let_def log_call_def release_def sids_eval)

lemma BuildBoundaryDescriptor_eq:
  "BuildBoundaryDescriptor orc name s =
     (case find (forced_failure orc) (boundary_calls name) of
        Some c \<Rightarrow>
          (Inl (last_error_exception orc c),
           s\<lparr>calls := calls s @ until_failure orc (boundary_calls name)\<rparr>)
      | None \<Rightarrow>
          (Inr \<lparr>bd_name = name, bd_flags = 0, bd_sids = [world_sid], bd_labels = [medium_label_sid]\<rparr>,
           s\<lparr>live := live s + 1, calls := calls s @ boundary_calls name\<rparr>))"
  by (simp add: BuildBoundaryDescriptor_def CreateBoundaryDescriptor_def add_world_sid_eq
      add_medium_label_eq Let_def log_call_def release_def boundary_calls_def)


lemma szPrivateNamespaceName_eq:
  "szPrivateNamespaceName pid = ''WindhawkSession'' @ dec_digits (unat pid)"
  by (simp add: szPrivateNamespaceName_def MakeName_eq)

lemma Create_eq:
  "Create orc pid s =
     (case find (forced_failure orc) (create_calls pid) of
        Some c \<Rightarrow>
          (Inl (last_error_exception orc c),
           s\<lparr>calls := calls s @ until_failure orc (create_calls pid)\<rparr>)
      | None \<Rightarrow>
          if session_boundary pid \<in> set (namespaces s)
          then (Inl (last_error_exception orc (last (create_calls pid))),
                s\<lparr>calls := calls s @ create_calls pid\<rparr>)
          else (Inr \<lparr>h_boundary = session_boundary pid, h_alias = szPrivateNamespaceName pid,
                     h_destroy = True\<rparr>,
                s\<lparr>namespaces := session_boundary pid # namespaces s,
                  calls := calls s @ create_calls pid\<rparr>))"
  by (simp add: Create_def BuildBoundaryDescriptor_eq GetFullAccessSecurityDescriptor_def
      CreatePrivateNamespace_def Let_def log_call_def release_def create_calls_def
      boundary_calls_def session_boundary_def)

lemma Open_eq:
  "Open orc pid s =
     (case find (forced_failure orc) (open_calls pid) of
        Some c \<Rightarrow>
          (Inl (last_error_exception orc c),
           s\<lparr>calls := calls s @ until_failure orc (open_calls pid)\<rparr>)
      | None \<Rightarrow>
          if session_boundary pid \<in> set (namespaces s)
          then (Inr \<lparr>h_boundary = session_boundary pid, h_alias = szPrivateNamespaceName pid,
                     h_destroy = False\<rparr>,
                s\<lparr>calls := calls s @ open_calls pid\<rparr>)
          else (Inl (last_error_exception orc (last (open_calls pid))),
                s\<lparr>calls := calls s @ open_calls pid\<rparr>))"
  by (simp add: Open_def BuildBoundaryDescriptor_eq OpenPrivateNamespace_def Let_def
      log_call_def release_def open_calls_def boundary_calls_def session_boundary_def)


lemma until_failure_subset: "set (until_failure orc cs) \<subseteq> set cs"
  by (induction cs) auto

lemma until_failure_none: "find (forced_failure orc) cs = None \<Longrightarrow> until_failure orc cs = cs"
  by (induction cs) (auto split: if_splits)

lemma until_failure_forced:
  "(\<exists>c \<in> set (until_failure orc cs). forced_failure orc c) = (find (forced_failure orc) cs \<noteq> None)"
  by (induction cs) auto

lemma new_calls_append [simp]:
  "new_calls s (s\<lparr>calls := calls s @ xs\<rparr>) = xs"
  "new_calls s (s\<lparr>namespaces := ns, calls := calls s @ xs\<rparr>) = xs"
  by (simp_all add: new_calls_def)

lemma Create_new_calls:
  "new_calls s (snd (Create orc pid s)) = until_failure orc (create_calls pid)"
  by (auto simp add: Create_eq until_failure_none split: option.splits)

lemma Open_new_calls:
  "new_calls s (snd (Open orc pid s)) = until_failure orc (open_calls pid)"
  by (auto simp add: Open_eq until_failure_none split: option.splits)

lemma Create_frame:
  "live (snd (Create orc pid s)) = live s"
  "namespaces (snd (Create orc pid s)) =
     (case fst (Create orc pid s) of Inl e \<Rightarrow> namespaces s | Inr h \<Rightarrow> session_boundary pid # namespaces s)"
  by (auto simp add: Create_eq split: option.splits)

lemma Open_frame:
  "live (snd (Open orc pid s)) = live s" "namespaces (snd (Open orc pid s)) = namespaces s"
  by (auto simp add: Open_eq split: option.splits)

lemma Create_Inr:
  "(fst (Create orc pid s) = Inr h) =
     (find (forced_failure orc) (create_calls pid) = None \<and> session_boundary pid \<notin> set (namespaces s)
      \<and> h = \<lparr>h_boundary = session_boundary pid, h_alias = szPrivateNamespaceName pid,
               h_destroy = True\<rparr>)"
  by (auto simp add: Create_eq split: option.splits)

lemma Open_Inr:
  "(fst (Open orc pid s) = Inr h) =
     (find (forced_failure orc) (open_calls pid) = None \<and> session_boundary pid \<in> set (namespaces s)
      \<and> h = \<lparr>h_boundary = session_boundary pid, h_alias = szPrivateNamespaceName pid,
               h_destroy = False\<rparr>)"
  by (auto simp add: Open_eq split: option.splits)

lemma example_name: "szPrivateNamespaceName 1234 = ''WindhawkSession1234''"
  by (simp add: szPrivateNamespaceName_eq dec_digits_eval)

lemma find_no_failure: "find (forced_failure no_failure) cs = None"
  by (simp add: find_None_iff no_failure_def)

lemma example_Create:
  "Create no_failure 1234 empty_os =
     (Inr \<lparr>h_boundary = session_boundary 1234, h_alias = ''WindhawkSession1234'', h_destroy = True\<rparr>,
      \<lparr>namespaces = [session_boundary 1234], live = 0, calls = create_calls 1234\<rparr>)"
  by (simp add: Create_eq find_no_failure example_name) (simp add: empty_os_def)

lemma example_Open:
  "Open no_failure 1234 \<lparr>namespaces = [session_boundary 1234], live = 0, calls = create_calls 1234\<rparr> =
     (Inr \<lparr>h_boundary = session_boundary 1234, h_alias = ''WindhawkSession1234'', h_destroy = False\<rparr>,
      \<lparr>namespaces = [session_boundary 1234], live = 0, calls = create_calls 1234 @ open_calls 1234\<rparr>)"
  by (simp add: Open_eq find_no_failure example_name)

subsection \<open>Facts about the hook\<close>

lemma hook_body_counter:
  "m_hookProcCallCounter (snd (hook_body col call g)) = m_hookProcCallCounter g"
  by (simp add: hook_body_def HandleCreatedProcess_def Let_def hook_log_def)

lemma gate_inv_step: "gate_inv s \<Longrightarrow> gate_step col a s = Some s' \<Longrightarrow> gate_inv s'"
  by (cases a)
    (auto simp add: gate_inv_def gate_step_def hook_enter_def hook_exit_def hook_body_counter
      split: if_splits)

lemma gate_reachable_inv: "gate_reachable col s \<Longrightarrow> gate_inv s"
  by (induction rule: gate_reachable.induct)
    (auto simp add: gate_inv_step, simp add: gate_inv_def gate_init_def)


lemma gate_run_reachable:
  "gate_reachable col s \<Longrightarrow> gate_run col as s = Some s' \<Longrightarrow> gate_reachable col s'"
  by (induction as arbitrary: s) (auto split: option.splits intro: gate_reachable_step)

lemma example_gate_run:
  "\<exists>s. gate_run example_collaborators [Enter, Enter, Body 0 (example_call ''notepad'')] gate_init
          = Some s \<and> inflight s = [AfterBody, BeforeBody] \<and> entered s = 2 \<and> exited s = 0"
  "\<exists>s. gate_run example_collaborators
          [Enter, Enter, Body 0 (example_call ''notepad''), Exit 1, Exit 0] gate_init
          = Some s \<and> inflight s = [] \<and> entered s = 2 \<and> exited s = 2"
  by (simp_all add: gate_step_def gate_init_def)

section \<open>Claims about SessionPrivateNamespace::MakeName\<close>

text \<open>
  C1, as the code has it. \<^verbatim>\<open>MakeName\<close> is a function of the process id alone. For every
  32-bit process id it stores the text \<^verbatim>\<open>WindhawkSession\<close> followed by the id's decimal
  digits as \<^verbatim>\<open>%u\<close> prints them (between one and ten digits, denoting the id, with a
  leading zero for the id 0 only), returns the number of characters stored, and the
  name is never longer than \<^verbatim>\<open>kPrivateNamespaceMaxLen\<close>.
\<close>

theorem MakeName_bounded:
  "\<exists>ds. MakeName pid = Inr (''WindhawkSession'' @ ds, int (length (''WindhawkSession'' @ ds)))
     \<and> ds = dec_digits (unat pid)
     \<and> dec_value ds = unat pid
     \<and> (hd ds = CHR ''0'') = (pid = 0)
     \<and> 1 \<le> length ds \<and> length ds \<le> 10
     \<and> length (''WindhawkSession'' @ ds) \<le> kPrivateNamespaceMaxLen"
proof -
  let ?ds = "dec_digits (unat pid)"
  have "unat pid < 2 ^ 32"
    using unsigned_less [of pid] by simp
  then have "unat pid < 10 ^ 10" by simp
  then have le: "length ?ds \<le> 10"
    by (rule dec_digits_length_le [rotated]) simp
  have ge: "1 \<le> length ?ds"
    using dec_digits_nonempty [of "unat pid"] by (cases ?ds) auto
  have hd0: "(hd ?ds = CHR ''0'') = (pid = 0)"
    by (simp add: dec_digits_hd unat_eq_0)
  from le ge hd0 show ?thesis
    by (simp add: MakeName_eq dec_value_dec_digits kPrivateNamespaceMaxLen_def)
qed

text \<open>
  C1, as the specification words it: the decimal field is not of fixed width. The ids
  7 and 1234567890 give names of 16 and of 25 characters.
\<close>

theorem MakeName_field_width_varies:
  "MakeName 7 = Inr (''WindhawkSession7'', 16)
   \<and> MakeName 1234567890 = Inr (''WindhawkSession1234567890'', 25)
   \<and> length ''WindhawkSession7'' \<noteq> length ''WindhawkSession1234567890''"
  by (simp add: MakeName_eq dec_digits_eval)

text \<open>
  A further property: processes that compute the name on their own agree on it exactly when
  they start from the same process id, since different ids give different names.
\<close>

theorem MakeName_injective: "(MakeName p = MakeName q) = (p = q)"
proof
  assume "MakeName p = MakeName q"
  then have "dec_digits (unat p) = dec_digits (unat q)"
    by (simp add: MakeName_eq)
  then have "dec_value (dec_digits (unat p)) = dec_value (dec_digits (unat q))"
    by simp
  then have "unat p = unat q"
    by (simp add: dec_value_dec_digits)
  then show "p = q"
    by (simp add: word_unat_eq_iff)
next
  assume "p = q"
  then show "MakeName p = MakeName q" by simp
qed

section \<open>Claims about UpdateChecker\<close>

text \<open>
  C3. The primary request is described by the exchange as it is when the constructor calls
  \<^verbatim>\<open>SendRequest\<close> on it, in either mode and whatever the transport then does. That call is
  made once, unless the payload is non-empty and adding the header fails, in which case
  the constructor throws before it. With a non-empty payload the verb is POST, the request
  data is the payload, the body is the whole payload for every payload shorter than
  \<open>2 ^ 32\<close> bytes (the size is a \<^verbatim>\<open>DWORD\<close>), and the one header added is
  \<^verbatim>\<open>Content-Type: application/json\<close>. With an empty payload it is a GET with no body and
  no header. In both cases the user agent is \<^verbatim>\<open>Windhawk/\<close>, the version, a space, and in
  parentheses the native machine code in decimal, followed by \<^verbatim>\<open>; portable\<close> exactly when
  the portable flag is set.
\<close>

theorem primary_request_shape:
  "(payload \<noteq> [] \<and> FAILED (addHeaders_hr t) \<longrightarrow>
      sent Primary (ctor_effects (UpdateChecker_ctor p t flags cb payload)) = [])
 \<and> (payload = [] \<or> \<not> FAILED (addHeaders_hr t) \<longrightarrow>
      (\<exists>x. sent Primary (ctor_effects (UpdateChecker_ctor p t flags cb payload)) = [x]
         \<and> asyncMode x = cb
         \<and> (payload \<noteq> [] \<longrightarrow>
              request_verb (options x) = ''POST''
            \<and> lpOptional (options x) = Some payload
            \<and> dwOptionalSize (options x) = word_of_nat (length payload)
            \<and> (length payload < 2 ^ 32 \<longrightarrow> request_body (options x) = payload)
            \<and> headers x = [''Content-Type: application/json''])
         \<and> (payload = [] \<longrightarrow>
              request_verb (options x) = ''GET''
            \<and> request_body (options x) = []
            \<and> headers x = [])
         \<and> sURL (options x) = kUpdateCheckerUrl
         \<and> sUserAgent (options x) =
              ''Windhawk/'' @ VER_FILE_VERSION_WSTR p @ '' (''
                @ dec_digits (unat (nativeMachine p))
                @ (if flags AND kFlagPortable p \<noteq> 0 then ''; portable'' else []) @ '')''))"
proof -
  let ?o = "GetUpdateCheckerOptions p flags (Some payload) (length payload)"
  let ?x = "(CWinHTTPSimple_new ?o cb)
              \<lparr>headers := (if payload = [] then [] else [''Content-Type: application/json''])\<rparr>"
  have x: "options ?x = ?o" "asyncMode ?x = cb"
    "headers ?x = (if payload = [] then [] else [''Content-Type: application/json''])"
    by (simp_all add: CWinHTTPSimple_new_def)
  have post: "payload \<noteq> [] \<Longrightarrow> ?o =
      (GetUpdateCheckerOptions p flags None 0)
        \<lparr>sVerb := ''POST'', lpOptional := Some payload,
         dwOptionalSize := word_of_nat (length payload)\<rparr>"
    by (simp add: GetUpdateCheckerOptions_post)
  have body: "payload \<noteq> [] \<Longrightarrow> length payload < 2 ^ 32 \<Longrightarrow> request_body ?o = payload"
  proof -
    assume ne: "payload \<noteq> []" and lt: "length payload < 2 ^ 32"
    have "unat (word_of_nat (length payload) :: 32 word) = length payload"
      using lt by (simp add: unat_of_nat)
    then show ?thesis using post [OF ne] by (simp add: request_body_def)
  qed
  have get: "payload = [] \<Longrightarrow> request_verb ?o = ''GET'' \<and> request_body ?o = []"
    using GetUpdateCheckerOptions_get [of "Some payload" "length payload" p flags]
    by (simp add: request_verb_def request_body_def)
  have url: "sURL ?o = kUpdateCheckerUrl"
    by (simp add: GetUpdateCheckerOptions_def Let_def CWinHTTPSimpleOptions_default_def)
  have shape: "asyncMode ?x = cb
         \<and> (payload \<noteq> [] \<longrightarrow>
              request_verb (options ?x) = ''POST''
            \<and> lpOptional (options ?x) = Some payload
            \<and> dwOptionalSize (options ?x) = word_of_nat (length payload)
            \<and> (length payload < 2 ^ 32 \<longrightarrow> request_body (options ?x) = payload)
            \<and> headers ?x = [''Content-Type: application/json''])
         \<and> (payload = [] \<longrightarrow>
              request_verb (options ?x) = ''GET''
            \<and> request_body (options ?x) = []
            \<and> headers ?x = [])
         \<and> sURL (options ?x) = kUpdateCheckerUrl
         \<and> sUserAgent (options ?x) =
              ''Windhawk/'' @ VER_FILE_VERSION_WSTR p @ '' (''
                @ dec_digits (unat (nativeMachine p))
                @ (if flags AND kFlagPortable p \<noteq> 0 then ''; portable'' else []) @ '')''"
    unfolding x
    using post body get url
    by (simp add: GetUpdateCheckerOptions_user_agent request_verb_def)
  have sent: "payload = [] \<or> \<not> FAILED (addHeaders_hr t) \<Longrightarrow>
      sent Primary (ctor_effects (UpdateChecker_ctor p t flags cb payload)) = [?x]"
    by (simp only: ctor_sent_primary) auto
  have none: "payload \<noteq> [] \<and> FAILED (addHeaders_hr t) \<Longrightarrow>
      sent Primary (ctor_effects (UpdateChecker_ctor p t flags cb payload)) = []"
    by (simp only: ctor_sent_primary) simp
  show ?thesis
    using none sent shape by blast
qed

theorem primary_request_shape_witness:
  "(case sent Primary (ctor_effects
            (UpdateChecker_ctor example_platform (example_transport reply_200) 1 False ''{}'')) of
      [x] \<Rightarrow>
        request_verb (options x) = ''POST''
      \<and> request_body (options x) = ''{}''
      \<and> headers x = [''Content-Type: application/json'']
      \<and> sUserAgent (options x) = ''Windhawk/1.5.1 (34404; portable)''
    | _ \<Rightarrow> False)
 \<and> (case sent Primary (ctor_effects
            (UpdateChecker_ctor example_platform (example_transport reply_200) 0 True [])) of
      [x] \<Rightarrow>
        request_verb (options x) = ''GET''
      \<and> request_body (options x) = []
      \<and> headers x = []
      \<and> sUserAgent (options x) = ''Windhawk/1.5.1 (34404)''
    | _ \<Rightarrow> False)"
proof -
  let ?p = example_platform and ?t = "example_transport reply_200"
  have ok: "\<not> FAILED (addHeaders_hr ?t)"
    by (simp add: example_transport_def FAILED_def S_OK_def)
  obtain x1 where x1: "sent Primary (ctor_effects (UpdateChecker_ctor ?p ?t 1 False ''{}'')) = [x1]"
      "request_verb (options x1) = ''POST''" "request_body (options x1) = ''{}''"
      "headers x1 = [''Content-Type: application/json'']"
      "sUserAgent (options x1) = ''Windhawk/1.5.1 (34404; portable)''"
    using primary_request_shape [of "''{}''" ?t ?p 1 False] ok
    by (auto simp add: example_platform_def dec_digits_eval)
  obtain x2 where x2: "sent Primary (ctor_effects (UpdateChecker_ctor ?p ?t 0 True [])) = [x2]"
      "request_verb (options x2) = ''GET''" "request_body (options x2) = []"
      "headers x2 = []" "sUserAgent (options x2) = ''Windhawk/1.5.1 (34404)''"
    using primary_request_shape [of "[]" ?t ?p 0 True]
    by (auto simp add: example_platform_def dec_digits_eval)
  show ?thesis
    unfolding x1(1) x2(1) list.case
    using x1(2-5) x2(2-5) by simp
qed

text \<open>
  C2, as the code has it. When the synchronous constructor returns, a second request has
  been sent exactly when the primary request's result is
  \<^verbatim>\<open>HRESULT_FROM_WIN32(ERROR_WINHTTP_INVALID_HEADER)\<close> and its status code is 405. In the
  asynchronous mode, with \<^verbatim>\<open>Abort\<close> running at the same time, the second request is sent
  only if that holds, the handler read the abort flag clear at its first check and again
  at its re-check, which it makes holding the mutex, and the second exchange could be
  constructed; once the handler has ended, it has been sent exactly in that case. What
  counts is the value of the flag at the two reads, not at any other moment. A primary
  request that succeeded never asks for a retry. At most one second request is sent, on an
  exchange built from null post data: its verb is GET, it has no body, and no header is
  added to it.
\<close>

theorem fallback_decision:
  "(UpdateChecker_ctor p t flags False payload = Inr uc \<longrightarrow>
        fallback_issued uc = ShouldRetryWithAGetRequest uc
      \<and> (m_httpSimpleGetRequest uc \<noteq> None) = ShouldRetryWithAGetRequest uc
      \<and> (\<forall>g. m_httpSimpleGetRequest uc = Some g \<longrightarrow>
             options g = GetUpdateCheckerOptions p flags None 0 \<and> headers g = [])
      \<and> sent Fallback (effects uc) =
          (if ShouldRetryWithAGetRequest uc
           then [CWinHTTPSimple_new (GetUpdateCheckerOptions p flags None 0) False] else []))
 \<and> (reachable p t s \<and> m_onUpdateCheckDone (checker s) \<longrightarrow>
        (fallback_issued (checker s) \<longrightarrow>
            ShouldRetryWithAGetRequest (checker s)
          \<and> flag_at_check s = Some False \<and> flag_at_recheck s = Some False
          \<and> fallback_new t = None)
      \<and> (dpc s = DoneFinished \<or> dpc s = DoneThrown \<longrightarrow>
            fallback_issued (checker s) =
              (ShouldRetryWithAGetRequest (checker s)
               \<and> flag_at_check s = Some False \<and> flag_at_recheck s = Some False
               \<and> fallback_new t = None))
      \<and> (dpc s = DoneCheck \<longrightarrow>
            (\<exists>s'. step p t DoneStep s = Some s'
               \<and> flag_at_check s' =
                   (if ShouldRetryWithAGetRequest (checker s)
                    then Some (m_aborted (checker s)) else None)))
      \<and> (dpc s = DoneRecheck \<longrightarrow>
            mutex s = Some CompletionThread
          \<and> (\<exists>s'. step p t DoneStep s = Some s'
               \<and> flag_at_recheck s' = Some (m_aborted (checker s))))
      \<and> length (sent Fallback (effects (checker s))) \<le> 1
      \<and> list_all (get_exchange p (m_flags (checker s))) (sent Fallback (effects (checker s))))
 \<and> (get_exchange p flags x \<longrightarrow>
        request_verb (options x) = ''GET'' \<and> lpOptional (options x) = None
      \<and> request_body (options x) = [] \<and> headers x = [])
 \<and> (SUCCEEDED (requestResult (m_httpSimple uc0)) \<longrightarrow> \<not> ShouldRetryWithAGetRequest uc0)
 \<and> ShouldRetryWithAGetRequest uc0 =
       (requestResult (m_httpSimple uc0) = HRESULT_FROM_WIN32 ERROR_WINHTTP_INVALID_HEADER
        \<and> lastStatusCode (m_httpSimple uc0) = 405)
 \<and> HRESULT_FROM_WIN32 ERROR_WINHTTP_INVALID_HEADER = 0x80072F76"
proof -
  have sync: "UpdateChecker_ctor p t flags False payload = Inr uc \<Longrightarrow>
        fallback_issued uc = ShouldRetryWithAGetRequest uc
      \<and> (m_httpSimpleGetRequest uc \<noteq> None) = ShouldRetryWithAGetRequest uc
      \<and> (\<forall>g. m_httpSimpleGetRequest uc = Some g \<longrightarrow>
             options g = GetUpdateCheckerOptions p flags None 0 \<and> headers g = [])
      \<and> sent Fallback (effects uc) =
          (if ShouldRetryWithAGetRequest uc
           then [CWinHTTPSimple_new (GetUpdateCheckerOptions p flags None 0) False] else [])"
    using ctor_sync_state(1,2,3) [of p t flags payload uc]
    by (simp add: fallback_issued_def)
  have async: "reachable p t s \<and> m_onUpdateCheckDone (checker s) \<Longrightarrow>
        (fallback_issued (checker s) \<longrightarrow>
            ShouldRetryWithAGetRequest (checker s)
          \<and> flag_at_check s = Some False \<and> flag_at_recheck s = Some False
          \<and> fallback_new t = None)
      \<and> (dpc s = DoneFinished \<or> dpc s = DoneThrown \<longrightarrow>
            fallback_issued (checker s) =
              (ShouldRetryWithAGetRequest (checker s)
               \<and> flag_at_check s = Some False \<and> flag_at_recheck s = Some False
               \<and> fallback_new t = None))
      \<and> (dpc s = DoneCheck \<longrightarrow>
            (\<exists>s'. step p t DoneStep s = Some s'
               \<and> flag_at_check s' =
                   (if ShouldRetryWithAGetRequest (checker s)
                    then Some (m_aborted (checker s)) else None)))
      \<and> (dpc s = DoneRecheck \<longrightarrow>
            mutex s = Some CompletionThread
          \<and> (\<exists>s'. step p t DoneStep s = Some s'
               \<and> flag_at_recheck s' = Some (m_aborted (checker s))))
      \<and> length (sent Fallback (effects (checker s))) \<le> 1
      \<and> list_all (get_exchange p (m_flags (checker s))) (sent Fallback (effects (checker s)))"
  proof -
    assume a: "reachable p t s \<and> m_onUpdateCheckDone (checker s)"
    then have r: "reachable p t s" and m: "m_onUpdateCheckDone (checker s)"
      by simp_all
    have c1: "fallback_issued (checker s) \<longrightarrow>
            ShouldRetryWithAGetRequest (checker s)
          \<and> flag_at_check s = Some False \<and> flag_at_recheck s = Some False
          \<and> fallback_new t = None"
      using issued_reads [OF r m] by blast
    have c2: "dpc s = DoneFinished \<or> dpc s = DoneThrown \<longrightarrow>
            fallback_issued (checker s) =
              (ShouldRetryWithAGetRequest (checker s)
               \<and> flag_at_check s = Some False \<and> flag_at_recheck s = Some False
               \<and> fallback_new t = None)"
      using finished_issued [OF r m] by blast
    have none: "dpc s = DoneCheck \<Longrightarrow> flag_at_check s = None"
      using reachable_async(1) [OF r m] by (simp add: reads_def)
    have c3: "dpc s = DoneCheck \<longrightarrow>
            (\<exists>s'. step p t DoneStep s = Some s'
               \<and> flag_at_check s' =
                   (if ShouldRetryWithAGetRequest (checker s)
                    then Some (m_aborted (checker s)) else None))"
      using none by (simp add: step_def step_done_def)
    have c4: "dpc s = DoneRecheck \<longrightarrow>
            mutex s = Some CompletionThread
          \<and> (\<exists>s'. step p t DoneStep s = Some s'
               \<and> flag_at_recheck s' = Some (m_aborted (checker s)))"
      using sys_invD(1) [OF reachable_inv [OF r]] by (auto simp add: step_def step_done_def)
    show ?thesis
      using c1 c2 c3 c4 reachable_async(3,4) [OF r m] by blast
  qed
  have shape: "get_exchange p flags x \<Longrightarrow>
        request_verb (options x) = ''GET'' \<and> lpOptional (options x) = None
      \<and> request_body (options x) = [] \<and> headers x = []"
    using get_options_no_body [of p flags] by (simp add: get_exchange_def)
  have decision: "ShouldRetryWithAGetRequest uc0 =
       (requestResult (m_httpSimple uc0) = HRESULT_FROM_WIN32 ERROR_WINHTTP_INVALID_HEADER
        \<and> lastStatusCode (m_httpSimple uc0) = 405)"
    by (simp add: ShouldRetryWithAGetRequest_def)
  show ?thesis
    using sync async shape succeeded_no_retry [of uc0] decision invalid_header_value
    by blast
qed

theorem fallback_decision_witness:
  "(case UpdateChecker_ctor example_platform (example_transport reply_405) 0 False ''{}'' of
      Inl _ \<Rightarrow> False
    | Inr uc \<Rightarrow>
        fallback_issued uc \<and> ShouldRetryWithAGetRequest uc
      \<and> (case m_httpSimpleGetRequest uc of
            None \<Rightarrow> False
          | Some g \<Rightarrow> request_verb (options g) = ''GET'' \<and> request_body (options g) = []
              \<and> headers g = []))
 \<and> (case UpdateChecker_ctor example_platform (example_transport reply_405) 0 True ''{}'' of
      Inl _ \<Rightarrow> False
    | Inr uc \<Rightarrow>
        (case run example_platform (example_transport reply_405)
                [PrimaryCompletes reply_405, DoneStep, AbortStep, DoneStep, DoneStep, DoneStep,
                 DoneStep] (init_sys uc) of
           None \<Rightarrow> False
         | Some s \<Rightarrow>
             dpc s = DoneFinished \<and> ShouldRetryWithAGetRequest (checker s)
           \<and> flag_at_check s = Some False \<and> flag_at_recheck s = Some True
           \<and> \<not> fallback_issued (checker s))
      \<and> (case run example_platform (example_transport reply_405)
                [PrimaryCompletes reply_405, DoneStep, DoneStep, DoneStep, AbortStep, DoneStep,
                 DoneStep, DoneStep] (init_sys uc) of
           None \<Rightarrow> False
         | Some s \<Rightarrow>
             dpc s = DoneFinished \<and> m_aborted (checker s)
           \<and> flag_at_check s = Some False \<and> flag_at_recheck s = Some False
           \<and> fallback_issued (checker s)
           \<and> list_all (\<lambda>x. request_verb (options x) = ''GET'' \<and> request_body (options x) = []
                             \<and> headers x = [])
               (sent Fallback (effects (checker s))))
      \<and> (case run example_platform (example_transport reply_405)
                [PrimaryCompletes reply_200, DoneStep, DoneStep] (init_sys uc) of
           None \<Rightarrow> False
         | Some s \<Rightarrow>
             dpc s = DoneFinished \<and> SUCCEEDED (requestResult (m_httpSimple (checker s)))
           \<and> \<not> fallback_issued (checker s)))"
proof -
  let ?p = example_platform and ?t = "example_transport reply_405"
  obtain u1 where u1: "UpdateChecker_ctor ?p ?t 0 False ''{}'' = Inr u1"
    using example_ctor_sync_405 by blast
  obtain u2 where u2: "UpdateChecker_ctor ?p ?t 0 True ''{}'' = Inr u2"
    using example_ctor_async [of ?t ?p 0 "''{}''"] by (auto simp add: example_transport_def)
  note a = ctor_async_state [OF u2]
  have start: "reachable ?p ?t (init_sys u2)"
    using u2 by (rule reachable_init)
  have new: "fallback_new ?t = None"
    by (simp add: example_transport_def)
  have retry1: "ShouldRetryWithAGetRequest u1"
    using u1 by (auto simp add: ctor_eval split: if_splits)
  have first: "fallback_issued u1 \<and> ShouldRetryWithAGetRequest u1
      \<and> (case m_httpSimpleGetRequest u1 of
            None \<Rightarrow> False
          | Some g \<Rightarrow> request_verb (options g) = ''GET'' \<and> request_body (options g) = []
              \<and> headers g = [])"
    using fallback_decision [of ?p ?t 0 "''{}''" u1 s0 x0 u1] u1 retry1
      get_options_no_body [of ?p 0]
    by (auto split: option.splits)
  obtain s1 where s1: "run ?p ?t [PrimaryCompletes reply_405, DoneStep, AbortStep, DoneStep,
        DoneStep, DoneStep, DoneStep] (init_sys u2) = Some s1"
      "dpc s1 = DoneFinished" "ShouldRetryWithAGetRequest (checker s1)"
      "flag_at_check s1 = Some False" "flag_at_recheck s1 = Some True"
      "m_onUpdateCheckDone (checker s1) = m_onUpdateCheckDone u2"
    using example_trace_recheck_fails [OF a(1,2,3,5,6), of ?p ?t] by blast
  have r1: "reachable ?p ?t s1"
    using run_reachable [OF start s1(1)] .
  have second: "\<not> fallback_issued (checker s1)"
    using fallback_decision [of ?p ?t 0 "''{}''" u1 s1 x0 u1] r1 s1(2,5,6) a(4) by simp
  obtain s2 where s2: "run ?p ?t [PrimaryCompletes reply_405, DoneStep, DoneStep, DoneStep,
        AbortStep, DoneStep, DoneStep, DoneStep] (init_sys u2) = Some s2"
      "dpc s2 = DoneFinished" "ShouldRetryWithAGetRequest (checker s2)" "m_aborted (checker s2)"
      "flag_at_check s2 = Some False" "flag_at_recheck s2 = Some False"
      "m_onUpdateCheckDone (checker s2) = m_onUpdateCheckDone u2"
    using example_trace_flag_set_late [OF a(1,2,3,5,6), of ?p] by blast
  have r2: "reachable ?p ?t s2"
    using run_reachable [OF start s2(1)] .
  have third: "fallback_issued (checker s2)"
    using fallback_decision [of ?p ?t 0 "''{}''" u1 s2 x0 u1] r2 s2(2,3,5,6,7) a(4) new by simp
  have "list_all (get_exchange ?p (m_flags (checker s2))) (sent Fallback (effects (checker s2)))"
    using fallback_decision [of ?p ?t 0 "''{}''" u1 s2 x0 u1] r2 s2(7) a(4) by simp
  then have shape: "list_all (\<lambda>x. request_verb (options x) = ''GET'' \<and> request_body (options x) = []
        \<and> headers x = []) (sent Fallback (effects (checker s2)))"
    using get_options_no_body [of ?p "m_flags (checker s2)"]
    by (simp add: list_all_iff get_exchange_def)
  obtain s3 where s3: "run ?p ?t [PrimaryCompletes reply_200, DoneStep, DoneStep] (init_sys u2)
        = Some s3"
      "dpc s3 = DoneFinished" "SUCCEEDED (requestResult (m_httpSimple (checker s3)))"
      "m_onUpdateCheckDone (checker s3) = m_onUpdateCheckDone u2"
    using example_trace_success [OF a(1,2,3,5,6), of ?p ?t] by blast
  have r3: "reachable ?p ?t s3"
    using run_reachable [OF start s3(1)] .
  have "\<not> ShouldRetryWithAGetRequest (checker s3)"
    using fallback_decision [of ?p ?t 0 "''{}''" u1 s3 x0 "checker s3"] s3(3) by blast
  then have fourth: "\<not> fallback_issued (checker s3)"
    using fallback_decision [of ?p ?t 0 "''{}''" u1 s3 x0 u1] r3 s3(4) a(4) by blast
  show ?thesis
    unfolding u1 u2 s1(1) s2(1) s3(1) sum.case option.case
    using first second third fourth shape s1(2-5) s2(2,4-6) s3(2,3) by simp
qed

text \<open>
  C2, as the specification words it, fails in the asynchronous mode: after \<^verbatim>\<open>Abort\<close>, a
  primary request that ends with the invalid-header result and status 405 is not followed
  by a second request; the handler only runs the callback.
\<close>

theorem fallback_not_issued_when_aborted:
  "(case UpdateChecker_ctor example_platform (example_transport reply_405) 0 True ''{}'' of
      Inl _ \<Rightarrow> False
    | Inr uc \<Rightarrow>
        (case run example_platform (example_transport reply_405)
                [AbortStep, AbortStep, AbortStep, AbortStep, AbortStep,
                 PrimaryCompletes reply_405, DoneStep, DoneStep] (init_sys uc) of
           None \<Rightarrow> False
         | Some s \<Rightarrow>
             dpc s = DoneFinished
           \<and> requestResult (m_httpSimple (checker s)) = HRESULT_FROM_WIN32 ERROR_WINHTTP_INVALID_HEADER
           \<and> lastStatusCode (m_httpSimple (checker s)) = 405
           \<and> \<not> fallback_issued (checker s)
           \<and> m_httpSimpleGetRequest (checker s) = None
           \<and> callback_count (checker s) = 1))"
proof -
  let ?p = example_platform and ?t = "example_transport reply_405"
  obtain u where u: "UpdateChecker_ctor ?p ?t 0 True ''{}'' = Inr u"
    using example_ctor_async [of ?t ?p 0 "''{}''"] by (auto simp add: example_transport_def)
  note a = ctor_async_state [OF u]
  obtain s where s: "run ?p ?t [AbortStep, AbortStep, AbortStep, AbortStep, AbortStep,
        PrimaryCompletes reply_405, DoneStep, DoneStep] (init_sys u) = Some s"
      "dpc s = DoneFinished"
      "requestResult (m_httpSimple (checker s)) = HRESULT_FROM_WIN32 ERROR_WINHTTP_INVALID_HEADER"
      "lastStatusCode (m_httpSimple (checker s)) = 405"
      "\<not> fallback_issued (checker s)" "m_httpSimpleGetRequest (checker s) = None"
      "callback_count (checker s) = 1"
    using example_trace_aborted_first [OF a(1,2,3,5,6), of ?p ?t] by blast
  show ?thesis
    unfolding u s(1) sum.case option.case
    using s(2-7) by simp
qed

text \<open>
  C4, as the code has it. \<^verbatim>\<open>HandleResponse\<close> reads the second exchange when there is one and
  the primary exchange otherwise. When that exchange's request result is a failure, the
  result carries it and the status code, nothing is parsed and nothing else happens. When
  it is a success, the response is handed to \<^verbatim>\<open>UpdateContentWithOnlineData\<close> once: its
  status is stored on return; when it throws a \<^verbatim>\<open>std::exception\<close>, the exception is logged
  and the result carries \<^verbatim>\<open>E_FAIL\<close>, a failure code, with the status code; when it throws
  anything else, the throw leaves \<^verbatim>\<open>HandleResponse\<close> and no result is returned.
\<close>

theorem HandleResponse_result:
  assumes "x = (case m_httpSimpleGetRequest uc of Some g \<Rightarrow> g | None \<Rightarrow> m_httpSimple uc)"
  shows "(\<not> SUCCEEDED (requestResult x) \<longrightarrow>
          HandleResponse f uc =
            Inr (\<lparr>hrError = requestResult x, httpStatusCode = lastStatusCode x,
                  updateStatus = None\<rparr>, []))
    \<and> (SUCCEEDED (requestResult x) \<longrightarrow>
          (\<forall>status. f (response x) = Inr status \<longrightarrow>
             HandleResponse f uc =
               Inr (\<lparr>hrError = requestResult x, httpStatusCode = lastStatusCode x,
                     updateStatus = Some status\<rparr>,
                    [UpdateContentWithOnlineDataCalled (response x)]))
        \<and> (\<forall>e. f (response x) = Inl (StdThrow e) \<longrightarrow>
             HandleResponse f uc =
               Inr (\<lparr>hrError = E_FAIL, httpStatusCode = lastStatusCode x, updateStatus = None\<rparr>,
                    [UpdateContentWithOnlineDataCalled (response x), LogHandlingFailed e]))
        \<and> (f (response x) = Inl OtherThrow \<longrightarrow> HandleResponse f uc = Inl OtherThrow))
    \<and> FAILED E_FAIL"
  using HandleResponse_cases [OF assms, of f] E_FAIL_failed by blast

theorem HandleResponse_result_witness:
  "(case UpdateChecker_ctor example_platform (example_transport reply_405) 0 False ''{}'' of
      Inl _ \<Rightarrow> False
    | Inr uc \<Rightarrow>
        HandleResponse example_parse uc =
          Inr (\<lparr>hrError = S_OK, httpStatusCode = 200, updateStatus = Some 1\<rparr>,
               [UpdateContentWithOnlineDataCalled ''{}'']))
 \<and> (case UpdateChecker_ctor example_platform (example_transport reply_timeout) 0 False [] of
      Inl _ \<Rightarrow> False
    | Inr uc \<Rightarrow>
        HandleResponse example_parse uc =
          Inr (\<lparr>hrError = 0x80072EE2, httpStatusCode = 0, updateStatus = None\<rparr>, []))
 \<and> (case UpdateChecker_ctor example_platform (example_transport reply_garbled) 0 False [] of
      Inl _ \<Rightarrow> False
    | Inr uc \<Rightarrow>
        HandleResponse example_parse uc =
          Inr (\<lparr>hrError = E_FAIL, httpStatusCode = 200, updateStatus = None\<rparr>,
               [UpdateContentWithOnlineDataCalled ''<html>'',
                LogHandlingFailed (StdException ''parse error'')]))"
proof -
  obtain u1 where u1:
    "UpdateChecker_ctor example_platform (example_transport reply_405) 0 False ''{}'' = Inr u1"
    using example_ctor_sync_405 by blast
  obtain u2 where u2:
    "UpdateChecker_ctor example_platform (example_transport reply_timeout) 0 False [] = Inr u2"
    using example_sync_total(1) by blast
  obtain u3 where u3:
    "UpdateChecker_ctor example_platform (example_transport reply_garbled) 0 False [] = Inr u3"
    using example_sync_total(2) by blast
  obtain g where g: "m_httpSimpleGetRequest u1 = Some g" "requestResult g = S_OK"
      "lastStatusCode g = 200" "response g = ''{}''"
    using example_sync_405 [OF u1] by blast
  have r1: "HandleResponse example_parse u1 =
      Inr (\<lparr>hrError = S_OK, httpStatusCode = 200, updateStatus = Some 1\<rparr>,
           [UpdateContentWithOnlineDataCalled ''{}''])"
    using HandleResponse_result [OF refl, where uc = u1 and f = example_parse] g
    by (simp add: SUCCEEDED_def S_OK_def example_parse_def)
  have r2: "HandleResponse example_parse u2 =
      Inr (\<lparr>hrError = 0x80072EE2, httpStatusCode = 0, updateStatus = None\<rparr>, [])"
    using HandleResponse_result [OF refl, where uc = u2 and f = example_parse] example_sync_timeout [OF u2]
    by (simp add: SUCCEEDED_def)
  have r3: "HandleResponse example_parse u3 =
      Inr (\<lparr>hrError = E_FAIL, httpStatusCode = 200, updateStatus = None\<rparr>,
           [UpdateContentWithOnlineDataCalled ''<html>'',
            LogHandlingFailed (StdException ''parse error'')])"
    using HandleResponse_result [OF refl, where uc = u3 and f = example_parse] example_sync_garbled [OF u3]
    by (simp add: SUCCEEDED_def S_OK_def example_parse_def)
  show ?thesis
    by (simp add: u1 u2 u3 r1 r2 r3)
qed

text \<open>
  C4, as the specification words it, fails: the handler is \<^verbatim>\<open>catch (const std::exception&)\<close>.
  On a successful exchange, a parse step that throws a value of another type is not
  caught, and \<^verbatim>\<open>HandleResponse\<close> returns no result.
\<close>

theorem HandleResponse_other_throw_propagates:
  "(case UpdateChecker_ctor example_platform (example_transport reply_200) 0 False [] of
      Inl _ \<Rightarrow> False
    | Inr uc \<Rightarrow>
        m_httpSimpleGetRequest uc = None
      \<and> SUCCEEDED (requestResult (m_httpSimple uc))
      \<and> HandleResponse foreign_parse uc = Inl OtherThrow)"
proof -
  obtain u where u:
    "UpdateChecker_ctor example_platform (example_transport reply_200) 0 False [] = Inr u"
    using example_ctor_sync2 by blast
  have f: "m_httpSimpleGetRequest u = None" "requestResult (m_httpSimple u) = S_OK"
    using u by (auto simp add: ctor_eval)
  then have "HandleResponse foreign_parse u = Inl OtherThrow"
    by (simp add: HandleResponse_def Let_def SUCCEEDED_def S_OK_def foreign_parse_def)
  then show ?thesis
    using f by (simp add: u SUCCEEDED_def S_OK_def)
qed

text \<open>
  C10, as the code has it. In the asynchronous mode, with \<^verbatim>\<open>Abort\<close> running at the same
  time, in every reachable state:

  \<^item> The handler is in its \<^verbatim>\<open>catch\<close> block only because constructing the second exchange
    threw a \<^verbatim>\<open>std::exception\<close>, or \<^verbatim>\<open>SendRequest\<close> threw one or returned a failed
    \<^verbatim>\<open>HRESULT\<close>. It holds the mutex there and the callback has not run; the block sets the
    reference to the second exchange to null, logs the exception and runs the callback,
    and changes nothing else.
  \<^item> Once a failure has been logged, the reference is null and the callback has run once;
    \<^verbatim>\<open>HandleResponse\<close> reports the primary exchange's request result and status code, which
    are the invalid-header result and 405, and parses nothing.
  \<^item> The callback never runs twice. When the handler has returned, by whichever path, also
    the one on which the re-check finds the flag set, the callback has run once, or the
    second request is in flight and the callback runs when that completes.
  \<^item> The handler is left by a throw only when the construction or \<^verbatim>\<open>SendRequest\<close> threw
    something that is not a \<^verbatim>\<open>std::exception\<close>. Then the callback has not run and nothing
    is left that would run it, nothing was logged, and the reference is null exactly when
    the throw came from the construction.
  \<^item> The handler is never stuck: its next statement can run, or it waits for the mutex
    that \<^verbatim>\<open>Abort\<close> holds and \<^verbatim>\<open>Abort\<close> can go on.
\<close>

theorem get_request_failure_handled:
  assumes "reachable p t s" "m_onUpdateCheckDone (checker s)"
  shows "(\<forall>e. dpc s = DoneCatch e \<longrightarrow>
            (fallback_new t = Some (StdThrow e)
             \<or> (fallback_new t = None \<and> fallback_async t = AsyncThrew (StdThrow e))
             \<or> (fallback_new t = None
                  \<and> (\<exists>hr. fallback_async t = AsyncReturned hr \<and> FAILED hr
                         \<and> e = ResultException hr)))
          \<and> mutex s = Some CompletionThread
          \<and> callback_count (checker s) = 0
          \<and> (\<exists>s'. step p t DoneStep s = Some s'
                \<and> dpc s' = DoneUnlockReturn
                \<and> m_httpSimpleGetRequest (checker s') = None
                \<and> effects (checker s') =
                     effects (checker s) @ [LogGetRequestFailed e, OnUpdateCheckDoneInvoked]
                \<and> checker s' = (checker s)\<lparr>m_httpSimpleGetRequest := None,
                                             effects := effects (checker s')\<rparr>))
       \<and> (get_request_failures (effects (checker s)) \<noteq> [] \<longrightarrow>
            m_httpSimpleGetRequest (checker s) = None
          \<and> callback_count (checker s) = 1
          \<and> requestResult (m_httpSimple (checker s)) = 0x80072F76
          \<and> lastStatusCode (m_httpSimple (checker s)) = 405
          \<and> HandleResponse f (checker s) =
               Inr (\<lparr>hrError = requestResult (m_httpSimple (checker s)),
                     httpStatusCode = lastStatusCode (m_httpSimple (checker s)),
                     updateStatus = None\<rparr>, []))
       \<and> callback_count (checker s) \<le> 1
       \<and> (dpc s = DoneFinished \<longrightarrow>
            callback_count (checker s) =
              (if registered (checker s) \<and> \<not> fallback_done s then 0 else 1))
       \<and> (registered (checker s) \<and> \<not> fallback_done s \<longrightarrow>
            (\<exists>s'. step p t (FallbackCompletes r) s = Some s'
               \<and> callback_count (checker s') = 1 \<and> fallback_done s'))
       \<and> (dpc s = DoneThrown \<or> dpc s = DonePropagate \<longrightarrow>
            (fallback_new t = Some OtherThrow
             \<or> (fallback_new t = None \<and> fallback_async t = AsyncThrew OtherThrow))
          \<and> callback_count (checker s) = 0
          \<and> \<not> registered (checker s)
          \<and> get_request_failures (effects (checker s)) = []
          \<and> (m_httpSimpleGetRequest (checker s) = None) = (fallback_new t \<noteq> None))
       \<and> (dpc s = DoneThrown \<longrightarrow>
            (\<forall>a s'. step p t a s = Some s' \<longrightarrow> a = AbortStep \<and> dpc s' = DoneThrown))
       \<and> (dpc s \<noteq> DoneWaiting \<and> dpc s \<noteq> DoneFinished \<and> dpc s \<noteq> DoneThrown \<longrightarrow>
            (\<exists>s'. step p t DoneStep s = Some s')
          \<or> (dpc s = DoneLock \<and> mutex s = Some AbortThread
               \<and> (\<exists>s'. step p t AbortStep s = Some s')))"
proof -
  note r = assms(1) and m = assms(2)
  have c1: "\<forall>e. dpc s = DoneCatch e \<longrightarrow>
            (fallback_new t = Some (StdThrow e)
             \<or> (fallback_new t = None \<and> fallback_async t = AsyncThrew (StdThrow e))
             \<or> (fallback_new t = None
                  \<and> (\<exists>hr. fallback_async t = AsyncReturned hr \<and> FAILED hr
                         \<and> e = ResultException hr)))
          \<and> mutex s = Some CompletionThread
          \<and> callback_count (checker s) = 0
          \<and> (\<exists>s'. step p t DoneStep s = Some s'
                \<and> dpc s' = DoneUnlockReturn
                \<and> m_httpSimpleGetRequest (checker s') = None
                \<and> effects (checker s') =
                     effects (checker s) @ [LogGetRequestFailed e, OnUpdateCheckDoneInvoked]
                \<and> checker s' = (checker s)\<lparr>m_httpSimpleGetRequest := None,
                                             effects := effects (checker s')\<rparr>)"
  proof (intro allI impI)
    fix e assume d: "dpc s = DoneCatch e"
    note c = at_catch [OF r d]
    have "step p t DoneStep s =
        Some (s\<lparr>checker := catch_get_request e (checker s), dpc := DoneUnlockReturn\<rparr>)"
      using c(5) .
    then have "\<exists>s'. step p t DoneStep s = Some s'
                \<and> dpc s' = DoneUnlockReturn
                \<and> m_httpSimpleGetRequest (checker s') = None
                \<and> effects (checker s') =
                     effects (checker s) @ [LogGetRequestFailed e, OnUpdateCheckDoneInvoked]
                \<and> checker s' = (checker s)\<lparr>m_httpSimpleGetRequest := None,
                                             effects := effects (checker s')\<rparr>"
      by (simp add: catch_get_request_def emit_def)
    then show "(fallback_new t = Some (StdThrow e)
             \<or> (fallback_new t = None \<and> fallback_async t = AsyncThrew (StdThrow e))
             \<or> (fallback_new t = None
                  \<and> (\<exists>hr. fallback_async t = AsyncReturned hr \<and> FAILED hr
                         \<and> e = ResultException hr)))
          \<and> mutex s = Some CompletionThread
          \<and> callback_count (checker s) = 0
          \<and> (\<exists>s'. step p t DoneStep s = Some s'
                \<and> dpc s' = DoneUnlockReturn
                \<and> m_httpSimpleGetRequest (checker s') = None
                \<and> effects (checker s') =
                     effects (checker s) @ [LogGetRequestFailed e, OnUpdateCheckDoneInvoked]
                \<and> checker s' = (checker s)\<lparr>m_httpSimpleGetRequest := None,
                                             effects := effects (checker s')\<rparr>)"
      using caught_cause [OF c(1)] c(2,3) by blast
  qed
  have c2: "get_request_failures (effects (checker s)) \<noteq> [] \<longrightarrow>
            m_httpSimpleGetRequest (checker s) = None
          \<and> callback_count (checker s) = 1
          \<and> requestResult (m_httpSimple (checker s)) = 0x80072F76
          \<and> lastStatusCode (m_httpSimple (checker s)) = 405
          \<and> HandleResponse f (checker s) =
               Inr (\<lparr>hrError = requestResult (m_httpSimple (checker s)),
                     httpStatusCode = lastStatusCode (m_httpSimple (checker s)),
                     updateStatus = None\<rparr>, [])"
  proof
    assume l: "get_request_failures (effects (checker s)) \<noteq> []"
    note g = logged_failure [OF r m l]
    note n = retry_not_succeeded [OF g(3)]
    have ns: "\<not> SUCCEEDED (requestResult (m_httpSimple (checker s)))"
      using n by blast
    have x: "m_httpSimple (checker s) =
        (case m_httpSimpleGetRequest (checker s) of Some g \<Rightarrow> g
         | None \<Rightarrow> m_httpSimple (checker s))"
      using g(1) by simp
    have "HandleResponse f (checker s) =
               Inr (\<lparr>hrError = requestResult (m_httpSimple (checker s)),
                     httpStatusCode = lastStatusCode (m_httpSimple (checker s)),
                     updateStatus = None\<rparr>, [])"
      using HandleResponse_cases(1) [OF x ns] .
    then show "m_httpSimpleGetRequest (checker s) = None
          \<and> callback_count (checker s) = 1
          \<and> requestResult (m_httpSimple (checker s)) = 0x80072F76
          \<and> lastStatusCode (m_httpSimple (checker s)) = 405
          \<and> HandleResponse f (checker s) =
               Inr (\<lparr>hrError = requestResult (m_httpSimple (checker s)),
                     httpStatusCode = lastStatusCode (m_httpSimple (checker s)),
                     updateStatus = None\<rparr>, [])"
      using g(1,2) n by simp
  qed
  note once = callback_once [OF r m]
  have c5: "registered (checker s) \<and> \<not> fallback_done s \<longrightarrow>
            (\<exists>s'. step p t (FallbackCompletes r) s = Some s'
               \<and> callback_count (checker s') = 1 \<and> fallback_done s')"
    using once(3) by (auto simp add: step_def emit_def callback_count_def)
  have c6: "dpc s = DoneThrown \<or> dpc s = DonePropagate \<longrightarrow>
            (fallback_new t = Some OtherThrow
             \<or> (fallback_new t = None \<and> fallback_async t = AsyncThrew OtherThrow))
          \<and> callback_count (checker s) = 0
          \<and> \<not> registered (checker s)
          \<and> get_request_failures (effects (checker s)) = []
          \<and> (m_httpSimpleGetRequest (checker s) = None) = (fallback_new t \<noteq> None)"
    using at_thrown [OF r] escaped_cause [of t] by blast
  have c7: "dpc s = DoneThrown \<longrightarrow>
            (\<forall>a s'. step p t a s = Some s' \<longrightarrow> a = AbortStep \<and> dpc s' = DoneThrown)"
    using thrown_stays [OF r] by blast
  have c8: "dpc s \<noteq> DoneWaiting \<and> dpc s \<noteq> DoneFinished \<and> dpc s \<noteq> DoneThrown \<longrightarrow>
            (\<exists>s'. step p t DoneStep s = Some s')
          \<or> (dpc s = DoneLock \<and> mutex s = Some AbortThread
               \<and> (\<exists>s'. step p t AbortStep s = Some s'))"
    using handler_progress [OF r] by blast
  show ?thesis
    using c1 c2 once(1,2) c5 c6 c7 c8 by blast
qed

theorem get_request_failure_handled_witness:
  "(case UpdateChecker_ctor example_platform
          ((example_transport reply_405)
             \<lparr>fallback_async := AsyncThrew (StdThrow (StdException ''send failed''))\<rparr>)
          0 True ''{}'' of
      Inl _ \<Rightarrow> False
    | Inr uc \<Rightarrow>
        (case run example_platform
                ((example_transport reply_405)
                   \<lparr>fallback_async := AsyncThrew (StdThrow (StdException ''send failed''))\<rparr>)
                [PrimaryCompletes reply_405, DoneStep, DoneStep, DoneStep, DoneStep, DoneStep]
                (init_sys uc) of
           None \<Rightarrow> False
         | Some s \<Rightarrow>
             dpc s = DoneCatch (StdException ''send failed'')
           \<and> m_httpSimpleGetRequest (checker s) \<noteq> None
           \<and> callback_count (checker s) = 0
           \<and> (case step example_platform
                     ((example_transport reply_405)
                        \<lparr>fallback_async := AsyncThrew (StdThrow (StdException ''send failed''))\<rparr>)
                     DoneStep s of
                 None \<Rightarrow> False
               | Some s' \<Rightarrow>
                   m_httpSimpleGetRequest (checker s') = None
                 \<and> get_request_failures (effects (checker s')) = [StdException ''send failed'']
                 \<and> callback_count (checker s') = 1
                 \<and> HandleResponse example_parse (checker s') =
                     Inr (\<lparr>hrError = 0x80072F76, httpStatusCode = 405, updateStatus = None\<rparr>,
                          [])))
      \<and> (case run example_platform
                ((example_transport reply_405)
                   \<lparr>fallback_async := AsyncThrew (StdThrow (StdException ''send failed''))\<rparr>)
                [PrimaryCompletes reply_405, DoneStep, AbortStep, DoneStep, DoneStep, DoneStep,
                 DoneStep] (init_sys uc) of
           None \<Rightarrow> False
         | Some s \<Rightarrow>
             dpc s = DoneFinished \<and> flag_at_recheck s = Some True
           \<and> callback_count (checker s) = 1))"
proof -
  let ?p = example_platform
  let ?e = "StdException ''send failed''"
  let ?t = "(example_transport reply_405)\<lparr>fallback_async := AsyncThrew (StdThrow ?e)\<rparr>"
  obtain u where u: "UpdateChecker_ctor ?p ?t 0 True ''{}'' = Inr u"
    using example_ctor_async [of ?t ?p 0 "''{}''"] by (auto simp add: example_transport_def)
  note a = ctor_async_state [OF u]
  have start: "reachable ?p ?t (init_sys u)"
    using u by (rule reachable_init)
  obtain s1 where s1: "run ?p ?t [PrimaryCompletes reply_405, DoneStep, DoneStep, DoneStep,
        DoneStep, DoneStep] (init_sys u) = Some s1"
      "dpc s1 = DoneCatch ?e" "m_httpSimpleGetRequest (checker s1) \<noteq> None"
      "m_onUpdateCheckDone (checker s1) = m_onUpdateCheckDone u"
      "get_request_failures (effects (checker s1)) = []"
    using example_trace_send_fails [OF a(1,2,3,6,7), of ?p ?e] by blast
  have r1: "reachable ?p ?t s1"
    using run_reachable [OF start s1(1)] .
  have m1: "m_onUpdateCheckDone (checker s1)"
    using s1(4) a(4) by simp
  note h1 = get_request_failure_handled [OF r1 m1, of example_parse reply_200]
  obtain s1' where s1': "step ?p ?t DoneStep s1 = Some s1'"
      "m_httpSimpleGetRequest (checker s1') = None"
      "effects (checker s1') = effects (checker s1) @ [LogGetRequestFailed ?e, OnUpdateCheckDoneInvoked]"
      "checker s1' = (checker s1)\<lparr>m_httpSimpleGetRequest := None, effects := effects (checker s1')\<rparr>"
    using h1 s1(2) by blast
  have c0: "callback_count (checker s1) = 0"
    using h1 s1(2) by blast
  have r1': "reachable ?p ?t s1'"
    using reachable_step [OF r1 s1'(1)] .
  have m1': "m_onUpdateCheckDone (checker s1')"
    using m1 by (subst s1'(4)) simp
  have l1: "get_request_failures (effects (checker s1')) = [?e]"
    using s1(5) by (simp add: s1'(3) get_request_failures_append)
  note h1' = get_request_failure_handled [OF r1' m1', of example_parse reply_200]
  have after: "callback_count (checker s1') = 1
      \<and> HandleResponse example_parse (checker s1') =
          Inr (\<lparr>hrError = 0x80072F76, httpStatusCode = 405, updateStatus = None\<rparr>, [])"
    using h1' l1 by simp
  obtain s2 where s2: "run ?p ?t [PrimaryCompletes reply_405, DoneStep, AbortStep, DoneStep,
        DoneStep, DoneStep, DoneStep] (init_sys u) = Some s2"
      "dpc s2 = DoneFinished" "flag_at_recheck s2 = Some True"
      "m_httpSimpleGetRequest (checker s2) = None" "\<not> registered (checker s2)"
      "m_onUpdateCheckDone (checker s2) = m_onUpdateCheckDone u"
    using example_trace_recheck_fails [OF a(1,2,3,5,6), of ?p ?t] by blast
  have r2: "reachable ?p ?t s2"
    using run_reachable [OF start s2(1)] .
  have m2: "m_onUpdateCheckDone (checker s2)"
    using s2(6) a(4) by simp
  have c2: "callback_count (checker s2) = 1"
    using get_request_failure_handled [OF r2 m2, of example_parse reply_200] s2(2,5) by simp
  show ?thesis
    unfolding u s1(1) s2(1) s1'(1) sum.case option.case
    using s1(2,3) c0 s1'(2) l1 after s2(2,3) c2 by simp
qed

text \<open>
  C10, as the specification words it, fails: the handler is \<^verbatim>\<open>catch (const std::exception&)\<close>.
  When \<^verbatim>\<open>SendRequest\<close> on the second exchange throws a value of another type, the throw
  leaves the completion handler: the reference to the second exchange stays set, nothing
  is logged, and the callback has not run and never will, since the handler has ended and
  no callback is registered on the second exchange.
\<close>

theorem get_request_other_throw_escapes:
  "(case UpdateChecker_ctor example_platform
          ((example_transport reply_405)\<lparr>fallback_async := AsyncThrew OtherThrow\<rparr>)
          0 True ''{}'' of
      Inl _ \<Rightarrow> False
    | Inr uc \<Rightarrow>
        (case run example_platform
                ((example_transport reply_405)\<lparr>fallback_async := AsyncThrew OtherThrow\<rparr>)
                [PrimaryCompletes reply_405, DoneStep, DoneStep, DoneStep, DoneStep, DoneStep,
                 DoneStep] (init_sys uc) of
           None \<Rightarrow> False
         | Some s \<Rightarrow>
             dpc s = DoneThrown
           \<and> m_httpSimpleGetRequest (checker s) \<noteq> None
           \<and> get_request_failures (effects (checker s)) = []
           \<and> callback_count (checker s) = 0
           \<and> step example_platform
               ((example_transport reply_405)\<lparr>fallback_async := AsyncThrew OtherThrow\<rparr>)
               DoneStep s = None
           \<and> step example_platform
               ((example_transport reply_405)\<lparr>fallback_async := AsyncThrew OtherThrow\<rparr>)
               (FallbackCompletes reply_200) s = None))"
proof -
  let ?p = example_platform
  let ?t = "(example_transport reply_405)\<lparr>fallback_async := AsyncThrew OtherThrow\<rparr>"
  obtain u where u: "UpdateChecker_ctor ?p ?t 0 True ''{}'' = Inr u"
    using example_ctor_async [of ?t ?p 0 "''{}''"] by (auto simp add: example_transport_def)
  note a = ctor_async_state [OF u]
  obtain s where s: "run ?p ?t [PrimaryCompletes reply_405, DoneStep, DoneStep, DoneStep,
        DoneStep, DoneStep, DoneStep] (init_sys u) = Some s"
      "dpc s = DoneThrown" "m_httpSimpleGetRequest (checker s) \<noteq> None"
      "get_request_failures (effects (checker s)) = []" "callback_count (checker s) = 0"
      "step ?p ?t DoneStep s = None" "step ?p ?t (FallbackCompletes reply_200) s = None"
    using example_trace_send_escapes [OF a(1,2,3,6,7), of ?p reply_200] by blast
  show ?thesis
    unfolding u s(1) sum.case option.case
    using s(2-7) by simp
qed

text \<open>
  C5, as the code has it. \<^verbatim>\<open>Abort\<close> is idempotent whenever the \<^verbatim>\<open>Abort\<close> of an exchange is,
  as it is when that sets a flag: it sets the abort flag, aborts the primary exchange and
  aborts the second exchange if there is one, and changes nothing else. With \<^verbatim>\<open>Abort\<close> and the completion handler interleaved statement by statement, from
  a checker constructed in either mode, in every reachable state: the handler is between
  its re-check of the flag and the end of its block exactly when it holds the mutex; the
  flag, once set, stays set; a step constructs a second exchange only when it is the
  handler's, made holding the mutex after the re-check under that mutex read the flag
  clear, and while no call of \<^verbatim>\<open>Abort\<close> has returned; and once a call of \<^verbatim>\<open>Abort\<close> has
  returned, the flag is set, the primary exchange is aborted, and a second exchange, if
  there is one, is aborted too.
\<close>

theorem abort_idempotent_and_final:
  "((\<forall>x. exchange_abort (exchange_abort x) = exchange_abort x) \<longrightarrow>
      Abort_with exchange_abort (Abort_with exchange_abort uc) = Abort_with exchange_abort uc)
 \<and> Abort (Abort uc) = Abort uc
 \<and> Abort uc = uc\<lparr>m_aborted := True,
                  m_httpSimple := (m_httpSimple uc)\<lparr>abortCalled := True\<rparr>,
                  m_httpSimpleGetRequest :=
                    map_option (\<lambda>g. g\<lparr>abortCalled := True\<rparr>) (m_httpSimpleGetRequest uc)\<rparr>
 \<and> (reachable p t s \<longrightarrow>
        holds_mutex (dpc s) = (mutex s = Some CompletionThread)
      \<and> (\<forall>a s'. step p t a s = Some s' \<longrightarrow>
            (m_aborted (checker s) \<longrightarrow> m_aborted (checker s'))
          \<and> (created s' \<noteq> created s
               \<or> (m_httpSimpleGetRequest (checker s) = None
                    \<and> m_httpSimpleGetRequest (checker s') \<noteq> None) \<longrightarrow>
                a = DoneStep \<and> dpc s = DoneNew \<and> mutex s = Some CompletionThread
              \<and> flag_at_recheck s = Some False
              \<and> abort_returns s = 0))
      \<and> (0 < abort_returns s \<longrightarrow>
            m_aborted (checker s)
          \<and> abortCalled (m_httpSimple (checker s))
          \<and> (\<forall>g. m_httpSimpleGetRequest (checker s) = Some g \<longrightarrow> abortCalled g)))"
proof -
  have conc: "reachable p t s \<Longrightarrow>
        holds_mutex (dpc s) = (mutex s = Some CompletionThread)
      \<and> (\<forall>a s'. step p t a s = Some s' \<longrightarrow>
            (m_aborted (checker s) \<longrightarrow> m_aborted (checker s'))
          \<and> (created s' \<noteq> created s
               \<or> (m_httpSimpleGetRequest (checker s) = None
                    \<and> m_httpSimpleGetRequest (checker s') \<noteq> None) \<longrightarrow>
                a = DoneStep \<and> dpc s = DoneNew \<and> mutex s = Some CompletionThread
              \<and> flag_at_recheck s = Some False
              \<and> abort_returns s = 0))
      \<and> (0 < abort_returns s \<longrightarrow>
            m_aborted (checker s)
          \<and> abortCalled (m_httpSimple (checker s))
          \<and> (\<forall>g. m_httpSimpleGetRequest (checker s) = Some g \<longrightarrow> abortCalled g))"
  proof -
    assume r: "reachable p t s"
    then have inv: "sys_inv s" by (rule reachable_inv)
    note d = sys_invD [OF inv]
    have read: "dpc s = DoneNew \<Longrightarrow> flag_at_recheck s = Some False"
    proof -
      assume n: "dpc s = DoneNew"
      then have "dpc s \<noteq> DoneWaiting" by simp
      from handler_invD(3) [OF reachable_handler [OF r] this] n show ?thesis
        by (simp add: reads_def)
    qed
    have new: "dpc s = DoneNew \<Longrightarrow> mutex s = Some CompletionThread
        \<and> flag_at_recheck s = Some False \<and> abort_returns s = 0"
      using d(1) d(6) read by auto
    have steps: "\<And>a s'. step p t a s = Some s' \<Longrightarrow>
            (m_aborted (checker s) \<longrightarrow> m_aborted (checker s'))
          \<and> (created s' \<noteq> created s
               \<or> (m_httpSimpleGetRequest (checker s) = None
                    \<and> m_httpSimpleGetRequest (checker s') \<noteq> None) \<longrightarrow>
                a = DoneStep \<and> dpc s = DoneNew \<and> mutex s = Some CompletionThread
              \<and> flag_at_recheck s = Some False
              \<and> abort_returns s = 0)"
      using step_flag step_created new by blast
    show ?thesis
      using d(1) steps d(3) d(4) d(5) by blast
  qed
  show ?thesis
    using Abort_with_idem [of exchange_abort uc] Abort_idem [of uc] Abort_eq [of uc] conc
    by blast
qed

theorem abort_idempotent_and_final_witness:
  "(case UpdateChecker_ctor example_platform (example_transport reply_405) 0 True ''{}'' of
      Inl _ \<Rightarrow> False
    | Inr uc \<Rightarrow>
        Abort_with CWinHTTPSimple_Abort (Abort_with CWinHTTPSimple_Abort uc) =
          Abort_with CWinHTTPSimple_Abort uc
      \<and> Abort (Abort uc) = Abort uc
      \<and> (case run example_platform (example_transport reply_405)
                 [PrimaryCompletes reply_405, DoneStep, DoneStep, DoneStep] (init_sys uc) of
            None \<Rightarrow> False
          | Some s \<Rightarrow>
              mutex s = Some CompletionThread \<and> flag_at_recheck s = Some False
            \<and> abort_returns s = 0)
      \<and> (case run example_platform (example_transport reply_405)
                 [PrimaryCompletes reply_405, DoneStep, DoneStep, DoneStep, DoneStep, DoneStep,
                  DoneStep, AbortStep, AbortStep, AbortStep, AbortStep, AbortStep]
                 (init_sys uc) of
            None \<Rightarrow> False
          | Some s \<Rightarrow>
              m_aborted (checker s) \<and> abortCalled (m_httpSimple (checker s))
            \<and> (case m_httpSimpleGetRequest (checker s) of
                  None \<Rightarrow> False
                | Some g \<Rightarrow> abortCalled g)))"
proof -
  let ?p = example_platform and ?t = "example_transport reply_405"
  obtain u where u: "UpdateChecker_ctor ?p ?t 0 True ''{}'' = Inr u"
    using example_ctor_async [of ?t ?p 0 "''{}''"] by (auto simp add: example_transport_def)
  note a = ctor_async_state [OF u]
  have start: "reachable ?p ?t (init_sys u)"
    using u by (rule reachable_init)
  obtain s1 s1' where s1:
      "run ?p ?t [PrimaryCompletes reply_405, DoneStep, DoneStep, DoneStep] (init_sys u) = Some s1"
      "dpc s1 = DoneNew" "created s1 = 0"
      "step ?p ?t DoneStep s1 = Some s1'" "created s1' = 1"
    using example_trace_before_new [OF a(1,2,3), of ?p] by blast
  obtain s2 s2' where s2:
      "run ?p ?t [PrimaryCompletes reply_405, DoneStep, DoneStep, DoneStep, DoneStep, DoneStep,
          DoneStep, AbortStep, AbortStep, AbortStep, AbortStep, AbortStep] (init_sys u) = Some s2"
      "abort_returns s2 = 1" "m_httpSimpleGetRequest (checker s2) \<noteq> None"
      "step ?p ?t AbortStep s2 = Some s2'"
    using example_trace_abort_last [OF a(1,2,3), of ?p] by blast
  have r1: "reachable ?p ?t s1"
    using run_reachable [OF start s1(1)] .
  have r2: "reachable ?p ?t s2"
    using run_reachable [OF start s2(1)] .
  have w1: "mutex s1 = Some CompletionThread \<and> flag_at_recheck s1 = Some False
      \<and> abort_returns s1 = 0"
    using abort_idempotent_and_final [of CWinHTTPSimple_Abort u ?p ?t s1] r1 s1(3,4,5) by auto
  obtain g where g: "m_httpSimpleGetRequest (checker s2) = Some g"
    using s2(3) by blast
  have w2: "m_aborted (checker s2) \<and> abortCalled (m_httpSimple (checker s2)) \<and> abortCalled g"
    using abort_idempotent_and_final [of CWinHTTPSimple_Abort u ?p ?t s2] r2 s2(2) g by auto
  have w0: "Abort (Abort u) = Abort u"
    using abort_idempotent_and_final [of CWinHTTPSimple_Abort u ?p ?t s2] by blast
  have "\<forall>x. CWinHTTPSimple_Abort (CWinHTTPSimple_Abort x) = CWinHTTPSimple_Abort x"
    by (simp add: CWinHTTPSimple_Abort_def)
  then have w3: "Abort_with CWinHTTPSimple_Abort (Abort_with CWinHTTPSimple_Abort u) =
      Abort_with CWinHTTPSimple_Abort u"
    using abort_idempotent_and_final [of CWinHTTPSimple_Abort u ?p ?t s2] by blast
  show ?thesis
    unfolding u s1(1) s2(1) sum.case option.case
    using w0 w1 w2 w3 g by simp
qed

text \<open>
  C5, as the specification words it, fails: the flag is set outside the mutex. When the
  handler has passed its re-check and \<^verbatim>\<open>Abort\<close> then sets the flag, the handler's next
  statement constructs the second exchange, after the flag was set; that call of \<^verbatim>\<open>Abort\<close>
  then waits for the mutex and has aborted the new exchange by the time it returns.
\<close>

theorem fallback_created_after_flag_set:
  "(case UpdateChecker_ctor example_platform (example_transport reply_405) 0 True ''{}'' of
      Inl _ \<Rightarrow> False
    | Inr uc \<Rightarrow>
        (case run example_platform (example_transport reply_405)
                [PrimaryCompletes reply_405, DoneStep, DoneStep, DoneStep, AbortStep]
                (init_sys uc) of
           None \<Rightarrow> False
         | Some s \<Rightarrow>
             m_aborted (checker s) \<and> created s = 0 \<and> m_httpSimpleGetRequest (checker s) = None
           \<and> (case step example_platform (example_transport reply_405) DoneStep s of
                 None \<Rightarrow> False
               | Some s' \<Rightarrow> created s' = 1 \<and> m_httpSimpleGetRequest (checker s') \<noteq> None))
      \<and> (case run example_platform (example_transport reply_405)
                [PrimaryCompletes reply_405, DoneStep, DoneStep, DoneStep, AbortStep, DoneStep,
                 DoneStep, DoneStep, AbortStep, AbortStep, AbortStep, AbortStep]
                (init_sys uc) of
           None \<Rightarrow> False
         | Some s \<Rightarrow>
             abort_returns s = 1
           \<and> (case m_httpSimpleGetRequest (checker s) of
                 None \<Rightarrow> False
               | Some g \<Rightarrow> abortCalled g)))"
proof -
  let ?p = example_platform and ?t = "example_transport reply_405"
  obtain u where u: "UpdateChecker_ctor ?p ?t 0 True ''{}'' = Inr u"
    using example_ctor_async [of ?t ?p 0 "''{}''"] by (auto simp add: example_transport_def)
  note a = ctor_async_state [OF u]
  obtain s s' where s:
      "run ?p ?t [PrimaryCompletes reply_405, DoneStep, DoneStep, DoneStep, AbortStep] (init_sys u)
         = Some s"
      "m_aborted (checker s)" "created s = 0" "m_httpSimpleGetRequest (checker s) = None"
      "step ?p ?t DoneStep s = Some s'" "created s' = 1"
      "m_httpSimpleGetRequest (checker s') \<noteq> None"
    using example_trace_race [OF a(1,2,3), of ?p] by blast
  obtain s2 where s2:
      "run ?p ?t [PrimaryCompletes reply_405, DoneStep, DoneStep, DoneStep, AbortStep, DoneStep,
          DoneStep, DoneStep, AbortStep, AbortStep, AbortStep, AbortStep] (init_sys u) = Some s2"
      "abort_returns s2 = 1"
      "(case m_httpSimpleGetRequest (checker s2) of None \<Rightarrow> False | Some g \<Rightarrow> abortCalled g)"
    using example_trace_race_goes_on [OF a(1,2,3), of ?p] by blast
  show ?thesis
    unfolding u s(1) s(5) s2(1) sum.case option.case
    using s(2-4,6,7) s2(2,3) by simp
qed

section \<open>Claims about creating and opening the namespace\<close>

text \<open>
  C6. For every process id, whatever the system lets fail: the name that \<^verbatim>\<open>Create\<close> and
  \<^verbatim>\<open>Open\<close> give to \<^verbatim>\<open>CreateBoundaryDescriptor\<close> is the name made from the process id;
  \<^verbatim>\<open>Create\<close> passes that same string to \<^verbatim>\<open>CreatePrivateNamespace\<close> as the namespace name,
  together with a boundary of that name carrying exactly the world SID and the medium
  mandatory label, and security attributes holding the full-access security descriptor;
  \<^verbatim>\<open>Open\<close> passes the identical boundary and the identical name to
  \<^verbatim>\<open>OpenPrivateNamespace\<close>. A call that returns a handle has made all its system calls,
  in the order of the source.
\<close>

theorem namespace_identity:
  "(\<forall>name flags. CallCreateBoundaryDescriptor name flags
        \<in> set (new_calls s (snd (Create orc pid s))) \<union> set (new_calls s (snd (Open orc pid s)))
      \<longrightarrow> name = szPrivateNamespaceName pid \<and> flags = 0)
 \<and> (\<forall>secAttr b alias. CallCreatePrivateNamespace secAttr b alias
        \<in> set (new_calls s (snd (Create orc pid s)))
      \<longrightarrow> alias = szPrivateNamespaceName pid \<and> b = session_boundary pid
        \<and> bd_name b = szPrivateNamespaceName pid
        \<and> bd_sids b = [world_sid] \<and> bd_labels b = [medium_label_sid]
        \<and> lpSecurityDescriptor secAttr = FullAccessSecurityDescriptor)
 \<and> (\<forall>b alias. CallOpenPrivateNamespace b alias \<in> set (new_calls s (snd (Open orc pid s)))
      \<longrightarrow> alias = szPrivateNamespaceName pid \<and> b = session_boundary pid
        \<and> bd_name b = szPrivateNamespaceName pid
        \<and> bd_sids b = [world_sid] \<and> bd_labels b = [medium_label_sid])
 \<and> (\<forall>h. fst (Create orc pid s) = Inr h \<longrightarrow>
        new_calls s (snd (Create orc pid s)) = create_calls pid
      \<and> h_boundary h = session_boundary pid \<and> h_alias h = szPrivateNamespaceName pid)
 \<and> (\<forall>h. fst (Open orc pid s) = Inr h \<longrightarrow>
        new_calls s (snd (Open orc pid s)) = open_calls pid
      \<and> h_boundary h = session_boundary pid \<and> h_alias h = szPrivateNamespaceName pid)
 \<and> szPrivateNamespaceName pid = ''WindhawkSession'' @ dec_digits (unat pid)
 \<and> world_sid = \<lparr>identifierAuthority = SECURITY_WORLD_SID_AUTHORITY,
                  subAuthority = [SECURITY_WORLD_RID]\<rparr>
 \<and> medium_label_sid = \<lparr>identifierAuthority = SECURITY_MANDATORY_LABEL_AUTHORITY,
                         subAuthority = [SECURITY_MANDATORY_MEDIUM_RID]\<rparr>"
proof -
  have c: "set (new_calls s (snd (Create orc pid s))) \<subseteq> set (create_calls pid)"
    by (simp add: Create_new_calls until_failure_subset)
  have opn: "set (new_calls s (snd (Open orc pid s))) \<subseteq> set (open_calls pid)"
    by (simp add: Open_new_calls until_failure_subset)
  have c1: "\<And>name flags. CallCreateBoundaryDescriptor name flags \<in> set (create_calls pid) \<union> set (open_calls pid)
      \<Longrightarrow> name = szPrivateNamespaceName pid \<and> flags = 0"
    by (auto simp add: create_calls_def open_calls_def boundary_calls_def)
  have c2: "\<And>secAttr b alias. CallCreatePrivateNamespace secAttr b alias \<in> set (create_calls pid)
      \<Longrightarrow> alias = szPrivateNamespaceName pid \<and> b = session_boundary pid
        \<and> bd_name b = szPrivateNamespaceName pid
        \<and> bd_sids b = [world_sid] \<and> bd_labels b = [medium_label_sid]
        \<and> lpSecurityDescriptor secAttr = FullAccessSecurityDescriptor"
    by (auto simp add: create_calls_def boundary_calls_def session_boundary_def)
  have c3: "\<And>b alias. CallOpenPrivateNamespace b alias \<in> set (open_calls pid)
      \<Longrightarrow> alias = szPrivateNamespaceName pid \<and> b = session_boundary pid
        \<and> bd_name b = szPrivateNamespaceName pid
        \<and> bd_sids b = [world_sid] \<and> bd_labels b = [medium_label_sid]"
    by (auto simp add: open_calls_def boundary_calls_def session_boundary_def)
  have c4: "\<And>h. fst (Create orc pid s) = Inr h \<Longrightarrow>
        new_calls s (snd (Create orc pid s)) = create_calls pid
      \<and> h_boundary h = session_boundary pid \<and> h_alias h = szPrivateNamespaceName pid"
    by (simp add: Create_Inr Create_new_calls until_failure_none)
  have c5: "\<And>h. fst (Open orc pid s) = Inr h \<Longrightarrow>
        new_calls s (snd (Open orc pid s)) = open_calls pid
      \<and> h_boundary h = session_boundary pid \<and> h_alias h = szPrivateNamespaceName pid"
    by (simp add: Open_Inr Open_new_calls until_failure_none)
  have c6: "world_sid = \<lparr>identifierAuthority = SECURITY_WORLD_SID_AUTHORITY,
                  subAuthority = [SECURITY_WORLD_RID]\<rparr>"
    "medium_label_sid = \<lparr>identifierAuthority = SECURITY_MANDATORY_LABEL_AUTHORITY,
                         subAuthority = [SECURITY_MANDATORY_MEDIUM_RID]\<rparr>"
    by (simp_all add: sids_eval)
  from c opn c1 have p1: "\<forall>name flags. CallCreateBoundaryDescriptor name flags
        \<in> set (new_calls s (snd (Create orc pid s))) \<union> set (new_calls s (snd (Open orc pid s)))
      \<longrightarrow> name = szPrivateNamespaceName pid \<and> flags = 0"
    by blast
  from c c2 have p2: "\<forall>secAttr b alias. CallCreatePrivateNamespace secAttr b alias
        \<in> set (new_calls s (snd (Create orc pid s)))
      \<longrightarrow> alias = szPrivateNamespaceName pid \<and> b = session_boundary pid
        \<and> bd_name b = szPrivateNamespaceName pid
        \<and> bd_sids b = [world_sid] \<and> bd_labels b = [medium_label_sid]
        \<and> lpSecurityDescriptor secAttr = FullAccessSecurityDescriptor"
    by blast
  from opn c3 have p3: "\<forall>b alias. CallOpenPrivateNamespace b alias \<in> set (new_calls s (snd (Open orc pid s)))
      \<longrightarrow> alias = szPrivateNamespaceName pid \<and> b = session_boundary pid
        \<and> bd_name b = szPrivateNamespaceName pid
        \<and> bd_sids b = [world_sid] \<and> bd_labels b = [medium_label_sid]"
    by blast
  show ?thesis
    using p1 p2 p3 c4 c5 c6 szPrivateNamespaceName_eq [of pid] by blast
qed

theorem namespace_identity_witness:
  "fst (Create no_failure 1234 empty_os) =
     Inr \<lparr>h_boundary = \<lparr>bd_name = ''WindhawkSession1234'', bd_flags = 0, bd_sids = [world_sid],
                        bd_labels = [medium_label_sid]\<rparr>,
          h_alias = ''WindhawkSession1234'', h_destroy = True\<rparr>
 \<and> CallCreateBoundaryDescriptor ''WindhawkSession1234'' 0
     \<in> set (new_calls empty_os (snd (Create no_failure 1234 empty_os)))
 \<and> CallCreatePrivateNamespace
       \<lparr>lpSecurityDescriptor = FullAccessSecurityDescriptor, bInheritHandle = False\<rparr>
       \<lparr>bd_name = ''WindhawkSession1234'', bd_flags = 0, bd_sids = [world_sid],
         bd_labels = [medium_label_sid]\<rparr>
       ''WindhawkSession1234''
     \<in> set (new_calls empty_os (snd (Create no_failure 1234 empty_os)))
 \<and> CallOpenPrivateNamespace
       \<lparr>bd_name = ''WindhawkSession1234'', bd_flags = 0, bd_sids = [world_sid],
         bd_labels = [medium_label_sid]\<rparr>
       ''WindhawkSession1234''
     \<in> set (new_calls (snd (Create no_failure 1234 empty_os))
              (snd (Open no_failure 1234 (snd (Create no_failure 1234 empty_os)))))"
proof -
  let ?s1 = "snd (Create no_failure 1234 empty_os)"
  let ?b = "\<lparr>bd_name = ''WindhawkSession1234'', bd_flags = 0, bd_sids = [world_sid],
         bd_labels = [medium_label_sid]\<rparr>"
  have b: "session_boundary 1234 = ?b"
    by (simp add: session_boundary_def example_name)
  obtain h where h: "fst (Create no_failure 1234 empty_os) = Inr h"
    by (simp add: example_Create)
  obtain h' where h': "fst (Open no_failure 1234 ?s1) = Inr h'"
    by (simp add: example_Create example_Open)
  note c = namespace_identity [of empty_os no_failure 1234]
  note opn = namespace_identity [of ?s1 no_failure 1234]
  have calls1: "new_calls empty_os ?s1 = create_calls 1234"
    using c h by blast
  have calls2: "new_calls ?s1 (snd (Open no_failure 1234 ?s1)) = open_calls 1234"
    using opn h' by blast
  have hb: "h = \<lparr>h_boundary = ?b, h_alias = ''WindhawkSession1234'', h_destroy = True\<rparr>"
    using c h b by (simp add: example_Create)
  show ?thesis
    unfolding calls1 calls2 h hb
    by (simp add: create_calls_def open_calls_def boundary_calls_def example_name b)
qed

text \<open>
  C7. \<^verbatim>\<open>Open\<close> never changes which namespaces exist. It throws when no namespace with the
  boundary of the process id exists, and when a system call it makes fails. \<^verbatim>\<open>Create\<close>
  throws when a system call it makes fails, and then no namespace has been added. Both
  functions leave, on every path, as many boundary descriptors, SIDs and local allocations
  live as they found. When \<^verbatim>\<open>Create\<close> returns, the namespace exists and the handle refers to
  it; an \<^verbatim>\<open>Open\<close> for the same process id that follows, none of whose system calls fails,
  returns a handle to that namespace.
\<close>

theorem open_never_creates:
  "namespaces (snd (Open orc pid s)) = namespaces s
 \<and> live (snd (Open orc pid s)) = live s
 \<and> live (snd (Create orc pid s)) = live s
 \<and> (session_boundary pid \<notin> set (namespaces s) \<longrightarrow> (\<exists>e. fst (Open orc pid s) = Inl e))
 \<and> ((\<exists>c \<in> set (new_calls s (snd (Open orc pid s))). forced_failure orc c) \<longrightarrow>
        (\<exists>e. fst (Open orc pid s) = Inl e))
 \<and> ((\<exists>c \<in> set (new_calls s (snd (Create orc pid s))). forced_failure orc c) \<longrightarrow>
        (\<exists>e. fst (Create orc pid s) = Inl e))
 \<and> ((\<exists>e. fst (Create orc pid s) = Inl e) \<longrightarrow>
        namespaces (snd (Create orc pid s)) = namespaces s)
 \<and> (\<forall>h. fst (Create orc pid s) = Inr h \<longrightarrow>
        namespaces (snd (Create orc pid s)) = session_boundary pid # namespaces s
      \<and> usable (snd (Create orc pid s)) h
      \<and> (\<forall>orc'. (\<forall>c \<in> set (open_calls pid). \<not> forced_failure orc' c) \<longrightarrow>
            (\<exists>h'. fst (Open orc' pid (snd (Create orc pid s))) = Inr h'
                \<and> h_boundary h' = h_boundary h
                \<and> usable (snd (Open orc' pid (snd (Create orc pid s)))) h')))"
proof -
  have p1: "session_boundary pid \<notin> set (namespaces s) \<Longrightarrow> \<exists>e. fst (Open orc pid s) = Inl e"
    by (auto simp add: Open_eq split: option.splits)
  have p2: "\<exists>c \<in> set (new_calls s (snd (Open orc pid s))). forced_failure orc c \<Longrightarrow>
        \<exists>e. fst (Open orc pid s) = Inl e"
    unfolding Open_new_calls until_failure_forced
    by (auto simp add: Open_eq split: option.splits)
  have p3: "\<exists>c \<in> set (new_calls s (snd (Create orc pid s))). forced_failure orc c \<Longrightarrow>
        \<exists>e. fst (Create orc pid s) = Inl e"
    unfolding Create_new_calls until_failure_forced
    by (auto simp add: Create_eq split: option.splits)
  have p4: "\<exists>e. fst (Create orc pid s) = Inl e \<Longrightarrow>
        namespaces (snd (Create orc pid s)) = namespaces s"
    by (auto simp add: Create_frame)
  have p5: "\<And>h. fst (Create orc pid s) = Inr h \<Longrightarrow>
        namespaces (snd (Create orc pid s)) = session_boundary pid # namespaces s
      \<and> usable (snd (Create orc pid s)) h
      \<and> (\<forall>orc'. (\<forall>c \<in> set (open_calls pid). \<not> forced_failure orc' c) \<longrightarrow>
            (\<exists>h'. fst (Open orc' pid (snd (Create orc pid s))) = Inr h'
                \<and> h_boundary h' = h_boundary h
                \<and> usable (snd (Open orc' pid (snd (Create orc pid s)))) h'))"
  proof -
    fix h
    assume h: "fst (Create orc pid s) = Inr h"
    then have hb: "h_boundary h = session_boundary pid"
      by (simp add: Create_Inr)
    have ns: "namespaces (snd (Create orc pid s)) = session_boundary pid # namespaces s"
      using h by (simp add: Create_frame)
    have u: "usable (snd (Create orc pid s)) h"
      by (simp add: usable_def ns hb)
    have "\<exists>h'. fst (Open orc' pid (snd (Create orc pid s))) = Inr h'
                \<and> h_boundary h' = h_boundary h
                \<and> usable (snd (Open orc' pid (snd (Create orc pid s)))) h'"
      if "\<forall>c \<in> set (open_calls pid). \<not> forced_failure orc' c" for orc'
    proof -
      from that have "find (forced_failure orc') (open_calls pid) = None"
        by (simp add: find_None_iff)
      then show ?thesis
        by (simp add: Open_Inr Open_frame usable_def ns hb)
    qed
    with ns u show "namespaces (snd (Create orc pid s)) = session_boundary pid # namespaces s
      \<and> usable (snd (Create orc pid s)) h
      \<and> (\<forall>orc'. (\<forall>c \<in> set (open_calls pid). \<not> forced_failure orc' c) \<longrightarrow>
            (\<exists>h'. fst (Open orc' pid (snd (Create orc pid s))) = Inr h'
                \<and> h_boundary h' = h_boundary h
                \<and> usable (snd (Open orc' pid (snd (Create orc pid s)))) h'))"
      by blast
  qed
  show ?thesis
    using p1 p2 p3 p4 p5 Open_frame [of orc pid s] Create_frame(1) [of orc pid s]
    by blast
qed

theorem open_never_creates_witness:
  "isl (fst (Open no_failure 1234 empty_os))
 \<and> namespaces (snd (Open no_failure 1234 empty_os)) = []
 \<and> \<not> isl (fst (Create no_failure 1234 empty_os))
 \<and> \<not> isl (fst (Open no_failure 1234 (snd (Create no_failure 1234 empty_os))))
 \<and> namespaces (snd (Open no_failure 1234 (snd (Create no_failure 1234 empty_os))))
     = [session_boundary 1234]
 \<and> isl (fst (Open fail_open 1234 (snd (Create no_failure 1234 empty_os))))
 \<and> isl (fst (Create fail_security_descriptor 1234 empty_os))
 \<and> namespaces (snd (Create fail_security_descriptor 1234 empty_os)) = []
 \<and> live (snd (Create fail_security_descriptor 1234 empty_os)) = 0"
proof -
  let ?s1 = "snd (Create no_failure 1234 empty_os)"
  note t0 = open_never_creates [of no_failure 1234 empty_os]
  note t1 = open_never_creates [of fail_open 1234 ?s1]
  note t2 = open_never_creates [of fail_security_descriptor 1234 empty_os]
  have e: "namespaces empty_os = []" "live empty_os = 0"
    by (simp_all add: empty_os_def)
  have w1: "isl (fst (Open no_failure 1234 empty_os))"
    "namespaces (snd (Open no_failure 1234 empty_os)) = []"
    using t0 e by auto
  obtain h where h: "fst (Create no_failure 1234 empty_os) = Inr h"
    by (simp add: example_Create)
  have ok: "\<forall>c \<in> set (open_calls 1234). \<not> forced_failure no_failure c"
    by (simp add: no_failure_def)
  obtain h' where h': "fst (Open no_failure 1234 ?s1) = Inr h'"
    using t0 h ok by blast
  have w2: "namespaces (snd (Open no_failure 1234 ?s1)) = [session_boundary 1234]"
    using open_never_creates [of no_failure 1234 ?s1] t0 h e by simp
  have "CallOpenPrivateNamespace (session_boundary 1234) (szPrivateNamespaceName 1234)
      \<in> set (new_calls ?s1 (snd (Open fail_open 1234 ?s1)))"
    by (simp add: Open_new_calls open_calls_def boundary_calls_def fail_open_def)
  moreover have "forced_failure fail_open
      (CallOpenPrivateNamespace (session_boundary 1234) (szPrivateNamespaceName 1234))"
    by (simp add: fail_open_def)
  ultimately have w3: "isl (fst (Open fail_open 1234 ?s1))"
    using t1 by auto
  have "CallGetFullAccessSecurityDescriptor
      \<in> set (new_calls empty_os (snd (Create fail_security_descriptor 1234 empty_os)))"
    by (simp add: Create_new_calls create_calls_def boundary_calls_def
        fail_security_descriptor_def)
  moreover have "forced_failure fail_security_descriptor CallGetFullAccessSecurityDescriptor"
    by (simp add: fail_security_descriptor_def)
  ultimately have w4: "isl (fst (Create fail_security_descriptor 1234 empty_os))"
    "namespaces (snd (Create fail_security_descriptor 1234 empty_os)) = []"
    "live (snd (Create fail_security_descriptor 1234 empty_os)) = 0"
    using t2 e by auto
  show ?thesis
    using w1 w2 w3 w4 by (simp add: h h')
qed

section \<open>Claims about the hook on process creation\<close>

text \<open>
  C8. The hook returns what the saved implementation returned, and leaves the counter as
  it found it. When the saved implementation fails, the only thing the hook did besides
  counting is to call it: no policy was evaluated, the injection primitive was not
  called, and nothing was logged.
\<close>

theorem failed_creation_passes_through:
  "fst (CreateProcessInternalW_Hook col call g) = bRet (m_originalCreateProcessInternalW col call)
 \<and> m_hookProcCallCounter (snd (CreateProcessInternalW_Hook col call g)) = m_hookProcCallCounter g
 \<and> (bRet (m_originalCreateProcessInternalW col call) = 0 \<longrightarrow>
        hook_effects (snd (CreateProcessInternalW_Hook col call g))
          = hook_effects g @ [RealCreateCalled call]
      \<and> filter policy_or_injection (hook_effects (snd (CreateProcessInternalW_Hook col call g)))
          = filter policy_or_injection (hook_effects g))"
  by (simp add: CreateProcessInternalW_Hook_def hook_body_def Let_def hook_enter_def hook_exit_def
      hook_log_def policy_or_injection_def HandleCreatedProcess_def split_beta)

theorem failed_creation_passes_through_witness:
  "CreateProcessInternalW_Hook example_collaborators (example_call [])
     \<lparr>m_hookProcCallCounter = 0, hook_effects = []\<rparr>
   = (0, \<lparr>m_hookProcCallCounter = 0, hook_effects = [RealCreateCalled (example_call [])]\<rparr>)"
proof -
  let ?g = "\<lparr>m_hookProcCallCounter = 0, hook_effects = []\<rparr>"
  let ?r = "CreateProcessInternalW_Hook example_collaborators (example_call []) ?g"
  have fail: "bRet (m_originalCreateProcessInternalW example_collaborators (example_call [])) = 0"
    by (simp add: example_collaborators_def example_call_def)
  have "fst ?r = 0" "m_hookProcCallCounter (snd ?r) = 0"
    "hook_effects (snd ?r) = [RealCreateCalled (example_call [])]"
    using failed_creation_passes_through [of example_collaborators "example_call []" ?g] fail
    by simp_all
  then show ?thesis
    by (cases ?r) (auto intro: NewProcessInjector.equality)
qed

text \<open>
  C9. The hook is its entry, its work and its exit in that order: the entry adds one to the
  counter before anything else happens, the work leaves the counter alone, the exit takes
  one off on every path, so that a call returns the counter to what it found. With any
  number of calls in flight, interleaved in any way, the counter is never negative, it is
  the number of calls that entered less the number that left, which is the number of calls
  in flight, and it is zero when none is in flight.
\<close>

theorem counter_counts_calls_in_flight:
  "CreateProcessInternalW_Hook col call g =
     (fst (hook_body col call (hook_enter g)), hook_exit (snd (hook_body col call (hook_enter g))))
 \<and> m_hookProcCallCounter (hook_enter g) = m_hookProcCallCounter g + 1
 \<and> hook_effects (hook_enter g) = hook_effects g
 \<and> m_hookProcCallCounter (snd (hook_body col call g)) = m_hookProcCallCounter g
 \<and> m_hookProcCallCounter (hook_exit g) = m_hookProcCallCounter g - 1
 \<and> m_hookProcCallCounter (snd (CreateProcessInternalW_Hook col call g)) = m_hookProcCallCounter g
 \<and> (gate_reachable col s \<longrightarrow>
        0 \<le> m_hookProcCallCounter (gate s)
      \<and> m_hookProcCallCounter (gate s) = int (entered s) - int (exited s)
      \<and> m_hookProcCallCounter (gate s) = int (length (inflight s))
      \<and> exited s \<le> entered s
      \<and> (inflight s = [] \<longrightarrow> m_hookProcCallCounter (gate s) = 0)
      \<and> (entered s = exited s \<longrightarrow> m_hookProcCallCounter (gate s) = 0))"
proof -
  have seq: "CreateProcessInternalW_Hook col call g =
     (fst (hook_body col call (hook_enter g)), hook_exit (snd (hook_body col call (hook_enter g))))"
    by (simp add: CreateProcessInternalW_Hook_def Let_def split_beta)
  have parts: "m_hookProcCallCounter (hook_enter g) = m_hookProcCallCounter g + 1"
    "hook_effects (hook_enter g) = hook_effects g"
    "m_hookProcCallCounter (hook_exit g) = m_hookProcCallCounter g - 1"
    by (simp_all add: hook_enter_def hook_exit_def)
  have whole: "m_hookProcCallCounter (snd (CreateProcessInternalW_Hook col call g))
      = m_hookProcCallCounter g"
    by (simp add: seq hook_exit_def hook_body_counter hook_enter_def)
  have conc: "gate_reachable col s \<Longrightarrow>
        0 \<le> m_hookProcCallCounter (gate s)
      \<and> m_hookProcCallCounter (gate s) = int (entered s) - int (exited s)
      \<and> m_hookProcCallCounter (gate s) = int (length (inflight s))
      \<and> exited s \<le> entered s
      \<and> (inflight s = [] \<longrightarrow> m_hookProcCallCounter (gate s) = 0)
      \<and> (entered s = exited s \<longrightarrow> m_hookProcCallCounter (gate s) = 0)"
    using gate_reachable_inv [of col s] by (auto simp add: gate_inv_def)
  show ?thesis
    using seq parts whole conc hook_body_counter [of col call g] by blast
qed

theorem counter_counts_calls_in_flight_witness:
  "(case gate_run example_collaborators [Enter, Enter, Body 0 (example_call ''notepad'')] gate_init of
      None \<Rightarrow> False
    | Some s \<Rightarrow> m_hookProcCallCounter (gate s) = 2)
 \<and> (case gate_run example_collaborators
           [Enter, Enter, Body 0 (example_call ''notepad''), Exit 1, Exit 0] gate_init of
      None \<Rightarrow> False
    | Some s \<Rightarrow> m_hookProcCallCounter (gate s) = 0)"
proof -
  obtain s1 where s1:
      "gate_run example_collaborators [Enter, Enter, Body 0 (example_call ''notepad'')] gate_init
         = Some s1"
      "inflight s1 = [AfterBody, BeforeBody]" "entered s1 = 2" "exited s1 = 0"
    using example_gate_run(1) by blast
  obtain s2 where s2:
      "gate_run example_collaborators
         [Enter, Enter, Body 0 (example_call ''notepad''), Exit 1, Exit 0] gate_init = Some s2"
      "inflight s2 = []" "entered s2 = 2" "exited s2 = 2"
    using example_gate_run(2) by blast
  have r1: "gate_reachable example_collaborators s1"
    using gate_run_reachable [OF gate_reachable_init s1(1)] .
  have r2: "gate_reachable example_collaborators s2"
    using gate_run_reachable [OF gate_reachable_init s2(1)] .
  have "m_hookProcCallCounter (gate s1) = 2"
    using counter_counts_calls_in_flight [of example_collaborators _ _ s1] r1 s1(3,4) by simp
  moreover have "m_hookProcCallCounter (gate s2) = 0"
    using counter_counts_calls_in_flight [of example_collaborators _ _ s2] r2 s2(2) by blast
  ultimately show ?thesis
    by (simp only: s1(1) s2(1) option.case simp_thms)
qed

end
